(* ===== verification/Prelude.thy ===== *)
theory Prelude
  imports Main "HOL-Library.Word" "HOL-Library.Sublist"
begin

text \<open>
  Shared vocabulary of the development: the machine types of the C program, C strings as
  byte lists, byte buffers and the one primitive every store into a buffer reduces to,
  together with the list and word facts the components use.
\<close>

unbundle bit_operations_syntax

section \<open>Machine types\<close>

type_synonym u8 = "8 word"
type_synonym byte = "8 word"
type_synonym u16 = "16 word"
type_synonym u32 = "32 word"
type_synonym u64 = "64 word"

text \<open>
  A C string is the list of its bytes up to, and without, the terminating NUL. A pointer that
  may be NULL is an option. A byte buffer is the list of all its bytes.
\<close>

type_synonym cstr = "byte list"
type_synonym buffer = "byte list"

text \<open>String literals of the source.\<close>

definition bytes_of :: "string \<Rightarrow> cstr" where
  "bytes_of s = map of_char s"

lemma bytes_of_simps [simp]:
  "bytes_of [] = []"
  "bytes_of (c # s) = of_char c # bytes_of s"
  by (simp_all add: bytes_of_def)

named_theorems codec_simps \<open>evaluation rules of the byte-level reads and writes\<close>
named_theorems storage_simps \<open>rules on the storage table\<close>
named_theorems db_simps \<open>rules on the handle database\<close>
named_theorems frame_simps \<open>fields an operation leaves alone\<close>

section \<open>Writing into a buffer\<close>

definition write_at :: "buffer \<Rightarrow> nat \<Rightarrow> byte list \<Rightarrow> buffer" where
  "write_at buf i bs = take i buf @ bs @ drop (i + length bs) buf"

lemma length_write_at [simp]:
  "i + length bs \<le> length buf \<Longrightarrow> length (write_at buf i bs) = length buf"
  by (simp add: write_at_def)

lemma write_at_Nil [simp]: "write_at buf i [] = buf"
  by (simp add: write_at_def)

lemma write_at_append:
  assumes "i + length as + length bs \<le> length buf"
  shows "write_at (write_at buf i as) (i + length as) bs = write_at buf i (as @ bs)"
proof -
  have "take (i + length as) (write_at buf i as) = take i buf @ as"
    using assms by (simp add: write_at_def)
  moreover have "drop (i + length as + length bs) (write_at buf i as)
      = drop (i + length as + length bs) buf"
    using assms by (simp add: write_at_def add.commute)
  ultimately show ?thesis
    by (simp add: write_at_def add.assoc)
qed

lemma write_at_Cons:
  assumes "i + 1 + length bs \<le> length buf"
  shows "write_at (buf[i := b]) (Suc i) bs = write_at buf i (b # bs)"
proof -
  have "buf[i := b] = write_at buf i [b]"
    using assms by (simp add: write_at_def upd_conv_take_nth_drop)
  then show ?thesis
    using write_at_append[of i "[b]" bs buf] assms by simp
qed

lemma write_at_single:
  "i < length buf \<Longrightarrow> buf[i := b] = write_at buf i [b]"
  by (simp add: write_at_def upd_conv_take_nth_drop)

lemma nth_write_at_inside:
  assumes "i + length bs \<le> length buf" "i \<le> j" "j < i + length bs"
  shows "write_at buf i bs ! j = bs ! (j - i)"
  using assms by (auto simp: write_at_def nth_append)

lemma nth_write_at_outside:
  assumes "i + length bs \<le> length buf" "j < i \<or> i + length bs \<le> j"
  shows "write_at buf i bs ! j = buf ! j"
  using assms by (auto simp: write_at_def nth_append)

lemma take_drop_write_at [simp]:
  "i + length bs \<le> length buf \<Longrightarrow> take (length bs) (drop i (write_at buf i bs)) = bs"
  by (simp add: write_at_def)

lemma take_write_at [simp]:
  "i + length bs \<le> length buf \<Longrightarrow> take i (write_at buf i bs) = take i buf"
  by (simp add: write_at_def)

lemma take_write_at_end:
  "i + length bs \<le> length buf \<Longrightarrow> take (i + length bs) (write_at buf i bs) = take i buf @ bs"
  by (simp add: write_at_def)

lemma length_take_drop: "i + n \<le> length xs \<Longrightarrow> length (take n (drop i xs)) = n"
  by simp

text \<open>The packets a run of bytes goes out in.\<close>

function chunks :: "nat \<Rightarrow> 'a list \<Rightarrow> 'a list list" where
  "chunks n xs = (if n = 0 \<or> length xs \<le> n then [xs] else take n xs # chunks n (drop n xs))"
  by pat_completeness auto
termination by (relation "measure (\<lambda>(n, xs). length xs)") auto

declare chunks.simps [simp del]

lemma chunks_Cons: "length xs = n \<Longrightarrow> 0 < n \<Longrightarrow> ys \<noteq> [] \<Longrightarrow> chunks n (xs @ ys) = xs # chunks n ys"
  by (subst chunks.simps) auto

lemma chunks_short: "length xs \<le> n \<Longrightarrow> chunks n xs = [xs]"
  by (subst chunks.simps) auto

section \<open>Little-endian encodings\<close>

definition le16 :: "u16 \<Rightarrow> byte list" where
  "le16 w = [ucast w, ucast (drop_bit 8 w)]"

definition le32 :: "u32 \<Rightarrow> byte list" where
  "le32 w = [ucast w, ucast (drop_bit 8 w), ucast (drop_bit 16 w), ucast (drop_bit 24 w)]"

definition le64 :: "u64 \<Rightarrow> byte list" where
  "le64 w = le32 (ucast w) @ le32 (ucast (drop_bit 32 w))"

lemma length_le [simp]:
  "length (le16 h) = 2" "length (le32 w) = 4" "length (le64 d) = 8"
  by (simp_all add: le16_def le32_def le64_def)

lemma le_not_Nil [simp]: "le16 h \<noteq> []" "le32 w \<noteq> []" "le64 d \<noteq> []"
  by (simp_all add: le16_def le32_def le64_def)

lemma mask_byte32 [simp]: "ucast (w AND 0xFF) = (ucast w :: byte)" for w :: u32
  by (rule bit_word_eqI) (auto simp: bit_simps numeral_eq_Suc less_Suc_eq)

lemma mask_byte16 [simp]: "ucast (w AND 0xFF) = (ucast w :: byte)" for w :: u16
  by (rule bit_word_eqI) (auto simp: bit_simps numeral_eq_Suc less_Suc_eq)

section \<open>Words\<close>

text \<open>A flag test of the source, \<open>flags & MASK\<close> used as a condition.\<close>

definition has_flag :: "'a::len word \<Rightarrow> 'a word \<Rightarrow> bool" where
  "has_flag w m \<longleftrightarrow> w AND m \<noteq> 0"

lemma has_flag_or: "has_flag (v OR w) m \<longleftrightarrow> has_flag v m \<or> has_flag w m"
  by (simp add: has_flag_def bit.conj_disj_distrib2 or_eq_0_iff)

section \<open>Lists\<close>

lemma list_all_update:
  "list_all P xs \<Longrightarrow> P x \<Longrightarrow> list_all P (xs[i := x])"
  by (auto simp: list_all_iff dest: set_update_subset_insert [THEN subsetD])

lemma nth_append_snoc: "(xs @ [x]) ! length xs = x"
  by simp

lemma dropWhile_find:
  "find P xs = (case dropWhile (Not \<circ> P) xs of [] \<Rightarrow> None | y # _ \<Rightarrow> Some y)"
  by (induction xs) auto

lemma find_filter: "find P xs = (case filter P xs of [] \<Rightarrow> None | y # _ \<Rightarrow> Some y)"
  by (induction xs) auto

lemma option_eqI: "(\<And>e. x = Some e \<longleftrightarrow> y = Some e) \<Longrightarrow> x = y"
  by (cases x; cases y) auto

end
