(* ===== verification/Codec.thy ===== *)
theory Codec
  imports Prelude
begin

text \<open>
  The byte readers and writers of \<open>src/mtp_helpers.c\<close>. A writer takes the buffer, the write
  index and the size limit and returns the buffer and the new index, a negative index being the
  sticky error the C code threads through \<open>ofs = poke..(buffer, ofs, maxsize, ..)\<close> chains.
  The locale \<open>field_writer\<close> is the contract every such writer keeps; sequencing keeps it too,
  so a whole dataset builder is one writer of the concatenated encoding.
\<close>

type_synonym writer = "buffer \<Rightarrow> int \<Rightarrow> int \<Rightarrow> buffer \<times> int"

section \<open>The operations\<close>

definition poke32 :: "buffer \<Rightarrow> int \<Rightarrow> int \<Rightarrow> u32 \<Rightarrow> buffer \<times> int" where
  "poke32 buffer index maxsize data =
    (if index < 0 then (buffer, index)
     else if index + 4 \<ge> maxsize then (buffer, -1)
     else (let ptr = nat index in
       (buffer[ptr := ucast (data AND 0xFF),
               ptr + 1 := ucast (drop_bit 8 data AND 0xFF),
               ptr + 2 := ucast (drop_bit 16 data AND 0xFF),
               ptr + 3 := ucast (drop_bit 24 data AND 0xFF)], index + 4)))"

definition poke16 :: "buffer \<Rightarrow> int \<Rightarrow> int \<Rightarrow> u16 \<Rightarrow> buffer \<times> int" where
  "poke16 buffer index maxsize data =
    (if index < 0 then (buffer, index)
     else if index + 2 \<ge> maxsize then (buffer, -1)
     else (let ptr = nat index in
       (buffer[ptr := ucast (data AND 0xFF),
               ptr + 1 := ucast (drop_bit 8 data AND 0xFF)], index + 2)))"

definition poke08 :: "buffer \<Rightarrow> int \<Rightarrow> int \<Rightarrow> u8 \<Rightarrow> buffer \<times> int" where
  "poke08 buffer index maxsize data =
    (if index < 0 then (buffer, index)
     else if index + 1 \<ge> maxsize then (buffer, -1)
     else (buffer[nat index := data], index + 1))"

text \<open>The loop of \<open>peek\<close>, counting \<open>typesize\<close> down; the callers pass 1, 2 or 4 (8 for \<open>peek64\<close>).\<close>

fun peek_loop :: "buffer \<Rightarrow> nat \<Rightarrow> nat \<Rightarrow> nat \<Rightarrow> u32 \<Rightarrow> u32" where
  "peek_loop ptr index 0 shift data = data"
| "peek_loop ptr index (Suc typesize) shift data =
     peek_loop ptr (Suc index) typesize (shift + 8) (data OR push_bit shift (ucast (ptr ! index)))"

definition peek :: "buffer \<Rightarrow> nat \<Rightarrow> nat \<Rightarrow> u32" where
  "peek buffer index typesize = peek_loop buffer index typesize 0 0"

fun peek64_loop :: "buffer \<Rightarrow> nat \<Rightarrow> nat \<Rightarrow> nat \<Rightarrow> u64 \<Rightarrow> u64" where
  "peek64_loop ptr index 0 shift data = data"
| "peek64_loop ptr index (Suc typesize) shift data =
     peek64_loop ptr (Suc index) typesize (shift + 8) (data OR push_bit shift (ucast (ptr ! index)))"

definition peek64 :: "buffer \<Rightarrow> nat \<Rightarrow> nat \<Rightarrow> u64" where
  "peek64 buffer index typesize = peek64_loop buffer index typesize 0 0"

text \<open>
  \<open>poke_array\<close>: the byte copy loop, and the element count in front when \<open>prefixed\<close> is 1
  (the flag is 0 or 1 at every call). \<open>bufferin\<close> is the source array, \<open>nbytes\<close> its byte count.
\<close>

fun poke_bytes :: "buffer \<Rightarrow> nat \<Rightarrow> byte list \<Rightarrow> buffer" where
  "poke_bytes ptr index [] = ptr"
| "poke_bytes ptr index (b # bs) = poke_bytes (ptr[index := b]) (Suc index) bs"

definition poke_array ::
  "buffer \<Rightarrow> int \<Rightarrow> int \<Rightarrow> nat \<Rightarrow> nat \<Rightarrow> byte list \<Rightarrow> bool \<Rightarrow> buffer \<times> int" where
  "poke_array buffer index maxsize nbytes elementsize bufferin prefixed =
    (if index < 0 then (buffer, index)
     else if index + (int nbytes + (if prefixed then 4 else 0)) \<ge> maxsize then (buffer, -1)
     else (let nbelement = word_of_nat (nbytes div elementsize) :: u32;
               ptr = (if prefixed
                      then buffer[nat index := ucast (nbelement AND 0xFF),
                                  nat index + 1 := ucast (drop_bit 8 nbelement AND 0xFF),
                                  nat index + 2 := ucast (drop_bit 16 nbelement AND 0xFF),
                                  nat index + 3 := ucast (drop_bit 24 nbelement AND 0xFF)]
                      else buffer);
               index' = (if prefixed then nat index + 4 else nat index)
           in (poke_bytes ptr index' (take nbytes bufferin), int (index' + nbytes))))"

section \<open>Evaluation and byte-level meaning\<close>

definition join16 :: "byte \<Rightarrow> byte \<Rightarrow> u32" where
  "join16 b0 b1 = ucast b0 OR push_bit 8 (ucast b1)"

definition join32 :: "byte \<Rightarrow> byte \<Rightarrow> byte \<Rightarrow> byte \<Rightarrow> u32" where
  "join32 b0 b1 b2 b3 = ucast b0 OR push_bit 8 (ucast b1) OR push_bit 16 (ucast b2) OR push_bit 24 (ucast b3)"

lemma peek_1 [codec_simps]: "peek b i 1 = ucast (b ! i)"
  by (simp add: peek_def)

lemma peek_2 [codec_simps]: "peek b i 2 = join16 (b ! i) (b ! (i + 1))"
  by (simp add: peek_def numeral_2_eq_2 join16_def)

lemma peek_4 [codec_simps]: "peek b i 4 = join32 (b ! i) (b ! (i + 1)) (b ! (i + 2)) (b ! (i + 3))"
  by (simp add: peek_def eval_nat_numeral join32_def ac_simps)

lemma join32_le32:
  "join32 (ucast w) (ucast (drop_bit 8 w)) (ucast (drop_bit 16 w)) (ucast (drop_bit 24 w)) = (w :: u32)"
proof (rule bit_word_eqI)
  fix n assume "n < LENGTH(32)"
  then consider "n < 8" | "8 \<le> n" "n < 16" | "16 \<le> n" "n < 24" | "24 \<le> n" "n < 32" by fastforce
  then show "bit (join32 (ucast w) (ucast (drop_bit 8 w)) (ucast (drop_bit 16 w)) (ucast (drop_bit 24 w))) n
      \<longleftrightarrow> bit w n"
    by cases (auto simp: join32_def bit_simps)
qed

lemma join16_le16: "join16 (ucast w) (ucast (drop_bit 8 w)) = (ucast (w :: u16) :: u32)"
proof (rule bit_word_eqI)
  fix n assume "n < LENGTH(32)"
  then consider "n < 8" | "8 \<le> n" "n < 16" | "16 \<le> n" "n < 32" by fastforce
  then show "bit (join16 (ucast w) (ucast (drop_bit 8 w))) n \<longleftrightarrow> bit (ucast w :: u32) n"
    by cases (auto simp: join16_def bit_simps dest: bit_imp_le_length)
qed

lemma peek_le32:
  assumes "b ! i = le32 w ! 0" "b ! (i + 1) = le32 w ! 1" "b ! (i + 2) = le32 w ! 2" "b ! (i + 3) = le32 w ! 3"
  shows "peek b i 4 = w"
  using assms by (simp add: peek_4 le32_def join32_le32)

lemma nth_write_at_k:
  assumes "i + length bs \<le> length buf" "k < length bs"
  shows "write_at buf i bs ! (i + k) = bs ! k"
  using nth_write_at_inside[of i bs buf "i + k"] assms by simp

lemma peek_write_le32:
  assumes "i + 4 \<le> length buf"
  shows "peek (write_at buf i (le32 w)) i 4 = w"
  using assms nth_write_at_k[of i "le32 w" buf 0] nth_write_at_k[of i "le32 w" buf 1]
    nth_write_at_k[of i "le32 w" buf 2] nth_write_at_k[of i "le32 w" buf 3]
  by (intro peek_le32) auto

lemma peek_write_le16:
  assumes "i + 2 \<le> length buf"
  shows "peek (write_at buf i (le16 w)) i 2 = ucast w"
  using assms nth_write_at_k[of i "le16 w" buf 0] nth_write_at_k[of i "le16 w" buf 1]
  by (simp add: peek_2 le16_def join16_le16)

lemma poke_bytes_write_at:
  "i + length bs \<le> length buf \<Longrightarrow> poke_bytes buf i bs = write_at buf i bs"
  by (induction bs arbitrary: buf i) (simp_all add: write_at_Cons)

lemma updates4_write_at:
  assumes "i + 4 \<le> length buf"
  shows "buf[i := a, Suc i := b, Suc (Suc i) := c, Suc (Suc (Suc i)) := d] = write_at buf i [a, b, c, d]"
  using poke_bytes_write_at[of i "[a, b, c, d]" buf] assms by simp

lemma updates2_write_at:
  assumes "i + 2 \<le> length buf"
  shows "buf[i := a, Suc i := b] = write_at buf i [a, b]"
  using poke_bytes_write_at[of i "[a, b]" buf] assms by simp

section \<open>The writer contract\<close>

text \<open>
  The contract holds where the buffer really has the \<open>maxsize\<close> bytes the caller announces.
\<close>

locale field_writer =
  fixes wr :: writer and enc :: "byte list"
  assumes sticky: "ofs < 0 \<Longrightarrow> wr buf ofs maxsize = (buf, ofs)"
    and fits: "0 \<le> ofs \<Longrightarrow> maxsize \<le> int (length buf) \<Longrightarrow> ofs + int (length enc) < maxsize \<Longrightarrow>
      wr buf ofs maxsize = (write_at buf (nat ofs) enc, ofs + int (length enc))"
    and refuses: "0 \<le> ofs \<Longrightarrow> maxsize \<le> int (length buf) \<Longrightarrow> maxsize \<le> ofs + int (length enc) \<Longrightarrow>
      snd (wr buf ofs maxsize) = -1"
    and keeps_length: "length (fst (wr buf ofs maxsize)) = length buf"
begin

lemma success_iff:
  assumes "0 \<le> ofs" "maxsize \<le> int (length buf)"
  shows "0 \<le> snd (wr buf ofs maxsize) \<longleftrightarrow> ofs + int (length enc) < maxsize"
  using fits[OF assms] refuses[OF assms] assms(1) by fastforce

lemma content:
  assumes "0 \<le> ofs" "maxsize \<le> int (length buf)" "0 \<le> snd (wr buf ofs maxsize)"
  shows "fst (wr buf ofs maxsize) = write_at buf (nat ofs) enc"
    and "snd (wr buf ofs maxsize) = ofs + int (length enc)"
  using assms success_iff fits by auto

lemma result_bound:
  assumes "0 \<le> ofs" "maxsize \<le> int (length buf)" "0 \<le> snd (wr buf ofs maxsize)"
  shows "snd (wr buf ofs maxsize) < maxsize"
  using assms content(2) success_iff by simp

lemma negative_result:
  assumes "ofs < 0"
  shows "snd (wr buf ofs maxsize) = ofs"
  using sticky[OF assms] by simp

end

text \<open>Two writers in a row, the second at the index the first returned.\<close>

definition then_w :: "writer \<Rightarrow> writer \<Rightarrow> writer" where
  "then_w w1 w2 buf ofs maxsize = (case w1 buf ofs maxsize of (buf', ofs') \<Rightarrow> w2 buf' ofs' maxsize)"

locale writer_pair =
  first: field_writer w1 e1 + second: field_writer w2 e2
  for w1 :: writer and e1 :: "byte list" and w2 :: writer and e2 :: "byte list"
begin

lemma then_fits:
  assumes "0 \<le> ofs" "maxsize \<le> int (length buf)" "ofs + int (length (e1 @ e2)) < maxsize"
  shows "then_w w1 w2 buf ofs maxsize
    = (write_at buf (nat ofs) (e1 @ e2), ofs + int (length (e1 @ e2)))"
proof -
  have w1: "w1 buf ofs maxsize = (write_at buf (nat ofs) e1, ofs + int (length e1))"
    using assms by (intro first.fits) auto
  have len: "nat ofs + length e1 + length e2 \<le> length buf" using assms by simp
  have "w2 (write_at buf (nat ofs) e1) (ofs + int (length e1)) maxsize
      = (write_at (write_at buf (nat ofs) e1) (nat (ofs + int (length e1))) e2,
         ofs + int (length e1) + int (length e2))"
    using assms len by (intro second.fits) auto
  moreover have "nat (ofs + int (length e1)) = nat ofs + length e1" using assms by simp
  ultimately show ?thesis
    using w1 len by (simp add: then_w_def write_at_append)
qed

lemma then_refuses:
  assumes "0 \<le> ofs" "maxsize \<le> int (length buf)" "maxsize \<le> ofs + int (length (e1 @ e2))"
  shows "snd (then_w w1 w2 buf ofs maxsize) = -1"
proof (cases "ofs + int (length e1) < maxsize")
  case True
  then have w1: "w1 buf ofs maxsize = (write_at buf (nat ofs) e1, ofs + int (length e1))"
    using assms by (intro first.fits) auto
  have "length (write_at buf (nat ofs) e1) = length buf"
    using True assms by simp
  then show ?thesis
    using assms w1 second.refuses by (simp add: then_w_def)
next
  case False
  then have "snd (w1 buf ofs maxsize) = -1"
    using assms by (intro first.refuses) auto
  then show ?thesis
    using second.sticky by (auto simp: then_w_def split: prod.split)
qed

lemma then_length: "length (fst (then_w w1 w2 buf ofs maxsize)) = length buf"
  using first.keeps_length[of buf ofs maxsize] second.keeps_length
  by (auto simp: then_w_def split: prod.split)

lemma then_sticky: "ofs < 0 \<Longrightarrow> then_w w1 w2 buf ofs maxsize = (buf, ofs)"
  by (simp add: then_w_def first.sticky second.sticky)

end

lemma field_writer_then:
  assumes "field_writer w1 e1" "field_writer w2 e2"
  shows "field_writer (then_w w1 w2) (e1 @ e2)"
proof -
  have p: "writer_pair w1 e1 w2 e2"
    using assms by (rule writer_pair.intro)
  show ?thesis
    by (rule field_writer.intro)
       (erule writer_pair.then_sticky[OF p], erule (2) writer_pair.then_fits[OF p],
        erule (2) writer_pair.then_refuses[OF p], rule writer_pair.then_length[OF p])
qed

sublocale writer_pair \<subseteq> both: field_writer "then_w w1 w2" "e1 @ e2"
  by (rule field_writer_then) unfold_locales

text \<open>A chain of writers, threaded through the buffer and the index as the source does.\<close>

fun poke_seq :: "writer list \<Rightarrow> writer" where
  "poke_seq [] buf ofs maxsize = (buf, ofs)"
| "poke_seq (w # ws) buf ofs maxsize =
     (case w buf ofs maxsize of (buf', ofs') \<Rightarrow> poke_seq ws buf' ofs' maxsize)"

lemma poke_seq_then: "poke_seq (w # ws) = then_w w (poke_seq ws)"
  by (intro ext) (simp add: then_w_def)

lemma poke_seq_single: "poke_seq [w] = w"
  by (intro ext) (simp split: prod.split)

lemma field_writer_poke_seq:
  assumes "list_all2 field_writer ws es" "ws \<noteq> []"
  shows "field_writer (poke_seq ws) (concat es)"
  using assms
proof (induction ws es rule: list_all2_induct)
  case Nil
  then show ?case by simp
next
  case (Cons w ws e es)
  show ?case
  proof (cases ws)
    case Nil
    then show ?thesis using Cons by (simp add: poke_seq_single)
  next
    case (Cons w' ws')
    then show ?thesis
      using Cons.IH Cons.hyps(1) by (simp only: poke_seq_then concat.simps field_writer_then list.distinct not_False_eq_True)
  qed
qed

section \<open>The elementary writers keep the contract\<close>

text \<open>The writers as the chains use them: data first.\<close>

definition w08 :: "u8 \<Rightarrow> writer" where "w08 d buf ofs maxsize = poke08 buf ofs maxsize d"
definition w16 :: "u16 \<Rightarrow> writer" where "w16 d buf ofs maxsize = poke16 buf ofs maxsize d"
definition w32 :: "u32 \<Rightarrow> writer" where "w32 d buf ofs maxsize = poke32 buf ofs maxsize d"

definition w_array :: "nat \<Rightarrow> byte list \<Rightarrow> bool \<Rightarrow> writer" where
  "w_array elementsize bs prefixed buf ofs maxsize
     = poke_array buf ofs maxsize (length bs) elementsize bs prefixed"

interpretation w08: field_writer "w08 d" "[d]" for d
  by unfold_locales (auto simp: w08_def poke08_def write_at_single)

interpretation w16: field_writer "w16 d" "le16 d" for d
  by unfold_locales (auto simp: w16_def poke16_def Let_def le16_def updates2_write_at)

interpretation w32: field_writer "w32 d" "le32 d" for d
  by unfold_locales
     (auto simp: w32_def poke32_def Let_def le32_def updates4_write_at numeral_2_eq_2 numeral_3_eq_3)

definition array_enc :: "nat \<Rightarrow> byte list \<Rightarrow> bool \<Rightarrow> byte list" where
  "array_enc elementsize bs prefixed
     = (if prefixed then le32 (word_of_nat (length bs div elementsize)) else []) @ bs"

lemma length_poke_bytes [simp]: "length (poke_bytes p i bs) = length p"
  by (induction bs arbitrary: p i) auto

lemma poke_array_fits:
  assumes "0 \<le> ofs" "maxsize \<le> int (length buf)"
    "ofs + int (length (array_enc n bs prefixed)) < maxsize"
  shows "w_array n bs prefixed buf ofs maxsize
    = (write_at buf (nat ofs) (array_enc n bs prefixed), ofs + int (length (array_enc n bs prefixed)))"
proof (cases prefixed)
  case True
  have len: "nat ofs + 4 + length bs \<le> length buf"
    using assms True by (simp add: array_enc_def)
  have "poke_bytes (write_at buf (nat ofs) (le32 (word_of_nat (length bs div n)))) (nat ofs + 4) bs
      = write_at (write_at buf (nat ofs) (le32 (word_of_nat (length bs div n)))) (nat ofs + 4) bs"
    using len by (intro poke_bytes_write_at) simp
  also have "\<dots> = write_at buf (nat ofs) (le32 (word_of_nat (length bs div n)) @ bs)"
    using len write_at_append[of "nat ofs" "le32 (word_of_nat (length bs div n))" bs buf] by simp
  finally show ?thesis
    using True assms len
    by (auto simp: w_array_def poke_array_def array_enc_def Let_def le32_def updates4_write_at
        numeral_2_eq_2 numeral_3_eq_3)
next
  case False
  then show ?thesis
    using assms by (auto simp: w_array_def poke_array_def array_enc_def poke_bytes_write_at)
qed

interpretation w_array: field_writer "w_array n bs prefixed" "array_enc n bs prefixed"
  for n bs prefixed
  by unfold_locales
     (simp add: w_array_def poke_array_def, erule (2) poke_array_fits,
      auto simp: w_array_def poke_array_def array_enc_def Let_def)

lemmas elementary_writers =
  w08.field_writer_axioms w16.field_writer_axioms w32.field_writer_axioms w_array.field_writer_axioms

text \<open>A chain of writers and the encoding it puts down.\<close>

definition encodes :: "writer list \<Rightarrow> byte list \<Rightarrow> bool" where
  "encodes ws enc \<longleftrightarrow> (\<exists>es. list_all2 field_writer ws es \<and> concat es = enc)"

named_theorems encodes_intros \<open>encodings of the elementary chains\<close>

lemma encodes_Nil [encodes_intros]: "encodes [] []"
  by (auto simp: encodes_def)

lemma encodes_Cons: "field_writer w e \<Longrightarrow> encodes ws enc \<Longrightarrow> encodes (w # ws) (e @ enc)"
  by (force simp: encodes_def intro: exI[of _ "e # _"])

lemma encodes_append: "encodes ws enc \<Longrightarrow> encodes vs enc' \<Longrightarrow> encodes (ws @ vs) (enc @ enc')"
  unfolding encodes_def by (metis concat_append list_all2_appendI)

lemma encodes_concat:
  "(\<And>x. x \<in> set xs \<Longrightarrow> encodes (f x) (g x)) \<Longrightarrow> encodes (concat (map f xs)) (concat (map g xs))"
  by (induction xs) (auto intro: encodes_append encodes_Nil)

lemma encodes_map: "(\<And>x. field_writer (f x) (g x)) \<Longrightarrow> encodes (map f xs) (concat (map g xs))"
  by (induction xs) (auto intro: encodes_Cons encodes_Nil)

lemmas encodes_elementary [encodes_intros] =
  encodes_Cons[OF w16.field_writer_axioms] encodes_Cons[OF w32.field_writer_axioms]
  encodes_Cons[OF w_array.field_writer_axioms]

lemma encodes_w08 [encodes_intros]: "encodes ws enc \<Longrightarrow> encodes (w08 d # ws) (d # enc)"
  using encodes_Cons[OF w08.field_writer_axioms] by simp

lemma encodes_w_last [encodes_intros]:
  "encodes [w08 d] [d]" "encodes [w16 h] (le16 h)" "encodes [w32 v] (le32 v)"
  using encodes_Cons[OF w08.field_writer_axioms encodes_Nil, of d]
    encodes_Cons[OF w16.field_writer_axioms encodes_Nil, of h]
    encodes_Cons[OF w32.field_writer_axioms encodes_Nil, of v] by simp_all

lemma encodes_writer:
  assumes "encodes ws enc" "ws \<noteq> []"
  shows "field_writer (poke_seq ws) enc"
  using assms field_writer_poke_seq by (auto simp: encodes_def)

text \<open>A dataset: a chain started at index 0.\<close>

lemma dataset_fits:
  assumes "encodes ws enc" "ws \<noteq> []" "maxsize \<le> int (length buf)" "int (length enc) < maxsize"
  shows "poke_seq ws buf 0 maxsize = (write_at buf 0 enc, int (length enc))"
  using field_writer.fits[OF encodes_writer[OF assms(1,2)], of 0 maxsize buf] assms(3,4) by simp

lemma dataset_refuses:
  assumes "encodes ws enc" "ws \<noteq> []" "maxsize \<le> int (length buf)" "maxsize \<le> int (length enc)"
  shows "snd (poke_seq ws buf 0 maxsize) = -1"
  using field_writer.refuses[OF encodes_writer[OF assms(1,2)], of 0 maxsize buf] assms(3,4) by simp

lemma poke_seq_append:
  "poke_seq (ws @ vs) buf ofs maxsize = (case poke_seq ws buf ofs maxsize of (b, i) \<Rightarrow> poke_seq vs b i maxsize)"
  by (induction ws arbitrary: buf ofs) (auto split: prod.split)

section \<open>Property\<close>

text \<open>C33. A 32-bit store into a buffer that really has \<open>maxsize\<close> bytes either refuses with -1 and
  leaves the buffer alone, when the field would reach \<open>maxsize\<close>, or advances the index by four,
  is read back by \<open>peek\<close>, and changes no byte outside the four.\<close>

theorem poke32_peek:
  assumes "0 \<le> ofs" "maxsize \<le> int (length buf)"
  shows "if ofs + 4 < maxsize
    then (case poke32 buf ofs maxsize w of (buf', ofs') \<Rightarrow>
      ofs' = ofs + 4 \<and> length buf' = length buf \<and> peek buf' (nat ofs) 4 = w \<and>
      take (nat ofs) buf' = take (nat ofs) buf \<and> drop (nat ofs + 4) buf' = drop (nat ofs + 4) buf)
    else poke32 buf ofs maxsize w = (buf, -1)"
proof (cases "ofs + 4 < maxsize")
  case True
  then have "poke32 buf ofs maxsize w = (write_at buf (nat ofs) (le32 w), ofs + 4)"
    using assms w32.fits[of ofs maxsize buf w] by (simp add: w32_def)
  moreover have "nat ofs + 4 \<le> length buf" using True assms by simp
  ultimately show ?thesis
    using True by (simp add: peek_write_le32) (simp add: write_at_def)
qed (use assms in \<open>simp add: poke32_def\<close>)

theorem poke32_peek_witness:
  "case poke32 [0, 0, 0, 0, 0, 7] 1 6 0xA1B2C3D4 of (buf', ofs') \<Rightarrow>
      ofs' = 5 \<and> length buf' = length [0, 0, 0, 0, 0, 7 :: byte] \<and> peek buf' 1 4 = 0xA1B2C3D4 \<and> take 1 buf' = [0] \<and> drop 5 buf' = [7]"
  using poke32_peek[of 1 6 "[0, 0, 0, 0, 0, 7]" "0xA1B2C3D4"] by simp

lemma poke32_at:
  assumes "0 \<le> ofs" "ofs + 4 < maxsize" "maxsize \<le> int (length buf)"
  shows "poke32 buf ofs maxsize w = (write_at buf (nat ofs) (le32 w), ofs + 4)"
  using w32.fits[of ofs maxsize buf w] assms by (simp add: w32_def)

end
