(* ===== verification/Unicode.thy ===== *)
theory Unicode
  imports Codec
begin

text \<open>
  The character conversions of \<open>src/usbstring.c\<close> and the MTP string writer \<open>poke_string\<close> of
  \<open>src/mtp_helpers.c\<close>: UTF-8 encoding of one code unit, UTF-8 to UTF-16 and back, and the USB
  string descriptors. The main facts are that \<open>utf2unicode\<close> inverts \<open>utf8_encode\<close>, that
  \<open>poke_string\<close> is a field writer with a closed encoding, and that the reader recovers what the
  writer put.
\<close>

section \<open>One code unit to UTF-8\<close>

text \<open>The bytes stored before the NUL; the C result is their number, 0 for an error.\<close>

definition utf8_encode :: "u32 \<Rightarrow> byte list" where
  "utf8_encode unicode =
    (if unicode \<le> 0x7F then [ucast unicode]
     else if unicode \<le> 0x07FF then
       [ucast ((drop_bit 6 unicode AND 0x1F) OR 0xC0),
        ucast ((unicode AND 0x3F) OR 0x80)]
     else if unicode \<le> 0xFFFF then
       [ucast ((drop_bit 12 unicode AND 0x0F) OR 0xE0),
        ucast ((drop_bit 6 unicode AND 0x3F) OR 0x80),
        ucast ((unicode AND 0x3F) OR 0x80)]
     else if unicode \<le> 0x10FFFF then
       [ucast ((drop_bit 18 unicode AND 0x07) OR 0xF0),
        ucast ((drop_bit 12 unicode AND 0x3F) OR 0x80),
        ucast ((drop_bit 6 unicode AND 0x3F) OR 0x80),
        ucast ((unicode AND 0x3F) OR 0x80)]
     else [])"

section \<open>UTF-16 (little endian, in memory) to a C string\<close>

text \<open>
  \<open>None\<close> is a read past the end of the memory the caller owns. \<open>str\<close> is what has been stored
  so far (the C index \<open>i\<close> is its length); the second component is the C result.
\<close>

fun unicode2charstring_loop :: "byte list \<Rightarrow> int \<Rightarrow> cstr \<Rightarrow> (cstr \<times> int) option" where
  "unicode2charstring_loop (lo # hi # byte_access) maxstrsize str =
    (if lo \<noteq> 0 \<or> hi \<noteq> 0 then
       (let tmpstr = utf8_encode (push_bit 8 (ucast hi) OR ucast lo);
            chunk = (if length tmpstr = 0 then [0x3F] else tmpstr)
        in if int (length str + length chunk) < maxstrsize
           then unicode2charstring_loop byte_access maxstrsize (str @ chunk)
           else Some (str, 1))
     else Some (str, 0))"
| "unicode2charstring_loop _ maxstrsize str = None"

definition unicode2charstring :: "byte list \<Rightarrow> int \<Rightarrow> (cstr \<times> int) option" where
  "unicode2charstring unicodestr maxstrsize = unicode2charstring_loop unicodestr maxstrsize []"

section \<open>One UTF-8 sequence to a code unit\<close>

text \<open>A read of a C string: the bytes, then the terminating NUL.\<close>

definition at :: "cstr \<Rightarrow> nat \<Rightarrow> byte" where
  "at s i = (if i < length s then s ! i else 0)"

text \<open>Eight shifts clear the byte, so the loop of \<open>utf8_size\<close> runs at most eight times.\<close>

fun utf8_size_loop :: "nat \<Rightarrow> byte \<Rightarrow> nat" where
  "utf8_size_loop 0 c = 0"
| "utf8_size_loop (Suc k) c = (if c AND 0x80 \<noteq> 0 then Suc (utf8_size_loop k (push_bit 1 c)) else 0)"

definition utf8_size :: "byte \<Rightarrow> nat" where
  "utf8_size c = (let count = utf8_size_loop 8 c in if count = 0 then 1 else count)"

text \<open>The code unit and the number of bytes consumed (\<open>*ofs\<close>), 0 on an error.\<close>

definition utf2unicode :: "cstr \<Rightarrow> u16 \<times> nat" where
  "utf2unicode pInput =
    (let utfsize = utf8_size (at pInput 0) in
     if utfsize = 1 then (ucast (at pInput 0), 1)
     else if utfsize = 2 then
       (let b1 = at pInput 0; b2 = at pInput 1 in
        if b2 AND 0xC0 \<noteq> 0x80 then (0, 0)
        else (((push_bit 6 (ucast (b1 AND 0x1F)) OR ucast (b2 AND 0x3F)) AND 0xFF)
              OR push_bit 8 (drop_bit 2 (ucast (b1 AND 0x1F))), 2))
     else if utfsize = 3 then
       (let b1 = at pInput 0; b2 = at pInput 1; b3 = at pInput 2 in
        if b2 AND 0xC0 \<noteq> 0x80 \<or> b3 AND 0xC0 \<noteq> 0x80 then (0, 0)
        else (((push_bit 6 (ucast (b2 AND 0x3F)) OR ucast (b3 AND 0x3F)) AND 0x00FF)
              OR push_bit 8 (push_bit 4 (ucast (b1 AND 0x0F)) OR drop_bit 2 (ucast (b2 AND 0x3F))), 3))
     else (0, 0))"

section \<open>A C string to UTF-16 in a buffer\<close>

text \<open>
  The do-while loop of \<open>char2unicodestring\<close>; \<open>None\<close> in the result is the C result -1.
\<close>

function char2unicode_loop ::
  "buffer \<Rightarrow> nat \<Rightarrow> int \<Rightarrow> cstr \<Rightarrow> nat \<Rightarrow> nat \<Rightarrow> nat \<Rightarrow> buffer \<times> (nat \<times> nat) option" where
  "char2unicode_loop unicodestr index maxsize str unicodestrsize unicode_size len =
    (case utf2unicode str of (unicode, ofs) \<Rightarrow>
      (let str' = drop ofs str in
       if int index + 2 \<ge> maxsize then (unicodestr, None)
       else (let unicodestr' = unicodestr[index := ucast (unicode AND 0xFF),
                                          index + 1 := ucast (drop_bit 8 unicode AND 0xFF)];
                 unicode_size' = unicode_size + 2
             in if unicode \<noteq> 0 \<and> ofs \<noteq> 0 \<and> unicode_size' < unicodestrsize * 2 \<and> unicode_size' < 255 * 2
                then char2unicode_loop unicodestr' (index + 2) maxsize str' unicodestrsize
                       unicode_size' (len + 1)
                else (unicodestr', Some (unicode_size', len + 1)))))"
  by pat_completeness auto
termination
  by (relation "measure (\<lambda>(_, _, _, _, _, unicode_size, _). 510 - unicode_size)") auto

declare char2unicode_loop.simps [simp del]

definition char2unicodestring ::
  "buffer \<Rightarrow> nat \<Rightarrow> int \<Rightarrow> cstr \<Rightarrow> nat \<Rightarrow> buffer \<times> int" where
  "char2unicodestring unicodestr index maxsize str unicodestrsize =
    (case char2unicode_loop unicodestr index maxsize str unicodestrsize 0 0 of
       (buf, None) \<Rightarrow> (buf, -1)
     | (buf, Some (unicode_size, len)) \<Rightarrow>
         (if unicode_size \<ge> 255 * 2 then
            (if int (index + (unicodestrsize * 2 - 2)) \<ge> maxsize then (buf, -1)
             else (buf[index + (255 * 2 - 2) := 0, index + (255 * 2 - 1) := 0], 255))
          else (buf, int len)))"

section \<open>The MTP string writer of mtp_helpers.c\<close>

definition poke_string :: "buffer \<Rightarrow> int \<Rightarrow> int \<Rightarrow> cstr \<Rightarrow> buffer \<times> int" where
  "poke_string buffer index maxsize str =
    (if index < 0 then (buffer, index)
     else if index + 1 \<ge> maxsize then (buffer, -1)
     else (let sizeposition = nat index;
               ptr = buffer[sizeposition := 0];
               index' = sizeposition + 1
           in if str = [] then (ptr, int index')
              else (case char2unicodestring ptr index' maxsize str 255 of (ptr', len) \<Rightarrow>
                (if len < 0 then (ptr', -1)
                 else (ptr'[sizeposition := word_of_int len], int index' + len * 2)))))"

section \<open>USB string descriptors\<close>

text \<open>
  \<open>utf8_to_utf16le\<close>, recursion on the remaining \<open>len\<close>; \<open>None\<close> is the C result -1. The text
  comment of the source says that it insists on correct encodings.
\<close>

fun utf8_to_utf16le :: "cstr \<Rightarrow> nat \<Rightarrow> u16 list option" where
  "utf8_to_utf16le s 0 = Some []"
| "utf8_to_utf16le s (Suc len) =
    (let c = at s 0; s1 = drop 1 s in
     if c = 0 then Some []
     else if c AND 0x80 \<noteq> 0 then
       (if c AND 0xE0 = 0xC0 then
          (let c2 = at s1 0; uchar = push_bit 6 (ucast (c AND 0x1F)) in
           if c2 AND 0xC0 \<noteq> 0xC0 then None
           else map_option ((#) (uchar OR ucast (c2 AND 0x3F))) (utf8_to_utf16le (drop 1 s1) len))
        else if c AND 0xF0 = 0xE0 then
          (let c2 = at s1 0; c3 = at s1 1;
               uchar = push_bit 12 (ucast (c AND 0x0F)) OR push_bit 6 (ucast (c2 AND 0x3F))
                         OR ucast (c3 AND 0x3F) in
           if c2 AND 0xC0 \<noteq> 0xC0 then None
           else if c3 AND 0xC0 \<noteq> 0xC0 then None
           else if 0xD800 \<le> uchar \<and> uchar \<le> 0xDFFF then None
           else map_option ((#) uchar) (utf8_to_utf16le (drop 2 s1) len))
        else None)
     else map_option ((#) (ucast c)) (utf8_to_utf16le s1 len))"

record usb_gadget_strings =
  language :: u16
  strings :: "(nat \<times> cstr option) list"

text \<open>The descriptor stored in \<open>buf\<close>; \<open>None\<close> is \<open>-EINVAL\<close>. \<open>USB_DT_STRING\<close> is 3.\<close>

definition usb_gadget_get_string :: "usb_gadget_strings \<Rightarrow> nat \<Rightarrow> byte list option" where
  "usb_gadget_get_string table id' =
    (if id' = 0 then Some ([4, 3, ucast (language table), ucast (drop_bit 8 (language table))])
     else (case find (\<lambda>s. fst s = id') (takeWhile (\<lambda>s. snd s \<noteq> None) (strings table)) of
        Some (_, Some str) \<Rightarrow>
          (let len = (if length str > 126 then 126 else length str) in
           (case utf8_to_utf16le str len of
              None \<Rightarrow> None
            | Some us \<Rightarrow> Some ([word_of_nat ((length us + 1) * 2), 3] @ concat (map le16 us))))
      | _ \<Rightarrow> None))"

section \<open>Decoding inverts encoding\<close>


lemma lt_exp_bits: "unat w < 2 ^ n \<longleftrightarrow> (\<forall>m\<ge>n. \<not> bit w m)" for w :: "'a::len word"
proof -
  have "unat w < 2 ^ n \<longleftrightarrow> take_bit n (unat w) = unat w"
    by (simp add: take_bit_nat_eq_self_iff)
  also have "\<dots> \<longleftrightarrow> take_bit n w = w"
    by (metis unsigned_take_bit_eq word_unat_eq_iff)
  also have "\<dots> \<longleftrightarrow> (\<forall>m\<ge>n. \<not> bit w m)"
    by (metis bit_take_bit_iff bit_eqI not_le)
  finally show ?thesis .
qed

lemma le_7F: "u \<le> 0x7F \<longleftrightarrow> (\<forall>m\<ge>7. \<not> bit u m)" for u :: u32
  using lt_exp_bits[of u 7] by (simp add: word_le_nat_alt less_Suc_eq_le[symmetric])
lemma le_7FF: "u \<le> 0x7FF \<longleftrightarrow> (\<forall>m\<ge>11. \<not> bit u m)" for u :: u32
  using lt_exp_bits[of u 11] by (simp add: word_le_nat_alt less_Suc_eq_le[symmetric])
lemma le_FFFF: "u \<le> 0xFFFF \<longleftrightarrow> (\<forall>m\<ge>16. \<not> bit u m)" for u :: u32
  using lt_exp_bits[of u 16] by (simp add: word_le_nat_alt less_Suc_eq_le[symmetric])
lemma le_10FFFF: "u \<le> 0x10FFFF \<Longrightarrow> (\<forall>m\<ge>21. \<not> bit u m)" for u :: u32
  using lt_exp_bits[of u 21] by (simp add: word_le_nat_alt)

lemma test_bit7: "c AND 0x80 \<noteq> 0 \<longleftrightarrow> bit c 7" for c :: byte
  using and_exp_eq_0_iff_not_bit[of c 7] by simp

lemma utf8_size_bits:
  "utf8_size c = (if \<not> bit c 7 \<or> \<not> bit c 6 then 1 else if \<not> bit c 5 then 2
     else if \<not> bit c 4 then 3 else utf8_size c)"
  by (auto simp: utf8_size_def Let_def test_bit7 bit_simps eval_nat_numeral
      simp del: bit_and_iff push_bit_Suc)

lemma size_lead1: "\<not> bit c 7 \<Longrightarrow> utf8_size c = 1" by (subst utf8_size_bits) simp
lemma size_lead2: "bit c 7 \<Longrightarrow> bit c 6 \<Longrightarrow> \<not> bit c 5 \<Longrightarrow> utf8_size c = 2" by (subst utf8_size_bits) simp
lemma size_lead3: "bit c 7 \<Longrightarrow> bit c 6 \<Longrightarrow> bit c 5 \<Longrightarrow> \<not> bit c 4 \<Longrightarrow> utf8_size c = 3" by (subst utf8_size_bits) simp

lemma bits_C0: "c AND 0xC0 = 0x80 \<longleftrightarrow> bit c 7 \<and> \<not> bit c 6" for c :: byte
proof -
  have "c AND 0xC0 = 0x80 \<longleftrightarrow> (\<forall>n<8. bit (c AND 0xC0) n = bit (0x80::byte) n)"
    by (auto intro: bit_word_eqI)
  also have "\<dots> \<longleftrightarrow> bit c 7 \<and> \<not> bit c 6"
    by (auto simp: bit_simps numeral_eq_Suc All_less_Suc)
  finally show ?thesis .
qed

lemma at_simps [simp]:
  "at (x # s) 0 = x" "at (x # y # s) 1 = y" "at (x # y # s) (Suc 0) = y" "at (x # y # z # s) 2 = z" "at [] i = 0"
  by (simp_all add: at_def)

lemma mask_lits:
  "(0x3F :: 'a::len word) = mask 6" "(0x1F :: 'a word) = mask 5" "(0x0F :: 'a word) = mask 4"
  "(0xFF :: 'a word) = mask 8" "(0x07 :: 'a word) = mask 3"
  "(0xC0 :: 'a word) = push_bit 6 (mask 2)" "(0xE0 :: 'a word) = push_bit 5 (mask 3)"
  "(0xF0 :: 'a word) = push_bit 4 (mask 4)"
  by (simp_all add: mask_eq_exp_minus_1)

lemma bit_0x80: "bit (0x80 :: int) n \<longleftrightarrow> n = 7"
proof -
  have "(0x80 :: int) = push_bit 7 1" by simp
  then show ?thesis by (auto simp only: bit_push_bit_iff bit_1_iff possible_bit_int)
qed

lemma utf2unicode_encode1:
  assumes "ucast u \<le> (0x7F :: u32)"
  shows "utf2unicode (utf8_encode (ucast (u :: u16)) @ s) = (u, length (utf8_encode (ucast u)))"
proof -
  have nb: "\<not> bit u m" if "m \<ge> 7" for m
    using assms that by (force simp: le_7F bit_simps dest: bit_imp_le_length)
  have "utf8_size (ucast u) = 1" by (rule size_lead1) (simp add: bit_simps nb)
  moreover have "ucast (ucast u :: byte) = u"
  proof (rule bit_word_eqI)
    fix n assume "n < LENGTH(16)"
    then show "bit (ucast (ucast u :: byte) :: u16) n \<longleftrightarrow> bit u n"
      using nb[of n] by (cases "n < 8") (auto simp: bit_simps)
  qed
  moreover have "ucast (ucast u :: u32) = (ucast u :: byte)" by (rule bit_word_eqI) (auto simp: bit_simps)
  ultimately show ?thesis
    using assms by (simp add: utf8_encode_def utf2unicode_def)
qed

lemma join_2byte:
  fixes u :: u16
  assumes nb: "\<And>m. m \<ge> 11 \<Longrightarrow> \<not> bit u m"
  defines "b1 \<equiv> ucast ((drop_bit 6 (ucast u :: u32) AND 0x1F) OR 0xC0) :: byte"
    and "b2 \<equiv> ucast (((ucast u :: u32) AND 0x3F) OR 0x80) :: byte"
  shows "((push_bit 6 (ucast (b1 AND 0x1F)) OR ucast (b2 AND 0x3F)) AND 0xFF)
      OR push_bit 8 (drop_bit 2 (ucast (b1 AND 0x1F))) = u" (is "?l = u")
proof (rule bit_word_eqI)
  fix n assume "n < LENGTH(16)"
  then consider "n < 6" | "6 \<le> n" "n < 8" | "n = 8" | "n = 9" | "n = 10" | "11 \<le> n" "n < 16" by fastforce
  then show "bit ?l n \<longleftrightarrow> bit u n"
    using nb[of n] unfolding b1_def b2_def mask_lits by cases (auto simp: bit_simps bit_0x80)
qed

lemma join_3byte:
  fixes u :: u16
  defines "w \<equiv> ucast u :: u32"
  defines "b1 \<equiv> ucast ((drop_bit 12 w AND 0x0F) OR 0xE0) :: byte"
    and "b2 \<equiv> ucast ((drop_bit 6 w AND 0x3F) OR 0x80) :: byte"
    and "b3 \<equiv> ucast ((w AND 0x3F) OR 0x80) :: byte"
  shows "((push_bit 6 (ucast (b2 AND 0x3F)) OR ucast (b3 AND 0x3F)) AND 0x00FF)
      OR push_bit 8 (push_bit 4 (ucast (b1 AND 0x0F)) OR drop_bit 2 (ucast (b2 AND 0x3F))) = u" (is "?l = u")
proof (rule bit_word_eqI)
  fix n assume "n < LENGTH(16)"
  then consider "n < 6" | "6 \<le> n" "n < 8" | "n = 8" | "n = 9" | "n = 10" | "n = 11" | "12 \<le> n" "n < 16" by fastforce
  then show "bit ?l n \<longleftrightarrow> bit u n"
    unfolding b1_def b2_def b3_def w_def mask_lits by cases (auto simp: bit_simps bit_0x80)
qed

lemma utf2unicode_encode2:
  assumes "\<not> ucast u \<le> (0x7F :: u32)" "ucast u \<le> (0x7FF :: u32)"
  shows "utf2unicode (utf8_encode (ucast (u :: u16)) @ s) = (u, length (utf8_encode (ucast u)))"
proof -
  have nb: "\<not> bit u m" if "m \<ge> 11" for m
    using assms that by (force simp: le_7FF bit_simps dest: bit_imp_le_length)
  let ?b1 = "ucast ((drop_bit 6 (ucast u :: u32) AND 0x1F) OR 0xC0) :: byte"
  let ?b2 = "ucast (((ucast u :: u32) AND 0x3F) OR 0x80) :: byte"
  have sz: "utf8_size ?b1 = 2" by (rule size_lead2) (simp_all add: bit_simps)
  have c2: "?b2 AND 0xC0 = 0x80" by (subst bits_C0) (simp add: bit_simps)
  have e: "utf8_encode (ucast u) = [?b1, ?b2]" using assms by (simp add: utf8_encode_def)
  show ?thesis
    unfolding e utf2unicode_def Let_def append.simps at_simps sz
    using join_2byte[OF nb] c2 by simp
qed

lemma utf2unicode_encode3:
  assumes "\<not> ucast u \<le> (0x7FF :: u32)"
  shows "utf2unicode (utf8_encode (ucast (u :: u16)) @ s) = (u, length (utf8_encode (ucast u)))"
proof -
  have le: "ucast u \<le> (0xFFFF :: u32)" by (auto simp: le_FFFF bit_simps dest: bit_imp_le_length)
  have n7: "\<not> ucast u \<le> (0x7F :: u32)" using assms order.trans[of "ucast u" "0x7F" "0x7FF :: u32"] by auto
  let ?w = "ucast u :: u32"
  let ?b1 = "ucast ((drop_bit 12 ?w AND 0x0F) OR 0xE0) :: byte"
  let ?b2 = "ucast ((drop_bit 6 ?w AND 0x3F) OR 0x80) :: byte"
  let ?b3 = "ucast ((?w AND 0x3F) OR 0x80) :: byte"
  have sz: "utf8_size ?b1 = 3" by (rule size_lead3) (simp_all add: bit_simps)
  have c2: "?b2 AND 0xC0 = 0x80" by (subst bits_C0) (simp add: bit_simps)
  have c3: "?b3 AND 0xC0 = 0x80" by (subst bits_C0) (simp add: bit_simps)
  have e: "utf8_encode (ucast u) = [?b1, ?b2, ?b3]" using assms le n7 by (simp add: utf8_encode_def)
  show ?thesis
    unfolding e utf2unicode_def Let_def append.simps at_simps sz
    using join_3byte[of u] c2 c3 by simp
qed

lemma utf2unicode_encode:
  "utf2unicode (utf8_encode (ucast (u :: u16)) @ s) = (u, length (utf8_encode (ucast u)))"
  using utf2unicode_encode1 utf2unicode_encode2 utf2unicode_encode3 by blast


section \<open>What char2unicodestring writes\<close>

text \<open>The code units the loop stores: at most \<open>n\<close>, the last one 0, invalid, or the limit.\<close>

fun units :: "nat \<Rightarrow> cstr \<Rightarrow> u16 list" where
  "units 0 s = []"
| "units (Suc n) s = (case utf2unicode s of (u, ofs) \<Rightarrow>
     if u \<noteq> 0 \<and> ofs \<noteq> 0 then u # units n (drop ofs s) else [u])"

definition string_units :: "cstr \<Rightarrow> u16 list" where
  "string_units s = (let us = units 255 s in if length us = 255 then butlast us @ [0] else us)"

lemma units_Suc_not_Nil [simp]: "units (Suc n) s \<noteq> []"
  by (simp split: prod.split)

lemma length_units: "length (units n s) \<le> n"
  by (induction n arbitrary: s) (auto split: prod.split)

lemma length_concat_le16 [simp]: "length (concat (map le16 us)) = 2 * length us"
  by (induction us) auto

lemma char2unicode_loop_fits:
  assumes "maxsize \<le> int (length buf)" "n + c = 255" "0 < n"
    "int (index + 2 * length (units n s)) < maxsize"
  shows "char2unicode_loop buf index maxsize s 255 (2 * c) c
    = (write_at buf index (concat (map le16 (units n s))),
       Some (2 * (c + length (units n s)), c + length (units n s)))"
  using assms
proof (induction n arbitrary: c buf index s)
  case 0
  then show ?case by simp
next
  case (Suc n)
  obtain u ofs where uo: "utf2unicode s = (u, ofs)" by (cases "utf2unicode s")
  have room: "int index + 2 < maxsize"
    using Suc.prems(4) uo by (auto split: if_splits)
  let ?buf = "buf[index := ucast (u AND 0xFF), Suc index := ucast (drop_bit 8 u AND 0xFF)]"
  have buf: "?buf = write_at buf index (le16 u)"
    using room Suc.prems(1) updates2_write_at[of index buf] by (simp add: le16_def)
  show ?case
  proof (cases "u \<noteq> 0 \<and> ofs \<noteq> 0 \<and> 0 < n")
    case True
    have "char2unicode_loop ?buf (index + 2) maxsize (drop ofs s) 255 (2 * Suc c) (Suc c)
      = (write_at ?buf (index + 2) (concat (map le16 (units n (drop ofs s)))),
         Some (2 * (Suc c + length (units n (drop ofs s))), Suc c + length (units n (drop ofs s))))"
      using True Suc.prems uo by (intro Suc.IH) auto
    moreover have "write_at ?buf (index + 2) (concat (map le16 (units n (drop ofs s))))
      = write_at buf index (le16 u @ concat (map le16 (units n (drop ofs s))))"
      unfolding buf
      using True Suc.prems uo write_at_append[of index "le16 u" "concat (map le16 (units n (drop ofs s)))" buf]
      by simp
    ultimately show ?thesis
      using True Suc.prems room uo
      by (subst char2unicode_loop.simps) (simp add: Let_def)
  next
    case False
    then show ?thesis
      using Suc.prems room uo buf
      by (subst char2unicode_loop.simps) (auto simp: Let_def)
  qed
qed

lemma char2unicode_loop_refuses:
  assumes "n + c = 255" "0 < n" "maxsize \<le> int (index + 2 * length (units n s))"
  shows "snd (char2unicode_loop buf index maxsize s 255 (2 * c) c) = None"
  using assms
proof (induction n arbitrary: c buf index s)
  case 0
  then show ?case by simp
next
  case (Suc n)
  obtain u ofs where uo: "utf2unicode s = (u, ofs)" by (cases "utf2unicode s")
  show ?case
  proof (cases "int index + 2 \<ge> maxsize")
    case True
    then show ?thesis
      by (subst char2unicode_loop.simps) (simp add: uo Let_def)
  next
    case False
    then have go: "u \<noteq> 0 \<and> ofs \<noteq> 0 \<and> 0 < n"
      using Suc.prems(3) uo by (cases n) (auto split: if_splits)
    have "snd (char2unicode_loop (buf[index := ucast (u AND 0xFF), Suc index := ucast (drop_bit 8 u AND 0xFF)])
        (index + 2) maxsize (drop ofs s) 255 (2 * Suc c) (Suc c)) = None"
      using go Suc.prems uo by (intro Suc.IH) auto
    then show ?thesis
      using False go Suc.prems uo by (subst char2unicode_loop.simps) (simp add: Let_def)
  qed
qed

lemma length_char2unicode_loop:
  "length (fst (char2unicode_loop buf index maxsize s us k c)) = length buf"
proof (induction buf index maxsize s us k c rule: char2unicode_loop.induct)
  case (1 buf index maxsize s us k c)
  then show ?case
    by (subst char2unicode_loop.simps) (auto simp: Let_def split: prod.split)
qed

lemma length_string_units [simp]: "length (string_units s) = length (units 255 s)"
  by (simp add: string_units_def Let_def)

lemma string_units_pos: "0 < length (units 255 s)"
  using units_Suc_not_Nil[of 254 s] by (simp add: numeral_eq_Suc)

lemma char2unicodestring_fits:
  assumes "maxsize \<le> int (length buf)" "int (index + 2 * length (string_units s)) < maxsize"
  shows "char2unicodestring buf index maxsize s 255
    = (write_at buf index (concat (map le16 (string_units s))), int (length (string_units s)))"
proof -
  let ?us = "units 255 s"
  have loop: "char2unicode_loop buf index maxsize s 255 0 0
      = (write_at buf index (concat (map le16 ?us)), Some (2 * length ?us, length ?us))"
    using char2unicode_loop_fits[of maxsize buf 255 0 index s] assms by simp
  show ?thesis
  proof (cases "length ?us = 255")
    case True
    then obtain vs v where us: "?us = vs @ [v]" and lv: "length vs = 254"
      by (cases ?us rule: rev_cases) auto
    have split: "concat (map le16 ?us) = concat (map le16 vs) @ le16 v" by (simp add: us)
    let ?b = "write_at buf index (concat (map le16 ?us))"
    have len: "index + 510 \<le> length buf" using assms True by simp
    have "?b[index + 508 := 0, index + 509 := 0] = write_at ?b (index + 508) (le16 0)"
      using updates2_write_at[of "index + 508" ?b 0 0] len True by (simp add: le16_def add.commute)
    also have "\<dots> = write_at buf index (concat (map le16 vs) @ le16 0)"
      using len lv by (simp add: split write_at_def)
    finally show ?thesis
      using loop True us lv assms
      by (simp add: char2unicodestring_def string_units_def Let_def add.commute)
  next
    case False
    then have "length ?us < 255" using length_units[of 255 s] by simp
    then show ?thesis
      using loop by (simp add: char2unicodestring_def string_units_def Let_def)
  qed
qed

lemma char2unicodestring_refuses:
  assumes "maxsize \<le> int (index + 2 * length (string_units s))"
  shows "snd (char2unicodestring buf index maxsize s 255) = -1"
  using char2unicode_loop_refuses[of 255 0 maxsize index s buf] assms
  by (auto simp: char2unicodestring_def split: prod.split option.split)

lemma length_char2unicodestring:
  "length (fst (char2unicodestring buf index maxsize s us)) = length buf"
  using length_char2unicode_loop[of buf index maxsize s us 0 0]
  by (auto simp: char2unicodestring_def split: prod.split option.split)

section \<open>The string writer keeps the contract\<close>

definition string_enc :: "cstr \<Rightarrow> byte list" where
  "string_enc s = (if s = [] then [0]
     else word_of_nat (length (string_units s)) # concat (map le16 (string_units s)))"

lemma length_string_enc_le: "length (string_enc s) \<le> 511"
  using length_units[of 255 s] by (simp add: string_enc_def)

definition w_string :: "cstr \<Rightarrow> writer" where
  "w_string s buf ofs maxsize = poke_string buf ofs maxsize s"

lemma string_enc_not_Nil [simp]: "string_enc s \<noteq> []"
  by (simp add: string_enc_def)

lemma update_write_at_head:
  assumes "i + 1 + length bs \<le> length buf"
  shows "(write_at (buf[i := a]) (Suc i) bs)[i := b] = write_at buf i (b # bs)"
proof -
  have "write_at (buf[i := a]) (Suc i) bs = write_at buf i (a # bs)"
    using assms by (rule write_at_Cons)
  then show ?thesis
    using assms by (simp add: write_at_def list_update_append)
qed

lemma poke_string_fits:
  assumes "0 \<le> ofs" "maxsize \<le> int (length buf)" "ofs + int (length (string_enc s)) < maxsize"
  shows "w_string s buf ofs maxsize = (write_at buf (nat ofs) (string_enc s), ofs + int (length (string_enc s)))"
proof (cases "s = []")
  case True
  then show ?thesis
    using assms by (simp add: w_string_def poke_string_def string_enc_def write_at_single)
next
  case False
  let ?us = "string_units s"
  have c2u: "char2unicodestring (buf[nat ofs := 0]) (Suc (nat ofs)) maxsize s 255
      = (write_at (buf[nat ofs := 0]) (Suc (nat ofs)) (concat (map le16 ?us)), int (length ?us))"
    using assms False by (intro char2unicodestring_fits) (auto simp: string_enc_def)
  have len: "nat ofs + 1 + length (concat (map le16 ?us)) \<le> length buf"
    using assms False by (simp add: string_enc_def)
  show ?thesis
    using assms False c2u update_write_at_head[OF len]
    by (simp add: w_string_def poke_string_def string_enc_def Let_def)
qed

lemma poke_string_refuses:
  assumes "0 \<le> ofs" "maxsize \<le> ofs + int (length (string_enc s))"
  shows "snd (w_string s buf ofs maxsize) = -1"
proof (cases "s = [] \<or> ofs + 1 \<ge> maxsize")
  case True
  then show ?thesis
    using assms by (auto simp: w_string_def poke_string_def string_enc_def)
next
  case False
  have "snd (char2unicodestring (buf[nat ofs := 0]) (Suc (nat ofs)) maxsize s 255) = -1"
    using assms False by (intro char2unicodestring_refuses) (simp add: string_enc_def)
  then show ?thesis
    using assms False by (auto simp: w_string_def poke_string_def Let_def split: prod.split)
qed

interpretation w_string: field_writer "w_string s" "string_enc s" for s
proof unfold_locales
  show "ofs < 0 \<Longrightarrow> w_string s buf ofs maxsize = (buf, ofs)" for ofs buf maxsize
    by (simp add: w_string_def poke_string_def)
  show "length (fst (w_string s buf ofs maxsize)) = length buf" for ofs buf maxsize
    using length_char2unicodestring[of "buf[nat ofs := 0]" "Suc (nat ofs)" maxsize s 255]
    by (auto simp: w_string_def poke_string_def Let_def split: prod.split)
qed (erule (2) poke_string_fits, erule (1) poke_string_refuses[rotated 0])

lemma encodes_w_string [encodes_intros]:
  "encodes ws enc \<Longrightarrow> encodes (w_string s # ws) (string_enc s @ enc)" "encodes [w_string s] (string_enc s)"
  using encodes_Cons[OF w_string.field_writer_axioms, of ws enc s]
    encodes_Cons[OF w_string.field_writer_axioms encodes_Nil, of s] by simp_all

section \<open>Reading back\<close>

lemma encode_not_Nil [simp]: "utf8_encode (ucast (u :: u16)) \<noteq> []"
  using le_FFFF[of "ucast u"] by (auto simp: utf8_encode_def bit_simps dest: bit_imp_le_length)

lemma unicode_reader:
  assumes "\<forall>u\<in>set us. u \<noteq> 0"
    "int (length str + length (concat (map (\<lambda>u. utf8_encode (ucast u)) us))) < maxsize"
  shows "unicode2charstring_loop (concat (map le16 us) @ 0 # 0 # rest) maxsize str
    = Some (str @ concat (map (\<lambda>u. utf8_encode (ucast u)) us), 0)"
  using assms
proof (induction us arbitrary: str)
  case Nil
  then show ?case by simp
next
  case (Cons u us)
  have j: "push_bit 8 (ucast (ucast (drop_bit 8 u) :: byte)) OR ucast (ucast u :: byte) = (ucast u :: u32)"
    using join16_le16[of u] by (simp add: join16_def or.commute)
  have nz: "(ucast u :: byte) \<noteq> 0 \<or> (ucast (drop_bit 8 u) :: byte) \<noteq> 0"
  proof (rule ccontr)
    assume "\<not> ?thesis"
    then have z: "(ucast u :: u32) = 0" using j by simp
    have "u = 0"
    proof (rule bit_word_eqI)
      fix n assume "n < LENGTH(16)"
      then show "bit u n \<longleftrightarrow> bit (0 :: u16) n"
        using arg_cong[OF z, of "\<lambda>w. bit w n"] by (simp add: bit_simps)
    qed
    then show False using Cons.prems by simp
  qed
  have ne: "utf8_encode (ucast u) \<noteq> []"
    using le_FFFF[of "ucast u"] by (auto simp: utf8_encode_def bit_simps dest: bit_imp_le_length)
  show ?case
    using Cons.IH[of "str @ utf8_encode (ucast u)"] Cons.prems nz ne j
    by (simp add: le16_def Let_def)
qed

lemma units_encode:
  assumes "\<forall>u\<in>set us. u \<noteq> 0" "length us < n"
  shows "units n (concat (map (\<lambda>u. utf8_encode (ucast u)) us)) = us @ [0]"
  using assms
proof (induction us arbitrary: n)
  case Nil
  then obtain m where "n = Suc m" by (cases n) auto
  then show ?case
    by (simp add: utf2unicode_def utf8_size_def Let_def eval_nat_numeral)
next
  case (Cons u us)
  then obtain m where n: "n = Suc m" by (cases n) auto
  have ne: "utf8_encode (ucast u) \<noteq> []"
    using le_FFFF[of "ucast u"] by (auto simp: utf8_encode_def bit_simps dest: bit_imp_le_length)
  show ?case
    using Cons n ne by (simp add: utf2unicode_encode)
qed

lemma unicode_string_roundtrip:
  fixes us :: "u16 list"
  assumes "\<forall>u\<in>set us. u \<noteq> 0" "length us < 254"
    and "s = concat (map (\<lambda>u. utf8_encode (ucast u)) us)" "int (length s) < maxstr"
  shows "unicode2charstring (concat (map le16 (string_units s)) @ rest) maxstr = Some (s, 0)"
proof -
  have "string_units s = us @ [0]"
    using units_encode[of us 255] assms by (simp add: string_units_def)
  then show ?thesis
    using unicode_reader[of us "[]" maxstr rest] assms
    by (simp add: unicode2charstring_def le16_def)
qed

lemma at_Cons_0: "at (c # s) 0 = c" by (simp add: at_def)

lemma utf8_to_utf16le_ascii:
  assumes "\<forall>c\<in>set s. c \<noteq> 0 \<and> \<not> bit c 7"
  shows "utf8_to_utf16le s n = Some (map ucast (take n s))"
  using assms
proof (induction s arbitrary: n)
  case Nil
  then show ?case by (cases n) (simp_all add: at_def)
next
  case (Cons c s)
  then show ?case by (cases n) (simp_all add: test_bit7)
qed

lemma bits_C0C0: "c AND 0xC0 = 0xC0 \<longleftrightarrow> bit c 7 \<and> bit c 6" for c :: byte
proof -
  have "c AND 0xC0 = 0xC0 \<longleftrightarrow> (\<forall>n<8. bit (c AND 0xC0) n = bit (0xC0::byte) n)"
    by (auto intro: bit_word_eqI)
  also have "\<dots> \<longleftrightarrow> bit c 7 \<and> bit c 6"
    by (auto simp: bit_simps numeral_eq_Suc All_less_Suc)
  finally show ?thesis .
qed

lemma cont_byte_not_C0: "ucast ((w AND 0x3F) OR 0x80 :: u32) AND 0xC0 \<noteq> (0xC0 :: byte)"
  by (subst bits_C0C0) (simp add: bit_simps)

lemma utf8_to_utf16le_multibyte:
  fixes u :: u16
  assumes "\<not> ucast u \<le> (0x7F :: u32)"
  shows "utf8_to_utf16le (utf8_encode (ucast u) @ s) (Suc n) = None"
proof -
  have le: "ucast u \<le> (0xFFFF :: u32)" by (auto simp: le_FFFF bit_simps dest: bit_imp_le_length)
  let ?w = "ucast u :: u32"
  have l2: "bit (ucast ((drop_bit 6 ?w AND 0x1F) OR 0xC0) :: byte) 7"
    "bit (ucast ((drop_bit 12 ?w AND 0x0F) OR 0xE0) :: byte) 7"
    by (simp_all add: bit_simps)
  have nz: "c \<noteq> 0" if "bit c 7" for c :: byte using that by auto
  show ?thesis
    using assms le l2 l2[THEN nz] cont_byte_not_C0
    by (simp add: utf8_encode_def test_bit7 Let_def)
qed

section \<open>Properties\<close>

text \<open>C29. A string of non-zero code units shorter than 254, in the UTF-8 form the responder itself
  produces, survives the trip through an MTP message: \<open>poke_string\<close> stores its length with the
  terminator and its UTF-16 units, and \<open>unicode2charstring\<close> on the stored units gives the string
  back with result 0, whatever follows it in the buffer.\<close>

theorem string_roundtrip:
  fixes us :: "u16 list"
  assumes "\<forall>u\<in>set us. u \<noteq> 0" "us \<noteq> []" "length us < 254"
    "s = concat (map (\<lambda>u. utf8_encode (ucast u)) us)" "int (length s) < maxstr"
    "0 \<le> ofs" "maxsize \<le> int (length buf)" "ofs + 3 + 2 * int (length us) < maxsize"
  shows "case poke_string buf ofs maxsize s of (buf', ofs') \<Rightarrow>
    ofs' = ofs + 3 + 2 * int (length us) \<and> buf' ! nat ofs = word_of_nat (length us + 1) \<and>
    unicode2charstring (drop (nat ofs + 1) buf') maxstr = Some (s, 0)"
proof -
  have su: "string_units s = us @ [0]"
    using units_encode[of us 255] assms by (simp add: string_units_def)
  have ne: "s \<noteq> []"
    using assms(2,4) encode_not_Nil by (cases us) auto
  have enc: "string_enc s = word_of_nat (length us + 1) # concat (map le16 (string_units s))"
    using ne su by (simp add: string_enc_def)
  have len: "length (string_enc s) = 3 + 2 * length us"
    using enc su by simp
  have poke: "poke_string buf ofs maxsize s = (write_at buf (nat ofs) (string_enc s), ofs + 3 + 2 * int (length us))"
    using w_string.fits[of ofs maxsize buf s] assms len by (simp add: w_string_def)
  have fit: "nat ofs + length (string_enc s) \<le> length buf"
    using assms len by simp
  obtain rest where "drop (nat ofs + 1) (write_at buf (nat ofs) (string_enc s))
      = concat (map le16 (string_units s)) @ rest"
    using fit by (simp add: write_at_def enc)
  moreover have "write_at buf (nat ofs) (string_enc s) ! nat ofs = word_of_nat (length us + 1)"
    using nth_write_at_k[OF fit, of 0] by (simp add: enc)
  ultimately show ?thesis
    using poke unicode_string_roundtrip[of us s maxstr rest] assms by simp
qed

theorem string_roundtrip_witness:
  "case poke_string (replicate 16 0xAA) 0 16 [0x41, 0xC3, 0xA9] of (buf', ofs') \<Rightarrow>
    ofs' = 7 \<and> buf' ! 0 = 3 \<and> unicode2charstring (drop 1 buf') 256 = Some ([0x41, 0xC3, 0xA9], 0)"
  using string_roundtrip[of "[0x41, 0xE9]" "[0x41, 0xC3, 0xA9]" 256 0 16 "replicate 16 0xAA"]
  by (simp add: utf8_encode_def)

text \<open>The USB string descriptor encoder refuses every string that holds a character above
  0x7F in correct UTF-8: it tests a continuation byte against 0xC0 where the encoding has 0x80.
  The comment above it says it insists on correct encodings.\<close>

theorem utf8_to_utf16le_rejects_multibyte:
  fixes u :: u16
  assumes "\<not> ucast u \<le> (0x7F :: u32)" "\<forall>c\<in>set s. c \<noteq> 0 \<and> \<not> bit c 7"
  shows "utf8_to_utf16le (s @ utf8_encode (ucast u) @ t) (Suc (length s + n)) = None"
  using assms(2)
proof (induction s)
  case Nil
  then show ?case using utf8_to_utf16le_multibyte[OF assms(1)] by simp
next
  case (Cons c s)
  then show ?case by (simp add: test_bit7)
qed

theorem utf8_to_utf16le_rejects_multibyte_witness:
  "utf8_to_utf16le ([0x41] @ utf8_encode (ucast (0xE9 :: u16)) @ []) (Suc (length [0x41 :: byte] + 1)) = None"
proof (rule utf8_to_utf16le_rejects_multibyte)
  show "\<not> ucast (0xE9 :: u16) \<le> (0x7F :: u32)" by simp
  have "\<not> bit (0x41 :: byte) 7" by (simp add: bit_iff_odd)
  then show "\<forall>c\<in>set [0x41 :: byte]. c \<noteq> 0 \<and> \<not> bit c 7" by simp
qed

end
