(* ===== verification/Sanitize.thy ===== *)
theory Sanitize
  imports Unicode
begin

text \<open>
  The file name sanitiser of \<open>src/mtp_sanitize.c\<close>: the strict UTF-8 validator, the rewriting
  of forbidden characters in \<open>sanitize_name\<close>, and \<open>check_realpath\<close>. The validator is shown to
  accept exactly the concatenations of canonical encodings produced by \<open>utf8_encode\<close>, and a
  sanitised name to be one harmless path component.
\<close>

section \<open>The validator\<close>

text \<open>The lead byte: the number of bytes of the sequence and the payload bits of the lead.\<close>

definition utf8_lead :: "byte \<Rightarrow> (nat \<times> u32) option" where
  "utf8_lead c =
    (if c AND 0xE0 = 0xC0 then Some (2, ucast (c AND 0x1F))
     else if c AND 0xF0 = 0xE0 then Some (3, ucast (c AND 0x0F))
     else if c AND 0xF8 = 0xF0 then Some (4, ucast (c AND 0x07))
     else None)"

text \<open>The loop over \<open>i = 1 .. bytes - 1\<close>, on the bytes behind the lead.\<close>

fun utf8_tail :: "cstr \<Rightarrow> nat \<Rightarrow> u32 \<Rightarrow> u32 option" where
  "utf8_tail s 0 cp = Some cp"
| "utf8_tail s (Suc n) cp =
     (if at s 0 AND 0xC0 \<noteq> 0x80 then None
      else utf8_tail (drop 1 s) n (push_bit 6 cp OR ucast (at s 0 AND 0x3F)))"

definition utf8_bad_range :: "nat \<Rightarrow> u32 \<Rightarrow> bool" where
  "utf8_bad_range bytes cp \<longleftrightarrow>
     bytes = 2 \<and> cp < 0x80 \<or> bytes = 3 \<and> cp < 0x800 \<or> bytes = 4 \<and> cp < 0x10000 \<or>
     cp \<ge> 0xD800 \<and> cp \<le> 0xDFFF \<or> cp > 0x10FFFF"

text \<open>\<open>unsigned long\<close> has at least 32 bits; the code point uses 21 of them.\<close>

fun utf8_validate :: "cstr \<Rightarrow> bool" where
  "utf8_validate [] = True"
| "utf8_validate (c # s) =
    (if c < 0x80 then utf8_validate s
     else (case utf8_lead c of
        None \<Rightarrow> False
      | Some (bytes, lead) \<Rightarrow>
          (case utf8_tail s (bytes - 1) lead of
             None \<Rightarrow> False
           | Some cp \<Rightarrow> if utf8_bad_range bytes cp then False
                        else utf8_validate (drop (bytes - 1) s))))"

section \<open>Rewriting the name\<close>

definition is_forbidden_ascii :: "byte \<Rightarrow> bool" where
  "is_forbidden_ascii c \<longleftrightarrow> c < 0x20 \<or> c = 0x7F \<or>
     c \<in> {0x2F, 0x5C, 0x3A, 0x2A, 0x3F, 0x22, 0x3C, 0x3E, 0x7C, 0x3B}"

definition clean_byte :: "byte \<Rightarrow> byte" where
  "clean_byte c = (if c \<ge> 0x80 then c else if is_forbidden_ascii c then 0x5F else c)"

text \<open>
  Step 2: every iteration reads one byte and writes one, so \<open>wi = ri\<close> and the rewriting in
  place is a list of written bytes and the rest to read. \<open>Inl\<close>: the string was truncated.
\<close>

fun sanitize_copy :: "int \<Rightarrow> cstr \<Rightarrow> cstr \<Rightarrow> cstr + cstr" where
  "sanitize_copy max_len out [] = Inr out"
| "sanitize_copy max_len out (c # rest) =
    (if max_len > 0 \<and> int (length out) \<ge> max_len then Inl (take (length out - 1) out)
     else sanitize_copy max_len (out @ [clean_byte c]) rest)"

text \<open>Step 3: leading spaces (and slashes, which step 2 has already replaced).\<close>

definition strip_leading :: "cstr \<Rightarrow> cstr" where
  "strip_leading s = dropWhile (\<lambda>c. c = 0x20 \<or> c = 0x2F) s"

text \<open>Step 4: the loop on \<open>wi\<close> from the end of the string.\<close>

fun strip_trailing :: "cstr \<Rightarrow> nat \<Rightarrow> nat" where
  "strip_trailing s 0 = 0"
| "strip_trailing s (Suc wi) = (if s ! wi = 0x2E \<or> s ! wi = 0x20 then strip_trailing s wi else Suc wi)"

definition strstr_dotdot :: "cstr \<Rightarrow> bool" where
  "strstr_dotdot s = sublist [0x2E, 0x2E] s"

text \<open>The string left in the caller's buffer and the result.\<close>

definition sanitize_name :: "cstr option \<Rightarrow> int \<Rightarrow> cstr option \<times> int" where
  "sanitize_name str max_len =
    (case str of
       None \<Rightarrow> (None, -1)
     | Some s \<Rightarrow>
       (if strstr_dotdot s then (Some s, -1)
        else if \<not> utf8_validate s then (Some s, -1)
        else (case sanitize_copy max_len [] s of
            Inl t \<Rightarrow> (Some t, -1)
          | Inr t \<Rightarrow>
             (let u = strip_leading t; wi = strip_trailing u (length u) in
              (Some (take wi u), if wi = 0 then -1 else 1)))))"

section \<open>The real path check\<close>

text \<open>
  The loop compares one position and never advances it. \<open>realp\<close> is the result of
  \<open>realpath\<close>; \<open>None\<close> of the loop is a run that does not end.
\<close>

partial_function (option) check_realpath_loop :: "cstr \<Rightarrow> cstr \<Rightarrow> nat \<Rightarrow> int option" where
  "check_realpath_loop rootpath realp i =
    (if at rootpath i \<noteq> 0
     then (if at rootpath i \<noteq> at realp i then Some 0 else check_realpath_loop rootpath realp i)
     else Some 1)"

definition check_realpath :: "(cstr \<Rightarrow> cstr option) \<Rightarrow> cstr \<Rightarrow> cstr \<Rightarrow> int option" where
  "check_realpath realpath rootpath pathtocheck =
    (case realpath pathtocheck of None \<Rightarrow> Some 0 | Some realp \<Rightarrow> check_realpath_loop rootpath realp 0)"


section \<open>The validator accepts exactly the canonical encodings\<close>

definition scalar :: "u32 \<Rightarrow> bool" where
  "scalar u \<longleftrightarrow> u \<le> 0x10FFFF \<and> \<not> (0xD800 \<le> u \<and> u \<le> 0xDFFF)"

lemma lead2_bits: "c AND 0xE0 = 0xC0 \<longleftrightarrow> bit c 7 \<and> bit c 6 \<and> \<not> bit c 5" for c :: byte
proof -
  have "c AND 0xE0 = 0xC0 \<longleftrightarrow> (\<forall>n<8. bit (c AND 0xE0) n = bit (0xC0::byte) n)"
    by (auto intro: bit_word_eqI)
  also have "\<dots> \<longleftrightarrow> bit c 7 \<and> bit c 6 \<and> \<not> bit c 5"
    by (auto simp: bit_simps numeral_eq_Suc All_less_Suc)
  finally show ?thesis .
qed

lemma lead3_bits: "c AND 0xF0 = 0xE0 \<longleftrightarrow> bit c 7 \<and> bit c 6 \<and> bit c 5 \<and> \<not> bit c 4" for c :: byte
proof -
  have "c AND 0xF0 = 0xE0 \<longleftrightarrow> (\<forall>n<8. bit (c AND 0xF0) n = bit (0xE0::byte) n)"
    by (auto intro: bit_word_eqI)
  also have "\<dots> \<longleftrightarrow> bit c 7 \<and> bit c 6 \<and> bit c 5 \<and> \<not> bit c 4"
    by (auto simp: bit_simps numeral_eq_Suc All_less_Suc)
  finally show ?thesis .
qed

lemma lead4_bits: "c AND 0xF8 = 0xF0 \<longleftrightarrow> bit c 7 \<and> bit c 6 \<and> bit c 5 \<and> bit c 4 \<and> \<not> bit c 3" for c :: byte
proof -
  have "c AND 0xF8 = 0xF0 \<longleftrightarrow> (\<forall>n<8. bit (c AND 0xF8) n = bit (0xF0::byte) n)"
    by (auto intro: bit_word_eqI)
  also have "\<dots> \<longleftrightarrow> bit c 7 \<and> bit c 6 \<and> bit c 5 \<and> bit c 4 \<and> \<not> bit c 3"
    by (auto simp: bit_simps numeral_eq_Suc All_less_Suc)
  finally show ?thesis .
qed

lemma byte_eqI:
  fixes a b :: byte
  assumes "bit a 0 = bit b 0" "bit a 1 = bit b 1" "bit a 2 = bit b 2" "bit a 3 = bit b 3"
    "bit a 4 = bit b 4" "bit a 5 = bit b 5" "bit a 6 = bit b 6" "bit a 7 = bit b 7"
  shows "a = b"
proof (rule bit_word_eqI)
  fix n assume "n < LENGTH(8)"
  then consider "n = 0" | "n = 1" | "n = 2" | "n = 3" | "n = 4" | "n = 5" | "n = 6" | "n = 7"
    by fastforce
  then show "bit a n \<longleftrightarrow> bit b n" using assms by cases simp_all
qed

lemma ascii_bit: "c < 0x80 \<longleftrightarrow> \<not> bit c 7" for c :: byte
proof -
  have "c < 0x80 \<longleftrightarrow> unat c < 2 ^ 7" by (simp add: word_less_nat_alt)
  also have "\<dots> \<longleftrightarrow> (\<forall>m\<ge>7. \<not> bit c m)" by (rule lt_exp_bits)
  also have "\<dots> \<longleftrightarrow> \<not> bit c 7"
  proof -
    have "m = 7" if "bit c m" "7 \<le> m" for m
      using that bit_imp_le_length[OF that(1)] by simp
    then show ?thesis by auto
  qed
  finally show ?thesis .
qed

lemma join2:
  assumes "bit c 7" "bit c 6" "\<not> bit c 5" "bit b 7" "\<not> bit b 6"
  defines "cp \<equiv> push_bit 6 (ucast ((c::byte) AND 0x1F)) OR ucast ((b::byte) AND 0x3F) :: u32"
  shows "ucast ((drop_bit 6 cp AND 0x1F) OR 0xC0) = c" "ucast ((cp AND 0x3F) OR 0x80) = b"
    "cp \<le> 0x7FF"
proof -
  show "ucast ((drop_bit 6 cp AND 0x1F) OR 0xC0) = c"
    unfolding cp_def mask_lits
    by (rule byte_eqI) (use assms(1-5) in \<open>simp_all add: bit_simps\<close>)
  show "ucast ((cp AND 0x3F) OR 0x80) = b"
    unfolding cp_def mask_lits
    by (rule byte_eqI) (use assms(1-5) in \<open>simp_all add: bit_simps bit_0x80\<close>)
  show "cp \<le> 0x7FF"
    unfolding le_7FF cp_def mask_lits by (auto simp: bit_simps)
qed


lemma join3:
  assumes "bit c 7" "bit c 6" "bit c 5" "\<not> bit c 4" "bit b 7" "\<not> bit b 6" "bit d 7" "\<not> bit d 6"
  defines "cp \<equiv> push_bit 6 (push_bit 6 (ucast ((c::byte) AND 0x0F)) OR ucast ((b::byte) AND 0x3F))
    OR ucast ((d::byte) AND 0x3F) :: u32"
  shows "ucast ((drop_bit 12 cp AND 0x0F) OR 0xE0) = c" "ucast ((drop_bit 6 cp AND 0x3F) OR 0x80) = b"
    "ucast ((cp AND 0x3F) OR 0x80) = d" "cp \<le> 0xFFFF"
proof -
  show "ucast ((drop_bit 12 cp AND 0x0F) OR 0xE0) = c"
    unfolding cp_def mask_lits
    by (rule byte_eqI) (use assms(1-8) in \<open>simp_all add: bit_simps\<close>)
  show "ucast ((drop_bit 6 cp AND 0x3F) OR 0x80) = b"
    unfolding cp_def mask_lits
    by (rule byte_eqI) (use assms(1-8) in \<open>simp_all add: bit_simps bit_0x80\<close>)
  show "ucast ((cp AND 0x3F) OR 0x80) = d"
    unfolding cp_def mask_lits
    by (rule byte_eqI) (use assms(1-8) in \<open>simp_all add: bit_simps bit_0x80\<close>)
  show "cp \<le> 0xFFFF"
    unfolding le_FFFF cp_def mask_lits by (auto simp: bit_simps)
qed

lemma join4:
  assumes "bit c 7" "bit c 6" "bit c 5" "bit c 4" "\<not> bit c 3" "bit b 7" "\<not> bit b 6"
    "bit d 7" "\<not> bit d 6" "bit e 7" "\<not> bit e 6"
  defines "cp \<equiv> push_bit 6 (push_bit 6 (push_bit 6 (ucast ((c::byte) AND 0x07)) OR ucast ((b::byte) AND 0x3F))
    OR ucast ((d::byte) AND 0x3F)) OR ucast ((e::byte) AND 0x3F) :: u32"
  shows "ucast ((drop_bit 18 cp AND 0x07) OR 0xF0) = c" "ucast ((drop_bit 12 cp AND 0x3F) OR 0x80) = b"
    "ucast ((drop_bit 6 cp AND 0x3F) OR 0x80) = d" "ucast ((cp AND 0x3F) OR 0x80) = e"
proof -
  show "ucast ((drop_bit 18 cp AND 0x07) OR 0xF0) = c"
    unfolding cp_def mask_lits
    by (rule byte_eqI) (use assms(1-11) in \<open>simp_all add: bit_simps\<close>)
  show "ucast ((drop_bit 12 cp AND 0x3F) OR 0x80) = b"
    unfolding cp_def mask_lits
    by (rule byte_eqI) (use assms(1-11) in \<open>simp_all add: bit_simps bit_0x80\<close>)
  show "ucast ((drop_bit 6 cp AND 0x3F) OR 0x80) = d"
    unfolding cp_def mask_lits
    by (rule byte_eqI) (use assms(1-11) in \<open>simp_all add: bit_simps bit_0x80\<close>)
  show "ucast ((cp AND 0x3F) OR 0x80) = e"
    unfolding cp_def mask_lits
    by (rule byte_eqI) (use assms(1-11) in \<open>simp_all add: bit_simps bit_0x80\<close>)
qed

lemma cont_payload: "ucast ((ucast ((w AND 0x3F) OR 0x80) :: byte) AND 0x3F) = w AND 0x3F" for w :: u32
  unfolding mask_lits by (rule bit_word_eqI) (auto simp: bit_simps bit_0x80)
lemma lead2_payload: "ucast ((ucast ((w AND 0x1F) OR 0xC0) :: byte) AND 0x1F) = w AND 0x1F" for w :: u32
  unfolding mask_lits by (rule bit_word_eqI) (auto simp: bit_simps)
lemma lead3_payload: "ucast ((ucast ((w AND 0x0F) OR 0xE0) :: byte) AND 0x0F) = w AND 0x0F" for w :: u32
  unfolding mask_lits by (rule bit_word_eqI) (auto simp: bit_simps)
lemma lead4_payload: "ucast ((ucast ((w AND 0x07) OR 0xF0) :: byte) AND 0x07) = w AND 0x07" for w :: u32
  unfolding mask_lits by (rule bit_word_eqI) (auto simp: bit_simps)

lemma low6: "push_bit 6 (drop_bit 6 w) OR (w AND 0x3F) = w" for w :: u32
  unfolding mask_lits by (rule bit_word_eqI) (auto simp: bit_simps)

lemma low6_step: "push_bit 6 (drop_bit (k + 6) w) OR (drop_bit k w AND 0x3F) = drop_bit k w" for w :: u32
  using low6[of "drop_bit k w"] by (simp add: add.commute)

lemma top_bits: "\<forall>m\<ge>k + n. \<not> bit w m \<Longrightarrow> drop_bit k w AND mask n = drop_bit k w" for w :: u32
proof (rule bit_word_eqI)
  fix m assume "\<forall>m\<ge>k + n. \<not> bit w m"
  then have "bit w (k + m) \<Longrightarrow> m < n" by (meson add_le_cancel_left not_less)
  then show "bit (drop_bit k w AND mask n) m \<longleftrightarrow> bit (drop_bit k w) m"
    by (auto simp: bit_simps dest: bit_imp_le_length)
qed

lemma split2:
  fixes w :: u32
  assumes "w \<le> 0x7FF"
  shows "push_bit 6 (ucast ((ucast ((drop_bit 6 w AND 0x1F) OR 0xC0) :: byte) AND 0x1F))
    OR ucast ((ucast ((w AND 0x3F) OR 0x80) :: byte) AND 0x3F) = w" (is "?l = w")
proof -
  have "drop_bit 6 w AND 0x1F = drop_bit 6 w"
    using top_bits[of 6 5 w] assms by (simp add: mask_lits le_7FF)
  then show ?thesis unfolding cont_payload lead2_payload by (simp only: low6)
qed

lemma split3:
  fixes w :: u32
  assumes "w \<le> 0xFFFF"
  shows "push_bit 6 (push_bit 6 (ucast ((ucast ((drop_bit 12 w AND 0x0F) OR 0xE0) :: byte) AND 0x0F))
    OR ucast ((ucast ((drop_bit 6 w AND 0x3F) OR 0x80) :: byte) AND 0x3F))
    OR ucast ((ucast ((w AND 0x3F) OR 0x80) :: byte) AND 0x3F) = w" (is "?l = w")
proof -
  have "drop_bit 12 w AND 0x0F = drop_bit 12 w"
    using top_bits[of 12 4 w] assms by (simp add: mask_lits le_FFFF)
  then show ?thesis
    using low6_step[of 6 w] unfolding cont_payload lead3_payload
    by (simp only: numeral_plus_numeral add_num_simps low6)
qed

lemma split4:
  fixes w :: u32
  assumes "w \<le> 0x10FFFF"
  shows "push_bit 6 (push_bit 6 (push_bit 6 (ucast ((ucast ((drop_bit 18 w AND 0x07) OR 0xF0) :: byte) AND 0x07))
    OR ucast ((ucast ((drop_bit 12 w AND 0x3F) OR 0x80) :: byte) AND 0x3F))
    OR ucast ((ucast ((drop_bit 6 w AND 0x3F) OR 0x80) :: byte) AND 0x3F))
    OR ucast ((ucast ((w AND 0x3F) OR 0x80) :: byte) AND 0x3F) = w" (is "?l = w")
proof -
  have "drop_bit 18 w AND 0x07 = drop_bit 18 w"
    using top_bits[of 18 3 w] le_10FFFF[OF assms] by (simp add: mask_lits)
  then show ?thesis
    using low6_step[of 12 w] low6_step[of 6 w] unfolding cont_payload lead4_payload
    by (simp only: numeral_plus_numeral add_num_simps low6)
qed


definition utf8_acc :: "u32 \<Rightarrow> byte \<Rightarrow> u32" where
  "utf8_acc cp b = push_bit 6 cp OR ucast (b AND 0x3F)"

lemma utf8_tail_step:
  "utf8_tail (b # s) (Suc n) cp = (if b AND 0xC0 \<noteq> 0x80 then None else utf8_tail s n (utf8_acc cp b))"
  by (simp add: at_def utf8_acc_def)

lemma utf8_tail_unroll:
  "utf8_tail (b # s) (Suc 0) cp = (if b AND 0xC0 \<noteq> 0x80 then None else Some (utf8_acc cp b))"
  "utf8_tail (b # s) 2 cp = (if b AND 0xC0 \<noteq> 0x80 then None else utf8_tail s (Suc 0) (utf8_acc cp b))"
  "utf8_tail (b # s) 3 cp = (if b AND 0xC0 \<noteq> 0x80 then None else utf8_tail s 2 (utf8_acc cp b))"
  using utf8_tail_step[of b s 0] utf8_tail_step[of b s "Suc 0"] utf8_tail_step[of b s 2]
  by (simp_all only: numeral_2_eq_2 numeral_3_eq_3 utf8_tail.simps(1))

lemma utf8_bad_range_cases:
  "utf8_bad_range 2 cp \<longleftrightarrow> cp < 0x80 \<or> \<not> scalar cp"
  "utf8_bad_range 3 cp \<longleftrightarrow> cp < 0x800 \<or> \<not> scalar cp"
  "utf8_bad_range 4 cp \<longleftrightarrow> cp < 0x10000 \<or> \<not> scalar cp"
  by (auto simp: utf8_bad_range_def scalar_def)

lemmas eval_validate = utf8_validate.simps(2) utf8_lead_def lead2_bits lead3_bits lead4_bits bits_C0 ascii_bit
  utf8_bad_range_cases utf8_tail_unroll

lemma validate_ascii: "\<not> bit c 7 \<Longrightarrow> utf8_validate (c # s) = utf8_validate s"
  by (simp add: ascii_bit)

lemma validate_seq2:
  assumes "bit c 7" "bit c 6" "\<not> bit c 5"
  shows "utf8_validate (c # b # s) \<longleftrightarrow> bit b 7 \<and> \<not> bit b 6 \<and>
    \<not> utf8_acc (ucast (c AND 0x1F)) b < 0x80 \<and> scalar (utf8_acc (ucast (c AND 0x1F)) b) \<and> utf8_validate s"
  using assms by (simp add: eval_validate del: utf8_tail.simps(2))

lemma validate_seq3:
  assumes "bit c 7" "bit c 6" "bit c 5" "\<not> bit c 4"
  shows "utf8_validate (c # b # d # s) \<longleftrightarrow> bit b 7 \<and> \<not> bit b 6 \<and> bit d 7 \<and> \<not> bit d 6 \<and>
    \<not> utf8_acc (utf8_acc (ucast (c AND 0x0F)) b) d < 0x800 \<and>
    scalar (utf8_acc (utf8_acc (ucast (c AND 0x0F)) b) d) \<and> utf8_validate s"
  using assms by (simp add: eval_validate del: utf8_tail.simps(2))

lemma validate_seq4:
  assumes "bit c 7" "bit c 6" "bit c 5" "bit c 4" "\<not> bit c 3"
  shows "utf8_validate (c # b # d # e # s) \<longleftrightarrow>
    bit b 7 \<and> \<not> bit b 6 \<and> bit d 7 \<and> \<not> bit d 6 \<and> bit e 7 \<and> \<not> bit e 6 \<and>
    \<not> utf8_acc (utf8_acc (utf8_acc (ucast (c AND 0x07)) b) d) e < 0x10000 \<and>
    scalar (utf8_acc (utf8_acc (utf8_acc (ucast (c AND 0x07)) b) d) e) \<and> utf8_validate s"
  using assms by (simp add: eval_validate del: utf8_tail.simps(2))

lemma validate_encode:
  assumes "scalar w"
  shows "utf8_validate (utf8_encode w @ s) = utf8_validate s"
proof -
  consider (1) "w \<le> 0x7F" | (2) "\<not> w \<le> 0x7F" "w \<le> 0x7FF" | (3) "\<not> w \<le> 0x7F" "\<not> w \<le> 0x7FF" "w \<le> 0xFFFF"
    | (4) "\<not> w \<le> 0x7F" "\<not> w \<le> 0x7FF" "\<not> w \<le> 0xFFFF" "w \<le> 0x10FFFF"
    using assms by (auto simp: scalar_def)
  then show ?thesis
  proof cases
    case 1
    then have "\<not> bit w 7" by (simp add: le_7F)
    then show ?thesis using 1 by (simp add: utf8_encode_def ascii_bit bit_simps)
  next
    case 2
    have "\<not> w < 0x80" using 2 by (auto simp: word_le_nat_alt word_less_nat_alt)
    then show ?thesis
      using 2 assms
      by (simp only: utf8_encode_def if_True if_False append.simps)
         (subst validate_seq2, simp_all only: utf8_acc_def split2 bit_simps, simp_all add: bit_simps)
  next
    case 3
    have "\<not> w < 0x800" using 3 by (auto simp: word_le_nat_alt word_less_nat_alt)
    then show ?thesis
      using 3 assms
      by (simp only: utf8_encode_def if_True if_False append.simps)
         (subst validate_seq3, simp_all only: utf8_acc_def split3 bit_simps, simp_all add: bit_simps)
  next
    case 4
    have "\<not> w < 0x10000" using 4 by (auto simp: word_le_nat_alt word_less_nat_alt)
    then show ?thesis
      using 4 assms
      by (simp only: utf8_encode_def if_True if_False append.simps)
         (subst validate_seq4, simp_all only: utf8_acc_def split4 bit_simps, simp_all add: bit_simps)
  qed
qed

lemma encode_seq2:
  assumes "bit c 7" "bit c 6" "\<not> bit c 5" "bit b 7" "\<not> bit b 6"
    "\<not> utf8_acc (ucast (c AND 0x1F)) b < 0x80"
  shows "utf8_encode (utf8_acc (ucast (c AND 0x1F)) b) = [c, b]"
proof -
  have "\<not> utf8_acc (ucast (c AND 0x1F)) b \<le> 0x7F"
    using assms(6) by (auto simp: word_le_nat_alt word_less_nat_alt)
  then show ?thesis
    using join2[OF assms(1-5)] by (simp only: utf8_encode_def utf8_acc_def) simp
qed

lemma encode_seq3:
  assumes "bit c 7" "bit c 6" "bit c 5" "\<not> bit c 4" "bit b 7" "\<not> bit b 6" "bit d 7" "\<not> bit d 6"
    "\<not> utf8_acc (utf8_acc (ucast (c AND 0x0F)) b) d < 0x800"
  shows "utf8_encode (utf8_acc (utf8_acc (ucast (c AND 0x0F)) b) d) = [c, b, d]"
proof -
  let ?w = "utf8_acc (utf8_acc (ucast (c AND 0x0F)) b) d"
  have "\<not> ?w \<le> 0x7F" "\<not> ?w \<le> 0x7FF"
    using assms(9) by (auto simp: word_le_nat_alt word_less_nat_alt)
  moreover have "ucast ((drop_bit 12 ?w AND 0x0F) OR 0xE0) = c" "ucast ((drop_bit 6 ?w AND 0x3F) OR 0x80) = b"
    "ucast ((?w AND 0x3F) OR 0x80) = d" "?w \<le> 0xFFFF"
    unfolding utf8_acc_def using join3[OF assms(1-8)] by simp_all
  ultimately show ?thesis by (simp add: utf8_encode_def del: mask_byte32)
qed

lemma encode_seq4:
  assumes "bit c 7" "bit c 6" "bit c 5" "bit c 4" "\<not> bit c 3"
    "bit b 7" "\<not> bit b 6" "bit d 7" "\<not> bit d 6" "bit e 7" "\<not> bit e 6"
    "\<not> utf8_acc (utf8_acc (utf8_acc (ucast (c AND 0x07)) b) d) e < 0x10000"
    "utf8_acc (utf8_acc (utf8_acc (ucast (c AND 0x07)) b) d) e \<le> 0x10FFFF"
  shows "utf8_encode (utf8_acc (utf8_acc (utf8_acc (ucast (c AND 0x07)) b) d) e) = [c, b, d, e]"
proof -
  let ?w = "utf8_acc (utf8_acc (utf8_acc (ucast (c AND 0x07)) b) d) e"
  have "\<not> ?w \<le> 0x7F" "\<not> ?w \<le> 0x7FF" "\<not> ?w \<le> 0xFFFF"
    using assms(12) by (auto simp: word_le_nat_alt word_less_nat_alt)
  moreover have "ucast ((drop_bit 18 ?w AND 0x07) OR 0xF0) = c" "ucast ((drop_bit 12 ?w AND 0x3F) OR 0x80) = b"
    "ucast ((drop_bit 6 ?w AND 0x3F) OR 0x80) = d" "ucast ((?w AND 0x3F) OR 0x80) = e"
    unfolding utf8_acc_def by (fact join4[OF assms(1-11)])+
  ultimately show ?thesis using assms(13) by (simp add: utf8_encode_def)
qed


lemma utf8_tail_length: "utf8_tail s n cp = Some r \<Longrightarrow> n \<le> length s"
proof (induction n arbitrary: s cp)
  case (Suc n)
  then show ?case by (cases s) (auto simp: at_def split: if_splits)
qed simp

lemma validate_length:
  "utf8_validate (c # s) \<Longrightarrow> bit c 7 \<Longrightarrow> utf8_lead c = Some (b, l) \<Longrightarrow> b - 1 \<le> length s"
  by (auto simp: ascii_bit dest: utf8_tail_length split: option.splits)

lemma validate_decode:
  assumes "utf8_validate (c # s)"
  shows "\<exists>w s'. scalar w \<and> c # s = utf8_encode w @ s' \<and> utf8_validate s'"
proof -
  consider (1) "\<not> bit c 7" | (2) "bit c 7" "bit c 6" "\<not> bit c 5"
    | (3) "bit c 7" "bit c 6" "bit c 5" "\<not> bit c 4"
    | (4) "bit c 7" "bit c 6" "bit c 5" "bit c 4" "\<not> bit c 3"
    using assms unfolding utf8_validate.simps(2) ascii_bit utf8_lead_def lead2_bits lead3_bits lead4_bits
    by (auto split: if_splits)
  then show ?thesis
  proof cases
    case 1
    have "m = 7" if "bit c m" "7 \<le> m" for m
      using that bit_imp_le_length[OF that(1)] by simp
    then have le: "ucast c \<le> (0x7F :: u32)" using 1 by (auto simp: le_7F bit_simps)
    then have "scalar (ucast c)"
      using order.trans[OF le, of "0x10FFFF"] order.trans[of "0xD800" "ucast c" "0x7F :: u32"]
      by (auto simp: scalar_def)
    moreover have "ucast (ucast c :: u32) = c" by (rule bit_word_eqI) (auto simp: bit_simps)
    ultimately show ?thesis
      using assms 1 le by (intro exI[of _ "ucast c"] exI[of _ s]) (simp add: utf8_encode_def ascii_bit)
  next
    case 2
    then obtain b t where s: "s = b # t"
      using validate_length[OF assms] by (cases s) (auto simp: utf8_lead_def lead2_bits)
    show ?thesis
      using assms 2 encode_seq2[OF 2] unfolding s validate_seq2[OF 2] by force
  next
    case 3
    then obtain b d t where s: "s = b # d # t"
      using validate_length[OF assms]
      by (cases s; cases "tl s") (auto simp: utf8_lead_def lead2_bits lead3_bits)
    show ?thesis
      using assms 3 encode_seq3[OF 3] unfolding s validate_seq3[OF 3] by force
  next
    case 4
    then obtain b d e t where s: "s = b # d # e # t"
      using validate_length[OF assms]
      by (cases s; cases "tl s"; cases "tl (tl s)") (auto simp: utf8_lead_def lead2_bits lead3_bits lead4_bits)
    show ?thesis
      using assms 4 encode_seq4[OF 4, of b d e] unfolding s validate_seq4[OF 4] scalar_def by force
  qed
qed



section \<open>Sanitised names\<close>

lemma sanitize_copy_ok:
  "sanitize_copy max_len out s = Inr t \<Longrightarrow> t = out @ map clean_byte s"
proof (induction s arbitrary: out)
  case (Cons c s)
  then have "sanitize_copy max_len (out @ [clean_byte c]) s = Inr t"
    by (simp split: if_splits)
  from Cons.IH[OF this] show ?case by simp
qed simp

lemma sanitize_copy_bound:
  "sanitize_copy max_len out s = Inr t \<Longrightarrow> 0 < max_len \<Longrightarrow> int (length out) \<le> max_len \<Longrightarrow>
    int (length t) \<le> max_len"
proof (induction s arbitrary: out)
  case (Cons c s)
  then have "sanitize_copy max_len (out @ [clean_byte c]) s = Inr t" "int (length out) < max_len"
    by (auto split: if_splits)
  then show ?case using Cons.prems by (intro Cons.IH) auto
qed simp

lemma strip_trailing_le: "strip_trailing s n \<le> n"
  by (induction n) auto

lemma strip_trailing_last:
  "strip_trailing s n \<noteq> 0 \<Longrightarrow> s ! (strip_trailing s n - 1) \<noteq> 0x2E \<and> s ! (strip_trailing s n - 1) \<noteq> 0x20"
  by (induction n) (auto split: if_splits)

lemma strip_trailing_dropped:
  "strip_trailing s n \<le> i \<Longrightarrow> i < n \<Longrightarrow> s ! i = 0x2E \<or> s ! i = 0x20"
  by (induction n) (auto simp: less_Suc_eq split: if_splits)

lemma at_append_ascii:
  "\<forall>c\<in>set t. \<not> bit c 7 \<Longrightarrow> at (s @ t) 0 AND 0xC0 = 0x80 \<longleftrightarrow> at s 0 AND 0xC0 = 0x80"
  by (cases s; cases t) (auto simp: at_def bits_C0)

lemma utf8_tail_append_ascii:
  assumes "\<forall>c\<in>set t. \<not> bit c 7"
  shows "utf8_tail (s @ t) n cp = utf8_tail s n cp"
proof (induction n arbitrary: s cp)
  case (Suc n)
  show ?case
  proof (cases s)
    case Nil
    then show ?thesis using at_append_ascii[OF assms, of "[]"] by (simp add: at_def)
  next
    case (Cons b s')
    then show ?thesis using Suc.IH[of s'] by (simp add: at_Cons_0)
  qed
qed simp

lemma validate_append_ascii:
  assumes "\<forall>c\<in>set t. \<not> bit c 7"
  shows "utf8_validate (s @ t) = utf8_validate s"
proof (induction s rule: utf8_validate.induct)
  case 1
  show ?case using assms by (induction t) (simp_all add: ascii_bit)
next
  case (2 c s)
  have tail: "utf8_validate (drop (b - 1) (s @ t)) = utf8_validate (drop (b - 1) s)"
    if "\<not> c < 0x80" "utf8_lead c = Some (b, l)" "utf8_tail s (b - 1) l = Some cp" "\<not> utf8_bad_range b cp"
    for b l cp
    using 2(2)[OF that(1,2) refl that(3,4)] utf8_tail_length[OF that(3)] by simp
  show ?case
    unfolding append_Cons utf8_validate.simps(2) utf8_tail_append_ascii[OF assms]
    using 2(1) tail by (auto split: option.split)
qed

lemma clean_byte_bit7 [simp]: "bit (clean_byte c) 7 = bit c 7"
  by (simp add: clean_byte_def not_less[symmetric] ascii_bit) 

lemma clean_byte_high: "bit c 7 \<Longrightarrow> clean_byte c = c"
  by (simp add: clean_byte_def not_less[symmetric] ascii_bit)

lemma utf8_tail_clean: "utf8_tail (map clean_byte s) n cp = utf8_tail s n cp"
proof (induction n arbitrary: s cp)
  case (Suc n)
  show ?case
  proof (cases s)
    case (Cons b s')
    have "clean_byte b AND 0xC0 = 0x80 \<longleftrightarrow> b AND 0xC0 = 0x80"
      using clean_byte_high[of b] by (auto simp: bits_C0)
    moreover have "b AND 0xC0 = 0x80 \<Longrightarrow> clean_byte b = b"
      using clean_byte_high[of b] by (auto simp: bits_C0)
    ultimately show ?thesis using Suc.IH[of s'] Cons by (simp add: at_Cons_0)
  qed (simp add: at_def)
qed simp

lemma validate_clean: "utf8_validate (map clean_byte s) = utf8_validate s"
proof (induction s rule: utf8_validate.induct)
  case (2 c s)
  then show ?case
    using clean_byte_high[of c]
    by (auto simp: utf8_tail_clean drop_map ascii_bit simp del: utf8_tail.simps split: option.split)
qed simp

lemma validate_strip_leading: "utf8_validate (strip_leading s) = utf8_validate s"
  unfolding strip_leading_def by (induction s) (auto simp: ascii_bit)


lemma clean_byte_not_forbidden: "\<not> is_forbidden_ascii (clean_byte c)"
proof (cases "c \<ge> 0x80")
  case True
  then have "\<not> c < 0x20" "c \<noteq> 0x7F"
    by (auto simp: word_le_nat_alt word_less_nat_alt)
  moreover have "c \<notin> {0x2F, 0x5C, 0x3A, 0x2A, 0x3F, 0x22, 0x3C, 0x3E, 0x7C, 0x3B}"
    using True by (auto simp: word_le_nat_alt)
  ultimately show ?thesis using True by (simp add: clean_byte_def is_forbidden_ascii_def)
next
  case False
  then show ?thesis by (auto simp: clean_byte_def is_forbidden_ascii_def word_less_nat_alt)
qed

lemma clean_byte_id: "\<not> is_forbidden_ascii c \<Longrightarrow> clean_byte c = c"
  by (simp add: clean_byte_def)

lemma clean_byte_dot: "clean_byte c = 0x2E \<longleftrightarrow> c = 0x2E"
  by (auto simp: clean_byte_def is_forbidden_ascii_def word_less_nat_alt split: if_splits)

lemma clean_dotdot: "strstr_dotdot (map clean_byte s) = strstr_dotdot s"
proof -
  have "sublist [0x2E, 0x2E] (map clean_byte s) \<longleftrightarrow> sublist [0x2E, 0x2E] s"
    by (induction s) (auto simp: sublist_Cons_right Cons_prefix_Cons clean_byte_dot prefix_Cons
        dest!: sym[of "_ # _" "map clean_byte _"] simp: Cons_eq_map_conv prefix_def map_eq_Cons_conv)
  then show ?thesis by (simp add: strstr_dotdot_def)
qed

lemma sublist_strstr: "sublist t s \<Longrightarrow> strstr_dotdot t \<Longrightarrow> strstr_dotdot s"
  unfolding strstr_dotdot_def by (meson sublist_order.order_trans)

lemma strip_leading_suffix: "\<exists>p. s = p @ strip_leading s \<and> (\<forall>c\<in>set p. c = 0x20 \<or> c = 0x2F)"
  unfolding strip_leading_def
  by (rule exI[of _ "takeWhile (\<lambda>c. c = 0x20 \<or> c = 0x2F) s"]) (auto dest: set_takeWhileD)

lemma sanitize_name_ok:
  assumes "sanitize_name (Some s) max_len = (Some t, 1)"
  obtains u where "u = strip_leading (map clean_byte s)" "t = take (strip_trailing u (length u)) u"
    "strip_trailing u (length u) \<noteq> 0" "\<not> strstr_dotdot s" "utf8_validate s"
    "max_len > 0 \<longrightarrow> int (length s) \<le> max_len"
proof -
  obtain v where v: "sanitize_copy max_len [] s = Inr v" "\<not> strstr_dotdot s" "utf8_validate s"
    using assms by (auto simp: sanitize_name_def split: if_splits sum.splits)
  have vv: "v = map clean_byte s" using sanitize_copy_ok[OF v(1)] by simp
  have "max_len > 0 \<longrightarrow> int (length s) \<le> max_len"
    using sanitize_copy_bound[OF v(1)] vv by auto
  then show ?thesis
    using assms v vv by (intro that) (auto simp: sanitize_name_def Let_def split: if_splits)
qed


lemma sanitize_name_post:
  assumes "sanitize_name (Some s) max_len = (Some t, 1)"
  shows "t \<noteq> [] \<and> list_all (\<lambda>c. \<not> is_forbidden_ascii c) t \<and> \<not> strstr_dotdot t \<and> utf8_validate t
    \<and> hd t \<noteq> 0x20 \<and> last t \<noteq> 0x2E \<and> last t \<noteq> 0x20
    \<and> length t \<le> length s \<and> (max_len > 0 \<longrightarrow> int (length t) \<le> max_len)"
proof -
  obtain u where u: "u = strip_leading (map clean_byte s)" "t = take (strip_trailing u (length u)) u"
    "strip_trailing u (length u) \<noteq> 0" "\<not> strstr_dotdot s" "utf8_validate s"
    "max_len > 0 \<longrightarrow> int (length s) \<le> max_len"
    using assms by (rule sanitize_name_ok)
  let ?wi = "strip_trailing u (length u)"
  obtain p where p: "map clean_byte s = p @ u"
    using strip_leading_suffix[of "map clean_byte s"] u(1) by blast
  have wi: "?wi \<le> length u" by (rule strip_trailing_le)
  have len_u: "length u \<le> length s" using arg_cong[OF p, of length] by simp
  have ne: "t \<noteq> []" using u(2,3) wi by auto
  have set_t: "set t \<subseteq> clean_byte ` set s"
    using u(2) arg_cong[OF p, of set] by (auto dest: in_set_takeD)
  have nth: "t ! (length t - 1) = u ! (?wi - 1)" using u(2,3) wi by simp
  have last: "last t \<noteq> 0x2E \<and> last t \<noteq> 0x20"
    using strip_trailing_last[OF u(3)] nth ne by (simp add: last_conv_nth)
  have hd: "hd t \<noteq> 0x20"
  proof -
    have "u \<noteq> []" using ne u(2) by auto
    moreover have "hd t = hd u" using u(2,3) by (cases u) (auto simp: take_Cons')
    ultimately show ?thesis
      using hd_dropWhile[of "\<lambda>c. c = 0x20 \<or> c = 0x2F" "map clean_byte s"] u(1)
      by (auto simp: strip_leading_def)
  qed
  have ascii: "\<forall>c\<in>set (drop ?wi u). \<not> bit c 7"
  proof
    fix c assume "c \<in> set (drop ?wi u)"
    then obtain i where "i < length u - ?wi" "c = u ! (?wi + i)"
      by (auto simp: in_set_conv_nth)
    then have "c = 0x2E \<or> c = 0x20"
      using strip_trailing_dropped[of u "length u" "?wi + i"] by auto
    then show "\<not> bit c 7" by auto
  qed
  have "utf8_validate t = utf8_validate u"
    using validate_append_ascii[OF ascii, of t] u(2) by simp
  then have valid: "utf8_validate t"
    using u(1,5) by (simp add: validate_strip_leading validate_clean)
  have "sublist t (map clean_byte s)"
    unfolding p u(2) using sublist_appendI[of "take ?wi u" p "drop ?wi u"] by simp
  then have "\<not> strstr_dotdot t"
    using sublist_strstr u(4) clean_dotdot by blast
  moreover have "length t \<le> length s" using u(2) wi len_u by simp
  moreover have "list_all (\<lambda>c. \<not> is_forbidden_ascii c) t"
    using set_t clean_byte_not_forbidden by (auto simp: list_all_iff)
  ultimately show ?thesis using ne last hd valid u(6) by auto
qed

lemma strip_trailing_fixed:
  "s \<noteq> [] \<Longrightarrow> last s \<noteq> 0x2E \<Longrightarrow> last s \<noteq> 0x20 \<Longrightarrow> strip_trailing s (length s) = length s"
  by (cases s rule: rev_cases) auto


text \<open>A name that already meets the postcondition is left as it is.\<close>

lemma sanitize_copy_id:
  "list_all (\<lambda>c. \<not> is_forbidden_ascii c) s \<Longrightarrow> max_len > 0 \<longrightarrow> int (length out + length s) \<le> max_len \<Longrightarrow>
    sanitize_copy max_len out s = Inr (out @ s)"
  by (induction s arbitrary: out) (auto simp: clean_byte_id)


section \<open>The real path check hangs when it should look further\<close>

lemma check_realpath_loop_result:
  assumes "check_realpath_loop r p i = Some v"
  shows "at r i = 0 \<and> v = 1 \<or> at r i \<noteq> 0 \<and> at r i \<noteq> at p i \<and> v = 0"
proof (rule check_realpath_loop.raw_induct[of "\<lambda>r p i v. at r i = 0 \<and> v = 1 \<or> at r i \<noteq> 0 \<and> at r i \<noteq> at p i \<and> v = 0",
      OF _ assms])
  fix f r p i v
  assume IH: "\<And>r p i v. f r p i = Some v \<Longrightarrow> at r i = 0 \<and> v = 1 \<or> at r i \<noteq> 0 \<and> at r i \<noteq> at p i \<and> v = (0 :: int)"
    and step: "(if at r i \<noteq> 0 then if at r i \<noteq> at p i then Some 0 else f r p i else Some 1) = Some v"
  show "at r i = 0 \<and> v = 1 \<or> at r i \<noteq> 0 \<and> at r i \<noteq> at p i \<and> v = 0"
    using step IH[of r p i v] by (simp split: if_splits)
qed

section \<open>Properties\<close>

text \<open>C30. The validator accepts exactly the strings that are a sequence of canonical UTF-8 encodings,
  as \<open>utf8_encode\<close> of \<open>src/usbstring.c\<close> writes them, of Unicode scalar values: no overlong form,
  no surrogate, nothing above 0x10FFFF, no truncated sequence.\<close>

theorem utf8_validate_iff:
  "utf8_validate s \<longleftrightarrow> (\<exists>us. list_all scalar us \<and> s = concat (map utf8_encode us))"
proof
  show "utf8_validate s \<Longrightarrow> \<exists>us. list_all scalar us \<and> s = concat (map utf8_encode us)"
  proof (induction "length s" arbitrary: s rule: less_induct)
    case less
    show ?case
    proof (cases s)
      case Nil
      then show ?thesis by (intro exI[of _ "[]"]) simp
    next
      case (Cons c t)
      then obtain w s' where w: "scalar w" "s = utf8_encode w @ s'" "utf8_validate s'"
        using validate_decode less.prems by blast
      have "utf8_encode w \<noteq> []"
        using w(1) by (auto simp: utf8_encode_def scalar_def)
      then obtain us where "list_all scalar us" "s' = concat (map utf8_encode us)"
        using less.hyps[of s'] w by auto
      then show ?thesis using w by (intro exI[of _ "w # us"]) simp
    qed
  qed
next
  have "list_all scalar us \<Longrightarrow> utf8_validate (concat (map utf8_encode us))" for us
    by (induction us) (simp_all add: validate_encode)
  then show "\<exists>us. list_all scalar us \<and> s = concat (map utf8_encode us) \<Longrightarrow> utf8_validate s"
    by blast
qed

lemma sanitize_example:
  "sanitize_name (Some [0x20, 0x61, 0x2F, 0x62, 0x2A, 0x2E, 0x20]) 64 = (Some [0x61, 0x5F, 0x62, 0x5F], 1)"
proof -
  have "\<not> strstr_dotdot [0x20, 0x61, 0x2F, 0x62, 0x2A, 0x2E, 0x20]"
    by code_simp
  moreover have "utf8_validate [0x20, 0x61, 0x2F, 0x62, 0x2A, 0x2E, 0x20]"
    by simp
  moreover have "sanitize_copy 64 [] [0x20, 0x61, 0x2F, 0x62, 0x2A, 0x2E, 0x20]
      = Inr [0x20, 0x61, 0x5F, 0x62, 0x5F, 0x2E, 0x20]"
    by code_simp
  moreover have "strip_leading [0x20, 0x61, 0x5F, 0x62, 0x5F, 0x2E, 0x20] = [0x61, 0x5F, 0x62, 0x5F, 0x2E, 0x20]"
    by code_simp
  moreover have "strip_trailing [0x61, 0x5F, 0x62, 0x5F, 0x2E, 0x20]
      (length [0x61, 0x5F, 0x62, 0x5F, 0x2E, 0x20 :: byte]) = 4"
    by code_simp
  ultimately show ?thesis by (simp add: sanitize_name_def Let_def)
qed

lemma sanitize_example2: "sanitize_name (Some [0x62]) 257 = (Some [0x62], 1)"
proof -
  have "\<not> strstr_dotdot [0x62]" "strip_leading [0x62] = [0x62]" "strip_trailing [0x62] 1 = 1" "clean_byte 0x62 = 0x62"
    by code_simp+
  then show ?thesis by (simp add: sanitize_name_def Let_def)
qed

text \<open>C7. A name that \<open>sanitize_name\<close> accepts is one harmless, non-empty path component: no
  forbidden or control character (so no slash), no "..", still valid UTF-8, no space at either
  end, no dot at the end, no longer than the input and, where a limit is given, than the limit.\<close>

theorem sanitize_name_safe:
  assumes "sanitize_name (Some s) max_len = (Some t, 1)"
  shows "t \<noteq> [] \<and> list_all (\<lambda>c. \<not> is_forbidden_ascii c) t \<and> 0x2F \<notin> set t \<and> \<not> strstr_dotdot t
    \<and> utf8_validate t \<and> hd t \<noteq> 0x20 \<and> last t \<noteq> 0x2E \<and> last t \<noteq> 0x20
    \<and> length t \<le> length s \<and> (max_len \<le> 0 \<or> int (length t) \<le> max_len)"
proof -
  have "is_forbidden_ascii 0x2F" by (simp add: is_forbidden_ascii_def)
  then have "0x2F \<notin> set t" using sanitize_name_post[OF assms] by (force simp only: list_all_iff)
  then show ?thesis using sanitize_name_post[OF assms] by (simp only: not_less[symmetric]) blast
qed

theorem sanitize_name_safe_witness:
  "0x2F \<notin> set [0x61, 0x5F, 0x62, 0x5F :: byte] \<and>
   length [0x61, 0x5F, 0x62, 0x5F :: byte] \<le> length [0x20, 0x61, 0x2F, 0x62, 0x2A, 0x2E, 0x20 :: byte] \<and>
   sanitize_name (Some [0x20, 0x61, 0x2F, 0x62, 0x2A, 0x2E, 0x20]) 64 = (Some [0x61, 0x5F, 0x62, 0x5F], 1)"
  using sanitize_name_safe[OF sanitize_example] sanitize_example by blast

text \<open>Sanitising is idempotent: a name it accepts is accepted again, unchanged.\<close>

theorem sanitize_name_idempotent:
  assumes "sanitize_name (Some s) max_len = (Some t, 1)"
  shows "sanitize_name (Some t) max_len = (Some t, 1)"
proof -
  note safe = sanitize_name_post[OF assms]
  have "strip_leading t = t"
    using safe by (cases t) (auto simp: strip_leading_def is_forbidden_ascii_def)
  moreover have "strip_trailing t (length t) = length t"
    using safe by (intro strip_trailing_fixed) auto
  ultimately show ?thesis
    using safe sanitize_copy_id[of t max_len "[]"] by (auto simp: sanitize_name_def Let_def)
qed

theorem sanitize_name_idempotent_witness:
  "sanitize_name (Some [0x61, 0x5F, 0x62, 0x5F]) 64 = (Some [0x61, 0x5F, 0x62, 0x5F], 1)"
  by (rule sanitize_name_idempotent[OF sanitize_example])

text \<open>\<open>check_realpath\<close> decides on the first byte alone: it accepts an empty root, rejects a
  path whose real path starts with another byte, and in the remaining case, which every path
  below the root is in, its loop never ends, since the index is never advanced.\<close>

theorem check_realpath_results:
  "check_realpath realpath rootpath pathtocheck =
    (case realpath pathtocheck of
       None \<Rightarrow> Some 0
     | Some realp \<Rightarrow>
         if at rootpath 0 = 0 then Some 1
         else if at rootpath 0 \<noteq> at realp 0 then Some 0
         else None)"
proof (cases "realpath pathtocheck")
  case (Some realp)
  have "check_realpath_loop rootpath realp 0 = None"
    if "at rootpath 0 \<noteq> 0" "at rootpath 0 = at realp 0"
    using check_realpath_loop_result[of rootpath realp 0] that
    by (cases "check_realpath_loop rootpath realp 0") auto
  moreover have "at rootpath 0 = 0 \<Longrightarrow> check_realpath_loop rootpath realp 0 = Some 1"
    "at rootpath 0 \<noteq> 0 \<Longrightarrow> at rootpath 0 \<noteq> at realp 0 \<Longrightarrow> check_realpath_loop rootpath realp 0 = Some 0"
    by (subst check_realpath_loop.simps, simp)+
  ultimately show ?thesis
    using Some by (simp add: check_realpath_def)
qed (simp add: check_realpath_def)

end
