(* ===== verification/Constants.thy ===== *)
theory Constants
  imports Prelude
begin

text \<open>
  The MTP codes of \<open>inc/mtp_constant.h\<close> the responder uses, under the names of the source, as
  numerals at the width of their use, and the errno values of \<open>posix_to_mtp_errcode\<close> in
  \<open>src/mtp_helpers.c\<close>.
\<close>

section \<open>MTP codes\<close>

abbreviation (input) MTP_CONTAINER_TYPE_COMMAND :: "'a::numeral" where "MTP_CONTAINER_TYPE_COMMAND \<equiv> 1"
abbreviation (input) MTP_CONTAINER_TYPE_DATA :: "'a::numeral" where "MTP_CONTAINER_TYPE_DATA \<equiv> 2"
abbreviation (input) MTP_CONTAINER_TYPE_RESPONSE :: "'a::numeral" where "MTP_CONTAINER_TYPE_RESPONSE \<equiv> 3"
abbreviation (input) MTP_CONTAINER_TYPE_EVENT :: "'a::numeral" where "MTP_CONTAINER_TYPE_EVENT \<equiv> 4"
abbreviation (input) MTP_TYPE_UINT8 :: "'a::numeral" where "MTP_TYPE_UINT8 \<equiv> 0x0002"
abbreviation (input) MTP_TYPE_UINT16 :: "'a::numeral" where "MTP_TYPE_UINT16 \<equiv> 0x0004"
abbreviation (input) MTP_TYPE_UINT32 :: "'a::numeral" where "MTP_TYPE_UINT32 \<equiv> 0x0006"
abbreviation (input) MTP_TYPE_UINT64 :: "'a::numeral" where "MTP_TYPE_UINT64 \<equiv> 0x0008"
abbreviation (input) MTP_TYPE_UINT128 :: "'a::numeral" where "MTP_TYPE_UINT128 \<equiv> 0x000A"
abbreviation (input) MTP_TYPE_STR :: "'a::numeral" where "MTP_TYPE_STR \<equiv> 0xFFFF"
abbreviation (input) MTP_FORMAT_UNDEFINED :: "'a::numeral" where "MTP_FORMAT_UNDEFINED \<equiv> 0x3000"
abbreviation (input) MTP_FORMAT_ASSOCIATION :: "'a::numeral" where "MTP_FORMAT_ASSOCIATION \<equiv> 0x3001"
abbreviation (input) MTP_FORMAT_TEXT :: "'a::numeral" where "MTP_FORMAT_TEXT \<equiv> 0x3004"
abbreviation (input) MTP_FORMAT_HTML :: "'a::numeral" where "MTP_FORMAT_HTML \<equiv> 0x3005"
abbreviation (input) MTP_FORMAT_AIFF :: "'a::numeral" where "MTP_FORMAT_AIFF \<equiv> 0x3007"
abbreviation (input) MTP_FORMAT_WAV :: "'a::numeral" where "MTP_FORMAT_WAV \<equiv> 0x3008"
abbreviation (input) MTP_FORMAT_MP3 :: "'a::numeral" where "MTP_FORMAT_MP3 \<equiv> 0x3009"
abbreviation (input) MTP_FORMAT_AVI :: "'a::numeral" where "MTP_FORMAT_AVI \<equiv> 0x300A"
abbreviation (input) MTP_FORMAT_MPEG :: "'a::numeral" where "MTP_FORMAT_MPEG \<equiv> 0x300B"
abbreviation (input) MTP_FORMAT_ASF :: "'a::numeral" where "MTP_FORMAT_ASF \<equiv> 0x300C"
abbreviation (input) MTP_FORMAT_EXIF_JPEG :: "'a::numeral" where "MTP_FORMAT_EXIF_JPEG \<equiv> 0x3801"
abbreviation (input) MTP_FORMAT_BMP :: "'a::numeral" where "MTP_FORMAT_BMP \<equiv> 0x3804"
abbreviation (input) MTP_FORMAT_GIF :: "'a::numeral" where "MTP_FORMAT_GIF \<equiv> 0x3807"
abbreviation (input) MTP_FORMAT_JFIF :: "'a::numeral" where "MTP_FORMAT_JFIF \<equiv> 0x3808"
abbreviation (input) MTP_FORMAT_WMA :: "'a::numeral" where "MTP_FORMAT_WMA \<equiv> 0xB901"
abbreviation (input) MTP_FORMAT_OGG :: "'a::numeral" where "MTP_FORMAT_OGG \<equiv> 0xB902"
abbreviation (input) MTP_FORMAT_AAC :: "'a::numeral" where "MTP_FORMAT_AAC \<equiv> 0xB903"
abbreviation (input) MTP_FORMAT_FLAC :: "'a::numeral" where "MTP_FORMAT_FLAC \<equiv> 0xB906"
abbreviation (input) MTP_FORMAT_MP4_CONTAINER :: "'a::numeral" where "MTP_FORMAT_MP4_CONTAINER \<equiv> 0xB982"
abbreviation (input) MTP_FORMAT_3GP_CONTAINER :: "'a::numeral" where "MTP_FORMAT_3GP_CONTAINER \<equiv> 0xB984"
abbreviation (input) MTP_FORMAT_ABSTRACT_AV_PLAYLIST :: "'a::numeral" where "MTP_FORMAT_ABSTRACT_AV_PLAYLIST \<equiv> 0xBA05"
abbreviation (input) MTP_FORMAT_WPL_PLAYLIST :: "'a::numeral" where "MTP_FORMAT_WPL_PLAYLIST \<equiv> 0xBA10"
abbreviation (input) MTP_FORMAT_M3U_PLAYLIST :: "'a::numeral" where "MTP_FORMAT_M3U_PLAYLIST \<equiv> 0xBA11"
abbreviation (input) MTP_FORMAT_PLS_PLAYLIST :: "'a::numeral" where "MTP_FORMAT_PLS_PLAYLIST \<equiv> 0xBA14"
abbreviation (input) MTP_FORMAT_XML_DOCUMENT :: "'a::numeral" where "MTP_FORMAT_XML_DOCUMENT \<equiv> 0xBA82"
abbreviation (input) MTP_FORMAT_MS_WORD_DOCUMENT :: "'a::numeral" where "MTP_FORMAT_MS_WORD_DOCUMENT \<equiv> 0xBA83"
abbreviation (input) MTP_FORMAT_MS_EXCEL_SPREADSHEET :: "'a::numeral" where "MTP_FORMAT_MS_EXCEL_SPREADSHEET \<equiv> 0xBA85"
abbreviation (input) MTP_FORMAT_MS_POWERPOINT_PRESENTATION :: "'a::numeral" where "MTP_FORMAT_MS_POWERPOINT_PRESENTATION \<equiv> 0xBA86"
abbreviation (input) MTP_PROPERTY_STORAGE_ID :: "'a::numeral" where "MTP_PROPERTY_STORAGE_ID \<equiv> 0xDC01"
abbreviation (input) MTP_PROPERTY_OBJECT_FORMAT :: "'a::numeral" where "MTP_PROPERTY_OBJECT_FORMAT \<equiv> 0xDC02"
abbreviation (input) MTP_PROPERTY_PROTECTION_STATUS :: "'a::numeral" where "MTP_PROPERTY_PROTECTION_STATUS \<equiv> 0xDC03"
abbreviation (input) MTP_PROPERTY_OBJECT_SIZE :: "'a::numeral" where "MTP_PROPERTY_OBJECT_SIZE \<equiv> 0xDC04"
abbreviation (input) MTP_PROPERTY_ASSOCIATION_TYPE :: "'a::numeral" where "MTP_PROPERTY_ASSOCIATION_TYPE \<equiv> 0xDC05"
abbreviation (input) MTP_PROPERTY_ASSOCIATION_DESC :: "'a::numeral" where "MTP_PROPERTY_ASSOCIATION_DESC \<equiv> 0xDC06"
abbreviation (input) MTP_PROPERTY_OBJECT_FILE_NAME :: "'a::numeral" where "MTP_PROPERTY_OBJECT_FILE_NAME \<equiv> 0xDC07"
abbreviation (input) MTP_PROPERTY_DATE_CREATED :: "'a::numeral" where "MTP_PROPERTY_DATE_CREATED \<equiv> 0xDC08"
abbreviation (input) MTP_PROPERTY_DATE_MODIFIED :: "'a::numeral" where "MTP_PROPERTY_DATE_MODIFIED \<equiv> 0xDC09"
abbreviation (input) MTP_PROPERTY_PARENT_OBJECT :: "'a::numeral" where "MTP_PROPERTY_PARENT_OBJECT \<equiv> 0xDC0B"
abbreviation (input) MTP_PROPERTY_HIDDEN :: "'a::numeral" where "MTP_PROPERTY_HIDDEN \<equiv> 0xDC0D"
abbreviation (input) MTP_PROPERTY_SYSTEM_OBJECT :: "'a::numeral" where "MTP_PROPERTY_SYSTEM_OBJECT \<equiv> 0xDC0E"
abbreviation (input) MTP_PROPERTY_PERSISTENT_UID :: "'a::numeral" where "MTP_PROPERTY_PERSISTENT_UID \<equiv> 0xDC41"
abbreviation (input) MTP_PROPERTY_NAME :: "'a::numeral" where "MTP_PROPERTY_NAME \<equiv> 0xDC44"
abbreviation (input) MTP_PROPERTY_ARTIST :: "'a::numeral" where "MTP_PROPERTY_ARTIST \<equiv> 0xDC46"
abbreviation (input) MTP_PROPERTY_DATE_AUTHORED :: "'a::numeral" where "MTP_PROPERTY_DATE_AUTHORED \<equiv> 0xDC47"
abbreviation (input) MTP_PROPERTY_DESCRIPTION :: "'a::numeral" where "MTP_PROPERTY_DESCRIPTION \<equiv> 0xDC48"
abbreviation (input) MTP_PROPERTY_WIDTH :: "'a::numeral" where "MTP_PROPERTY_WIDTH \<equiv> 0xDC87"
abbreviation (input) MTP_PROPERTY_HEIGHT :: "'a::numeral" where "MTP_PROPERTY_HEIGHT \<equiv> 0xDC88"
abbreviation (input) MTP_PROPERTY_DURATION :: "'a::numeral" where "MTP_PROPERTY_DURATION \<equiv> 0xDC89"
abbreviation (input) MTP_PROPERTY_TRACK :: "'a::numeral" where "MTP_PROPERTY_TRACK \<equiv> 0xDC8B"
abbreviation (input) MTP_PROPERTY_GENRE :: "'a::numeral" where "MTP_PROPERTY_GENRE \<equiv> 0xDC8C"
abbreviation (input) MTP_PROPERTY_COMPOSER :: "'a::numeral" where "MTP_PROPERTY_COMPOSER \<equiv> 0xDC96"
abbreviation (input) MTP_PROPERTY_ORIGINAL_RELEASE_DATE :: "'a::numeral" where "MTP_PROPERTY_ORIGINAL_RELEASE_DATE \<equiv> 0xDC99"
abbreviation (input) MTP_PROPERTY_ALBUM_NAME :: "'a::numeral" where "MTP_PROPERTY_ALBUM_NAME \<equiv> 0xDC9A"
abbreviation (input) MTP_PROPERTY_ALBUM_ARTIST :: "'a::numeral" where "MTP_PROPERTY_ALBUM_ARTIST \<equiv> 0xDC9B"
abbreviation (input) MTP_PROPERTY_BITRATE_TYPE :: "'a::numeral" where "MTP_PROPERTY_BITRATE_TYPE \<equiv> 0xDE92"
abbreviation (input) MTP_PROPERTY_SAMPLE_RATE :: "'a::numeral" where "MTP_PROPERTY_SAMPLE_RATE \<equiv> 0xDE93"
abbreviation (input) MTP_PROPERTY_NUMBER_OF_CHANNELS :: "'a::numeral" where "MTP_PROPERTY_NUMBER_OF_CHANNELS \<equiv> 0xDE94"
abbreviation (input) MTP_PROPERTY_AUDIO_WAVE_CODEC :: "'a::numeral" where "MTP_PROPERTY_AUDIO_WAVE_CODEC \<equiv> 0xDE99"
abbreviation (input) MTP_PROPERTY_AUDIO_BITRATE :: "'a::numeral" where "MTP_PROPERTY_AUDIO_BITRATE \<equiv> 0xDE9A"
abbreviation (input) MTP_PROPERTY_DISPLAY_NAME :: "'a::numeral" where "MTP_PROPERTY_DISPLAY_NAME \<equiv> 0xDCE0"
abbreviation (input) MTP_DEVICE_PROPERTY_BATTERY_LEVEL :: "'a::numeral" where "MTP_DEVICE_PROPERTY_BATTERY_LEVEL \<equiv> 0x5001"
abbreviation (input) MTP_DEVICE_PROPERTY_IMAGE_SIZE :: "'a::numeral" where "MTP_DEVICE_PROPERTY_IMAGE_SIZE \<equiv> 0x5003"
abbreviation (input) MTP_DEVICE_PROPERTY_SYNCHRONIZATION_PARTNER :: "'a::numeral" where "MTP_DEVICE_PROPERTY_SYNCHRONIZATION_PARTNER \<equiv> 0xD401"
abbreviation (input) MTP_DEVICE_PROPERTY_DEVICE_FRIENDLY_NAME :: "'a::numeral" where "MTP_DEVICE_PROPERTY_DEVICE_FRIENDLY_NAME \<equiv> 0xD402"
abbreviation (input) MTP_DEVICE_PROPERTY_PERCEIVED_DEVICE_TYPE :: "'a::numeral" where "MTP_DEVICE_PROPERTY_PERCEIVED_DEVICE_TYPE \<equiv> 0xD407"
abbreviation (input) MTP_OPERATION_GET_DEVICE_INFO :: "'a::numeral" where "MTP_OPERATION_GET_DEVICE_INFO \<equiv> 0x1001"
abbreviation (input) MTP_OPERATION_OPEN_SESSION :: "'a::numeral" where "MTP_OPERATION_OPEN_SESSION \<equiv> 0x1002"
abbreviation (input) MTP_OPERATION_CLOSE_SESSION :: "'a::numeral" where "MTP_OPERATION_CLOSE_SESSION \<equiv> 0x1003"
abbreviation (input) MTP_OPERATION_GET_STORAGE_IDS :: "'a::numeral" where "MTP_OPERATION_GET_STORAGE_IDS \<equiv> 0x1004"
abbreviation (input) MTP_OPERATION_GET_STORAGE_INFO :: "'a::numeral" where "MTP_OPERATION_GET_STORAGE_INFO \<equiv> 0x1005"
abbreviation (input) MTP_OPERATION_GET_NUM_OBJECTS :: "'a::numeral" where "MTP_OPERATION_GET_NUM_OBJECTS \<equiv> 0x1006"
abbreviation (input) MTP_OPERATION_GET_OBJECT_HANDLES :: "'a::numeral" where "MTP_OPERATION_GET_OBJECT_HANDLES \<equiv> 0x1007"
abbreviation (input) MTP_OPERATION_GET_OBJECT_INFO :: "'a::numeral" where "MTP_OPERATION_GET_OBJECT_INFO \<equiv> 0x1008"
abbreviation (input) MTP_OPERATION_GET_OBJECT :: "'a::numeral" where "MTP_OPERATION_GET_OBJECT \<equiv> 0x1009"
abbreviation (input) MTP_OPERATION_GET_THUMB :: "'a::numeral" where "MTP_OPERATION_GET_THUMB \<equiv> 0x100A"
abbreviation (input) MTP_OPERATION_DELETE_OBJECT :: "'a::numeral" where "MTP_OPERATION_DELETE_OBJECT \<equiv> 0x100B"
abbreviation (input) MTP_OPERATION_SEND_OBJECT_INFO :: "'a::numeral" where "MTP_OPERATION_SEND_OBJECT_INFO \<equiv> 0x100C"
abbreviation (input) MTP_OPERATION_SEND_OBJECT :: "'a::numeral" where "MTP_OPERATION_SEND_OBJECT \<equiv> 0x100D"
abbreviation (input) MTP_OPERATION_GET_DEVICE_PROP_DESC :: "'a::numeral" where "MTP_OPERATION_GET_DEVICE_PROP_DESC \<equiv> 0x1014"
abbreviation (input) MTP_OPERATION_GET_DEVICE_PROP_VALUE :: "'a::numeral" where "MTP_OPERATION_GET_DEVICE_PROP_VALUE \<equiv> 0x1015"
abbreviation (input) MTP_OPERATION_SET_DEVICE_PROP_VALUE :: "'a::numeral" where "MTP_OPERATION_SET_DEVICE_PROP_VALUE \<equiv> 0x1016"
abbreviation (input) MTP_OPERATION_RESET_DEVICE_PROP_VALUE :: "'a::numeral" where "MTP_OPERATION_RESET_DEVICE_PROP_VALUE \<equiv> 0x1017"
abbreviation (input) MTP_OPERATION_GET_PARTIAL_OBJECT :: "'a::numeral" where "MTP_OPERATION_GET_PARTIAL_OBJECT \<equiv> 0x101B"
abbreviation (input) MTP_OPERATION_GET_OBJECT_PROPS_SUPPORTED :: "'a::numeral" where "MTP_OPERATION_GET_OBJECT_PROPS_SUPPORTED \<equiv> 0x9801"
abbreviation (input) MTP_OPERATION_GET_OBJECT_PROP_DESC :: "'a::numeral" where "MTP_OPERATION_GET_OBJECT_PROP_DESC \<equiv> 0x9802"
abbreviation (input) MTP_OPERATION_GET_OBJECT_PROP_VALUE :: "'a::numeral" where "MTP_OPERATION_GET_OBJECT_PROP_VALUE \<equiv> 0x9803"
abbreviation (input) MTP_OPERATION_SET_OBJECT_PROP_VALUE :: "'a::numeral" where "MTP_OPERATION_SET_OBJECT_PROP_VALUE \<equiv> 0x9804"
abbreviation (input) MTP_OPERATION_GET_OBJECT_PROP_LIST :: "'a::numeral" where "MTP_OPERATION_GET_OBJECT_PROP_LIST \<equiv> 0x9805"
abbreviation (input) MTP_OPERATION_GET_OBJECT_REFERENCES :: "'a::numeral" where "MTP_OPERATION_GET_OBJECT_REFERENCES \<equiv> 0x9810"
abbreviation (input) MTP_OPERATION_SET_OBJECT_REFERENCES :: "'a::numeral" where "MTP_OPERATION_SET_OBJECT_REFERENCES \<equiv> 0x9811"
abbreviation (input) MTP_OPERATION_GET_PARTIAL_OBJECT_64 :: "'a::numeral" where "MTP_OPERATION_GET_PARTIAL_OBJECT_64 \<equiv> 0x95C1"
abbreviation (input) MTP_OPERATION_SEND_PARTIAL_OBJECT :: "'a::numeral" where "MTP_OPERATION_SEND_PARTIAL_OBJECT \<equiv> 0x95C2"
abbreviation (input) MTP_OPERATION_TRUNCATE_OBJECT :: "'a::numeral" where "MTP_OPERATION_TRUNCATE_OBJECT \<equiv> 0x95C3"
abbreviation (input) MTP_OPERATION_BEGIN_EDIT_OBJECT :: "'a::numeral" where "MTP_OPERATION_BEGIN_EDIT_OBJECT \<equiv> 0x95C4"
abbreviation (input) MTP_OPERATION_END_EDIT_OBJECT :: "'a::numeral" where "MTP_OPERATION_END_EDIT_OBJECT \<equiv> 0x95C5"
abbreviation (input) MTP_RESPONSE_OK :: "'a::numeral" where "MTP_RESPONSE_OK \<equiv> 0x2001"
abbreviation (input) MTP_RESPONSE_GENERAL_ERROR :: "'a::numeral" where "MTP_RESPONSE_GENERAL_ERROR \<equiv> 0x2002"
abbreviation (input) MTP_RESPONSE_SESSION_NOT_OPEN :: "'a::numeral" where "MTP_RESPONSE_SESSION_NOT_OPEN \<equiv> 0x2003"
abbreviation (input) MTP_RESPONSE_OPERATION_NOT_SUPPORTED :: "'a::numeral" where "MTP_RESPONSE_OPERATION_NOT_SUPPORTED \<equiv> 0x2005"
abbreviation (input) MTP_RESPONSE_PARAMETER_NOT_SUPPORTED :: "'a::numeral" where "MTP_RESPONSE_PARAMETER_NOT_SUPPORTED \<equiv> 0x2006"
abbreviation (input) MTP_RESPONSE_INCOMPLETE_TRANSFER :: "'a::numeral" where "MTP_RESPONSE_INCOMPLETE_TRANSFER \<equiv> 0x2007"
abbreviation (input) MTP_RESPONSE_INVALID_STORAGE_ID :: "'a::numeral" where "MTP_RESPONSE_INVALID_STORAGE_ID \<equiv> 0x2008"
abbreviation (input) MTP_RESPONSE_INVALID_OBJECT_HANDLE :: "'a::numeral" where "MTP_RESPONSE_INVALID_OBJECT_HANDLE \<equiv> 0x2009"
abbreviation (input) MTP_RESPONSE_DEVICE_PROP_NOT_SUPPORTED :: "'a::numeral" where "MTP_RESPONSE_DEVICE_PROP_NOT_SUPPORTED \<equiv> 0x200A"
abbreviation (input) MTP_RESPONSE_STORAGE_FULL :: "'a::numeral" where "MTP_RESPONSE_STORAGE_FULL \<equiv> 0x200C"
abbreviation (input) MTP_RESPONSE_OBJECT_WRITE_PROTECTED :: "'a::numeral" where "MTP_RESPONSE_OBJECT_WRITE_PROTECTED \<equiv> 0x200D"
abbreviation (input) MTP_RESPONSE_STORE_READ_ONLY :: "'a::numeral" where "MTP_RESPONSE_STORE_READ_ONLY \<equiv> 0x200E"
abbreviation (input) MTP_RESPONSE_ACCESS_DENIED :: "'a::numeral" where "MTP_RESPONSE_ACCESS_DENIED \<equiv> 0x200F"
abbreviation (input) MTP_RESPONSE_PARTIAL_DELETION :: "'a::numeral" where "MTP_RESPONSE_PARTIAL_DELETION \<equiv> 0x2012"
abbreviation (input) MTP_RESPONSE_STORE_NOT_AVAILABLE :: "'a::numeral" where "MTP_RESPONSE_STORE_NOT_AVAILABLE \<equiv> 0x2013"
abbreviation (input) MTP_RESPONSE_SPECIFICATION_BY_FORMAT_UNSUPPORTED :: "'a::numeral" where "MTP_RESPONSE_SPECIFICATION_BY_FORMAT_UNSUPPORTED \<equiv> 0x2014"
abbreviation (input) MTP_RESPONSE_DEVICE_BUSY :: "'a::numeral" where "MTP_RESPONSE_DEVICE_BUSY \<equiv> 0x2019"
abbreviation (input) MTP_RESPONSE_INVALID_PARAMETER :: "'a::numeral" where "MTP_RESPONSE_INVALID_PARAMETER \<equiv> 0x201D"
abbreviation (input) MTP_RESPONSE_SESSION_ALREADY_OPEN :: "'a::numeral" where "MTP_RESPONSE_SESSION_ALREADY_OPEN \<equiv> 0x201E"
abbreviation (input) MTP_RESPONSE_INVALID_OBJECT_PROP_CODE :: "'a::numeral" where "MTP_RESPONSE_INVALID_OBJECT_PROP_CODE \<equiv> 0xA801"
abbreviation (input) MTP_RESPONSE_INVALID_DATASET :: "'a::numeral" where "MTP_RESPONSE_INVALID_DATASET \<equiv> 0xA806"
abbreviation (input) MTP_RESPONSE_NO_RESPONSE :: "'a::numeral" where "MTP_RESPONSE_NO_RESPONSE \<equiv> 0xFFFF"
abbreviation (input) MTP_EVENT_OBJECT_ADDED :: "'a::numeral" where "MTP_EVENT_OBJECT_ADDED \<equiv> 0x4002"
abbreviation (input) MTP_EVENT_OBJECT_REMOVED :: "'a::numeral" where "MTP_EVENT_OBJECT_REMOVED \<equiv> 0x4003"
abbreviation (input) MTP_EVENT_STORE_ADDED :: "'a::numeral" where "MTP_EVENT_STORE_ADDED \<equiv> 0x4004"
abbreviation (input) MTP_EVENT_STORE_REMOVED :: "'a::numeral" where "MTP_EVENT_STORE_REMOVED \<equiv> 0x4005"
abbreviation (input) MTP_EVENT_DEVICE_PROP_CHANGED :: "'a::numeral" where "MTP_EVENT_DEVICE_PROP_CHANGED \<equiv> 0x4006"
abbreviation (input) MTP_EVENT_OBJECT_INFO_CHANGED :: "'a::numeral" where "MTP_EVENT_OBJECT_INFO_CHANGED \<equiv> 0x4007"
abbreviation (input) MTP_EVENT_STORAGE_INFO_CHANGED :: "'a::numeral" where "MTP_EVENT_STORAGE_INFO_CHANGED \<equiv> 0x400C"
abbreviation (input) MTP_EVENT_OBJECT_PROP_CHANGED :: "'a::numeral" where "MTP_EVENT_OBJECT_PROP_CHANGED \<equiv> 0xC801"
abbreviation (input) MTP_STORAGE_FIXED_RAM :: "'a::numeral" where "MTP_STORAGE_FIXED_RAM \<equiv> 0x0003"
abbreviation (input) MTP_STORAGE_REMOVABLE_RAM :: "'a::numeral" where "MTP_STORAGE_REMOVABLE_RAM \<equiv> 0x0004"
abbreviation (input) MTP_STORAGE_FILESYSTEM_HIERARCHICAL :: "'a::numeral" where "MTP_STORAGE_FILESYSTEM_HIERARCHICAL \<equiv> 0x0002"
abbreviation (input) MTP_STORAGE_READ_WRITE :: "'a::zero" where "MTP_STORAGE_READ_WRITE \<equiv> 0"
abbreviation (input) MTP_STORAGE_READ_ONLY_WITHOUT_DELETE :: "'a::numeral" where "MTP_STORAGE_READ_ONLY_WITHOUT_DELETE \<equiv> 0x0001"
abbreviation (input) MTP_ASSOCIATION_TYPE_GENERIC_FOLDER :: "'a::numeral" where "MTP_ASSOCIATION_TYPE_GENERIC_FOLDER \<equiv> 0x0001"
abbreviation (input) MTP_REQ_CANCEL :: "'a::numeral" where "MTP_REQ_CANCEL \<equiv> 0x64"
abbreviation (input) MTP_REQ_RESET :: "'a::numeral" where "MTP_REQ_RESET \<equiv> 0x66"
abbreviation (input) MTP_REQ_GET_DEVICE_STATUS :: "'a::numeral" where "MTP_REQ_GET_DEVICE_STATUS \<equiv> 0x67"

section \<open>Storage and entry flags, \<open>inc/mtp.h\<close> and \<open>inc/fs_handles_db.h\<close>\<close>

abbreviation (input) UMTP_STORAGE_LOCKED :: "'a::numeral" where "UMTP_STORAGE_LOCKED \<equiv> 0x10"
abbreviation (input) UMTP_STORAGE_LOCKABLE :: "'a::numeral" where "UMTP_STORAGE_LOCKABLE \<equiv> 0x08"
abbreviation (input) UMTP_STORAGE_REMOVABLE :: "'a::numeral" where "UMTP_STORAGE_REMOVABLE \<equiv> 0x04"
abbreviation (input) UMTP_STORAGE_NOTMOUNTED :: "'a::numeral" where "UMTP_STORAGE_NOTMOUNTED \<equiv> 0x02"
abbreviation (input) UMTP_STORAGE_READONLY :: "'a::numeral" where "UMTP_STORAGE_READONLY \<equiv> 0x01"
abbreviation (input) UMTP_STORAGE_READWRITE :: "'a::zero" where "UMTP_STORAGE_READWRITE \<equiv> 0"
abbreviation (input) MAX_STORAGE_NB :: nat where "MAX_STORAGE_NB \<equiv> 16"
abbreviation (input) ENTRY_IS_DIR :: "'a::numeral" where "ENTRY_IS_DIR \<equiv> 0x01"
abbreviation (input) ENTRY_IS_DELETED :: "'a::numeral" where "ENTRY_IS_DELETED \<equiv> 0x02"
abbreviation (input) FS_HANDLE_MAX_FILENAME_SIZE :: int where "FS_HANDLE_MAX_FILENAME_SIZE \<equiv> 256"

section \<open>errno\<close>

text \<open>The codes \<open>posix_to_mtp_errcode\<close> distinguishes; \<open>E_OTHER\<close> is any other value.\<close>

datatype errno = EBUSY | ETXTBSY | EACCES | EPERM | EINPROGRESS | EAGAIN | EBADF | EBADFD | ENOENT
  | ECANCELED | EDQUOT | EEXIST | EFBIG | EHWPOISON | EINTR | EINVAL | EREMOTEIO | EIO | EISDIR
  | ELIBACC | ELIBBAD | ELIBSCN | ELIBMAX | ELIBEXEC | ENOEXEC | ENOPKG | ENOSYS | ENOTRECOVERABLE
  | ENOTSUP | EPIPE | ELOOP | EMEDIUMTYPE | EMFILE | EMLINK | ENOSPC | ENOMEM | ENAMETOOLONG | ENFILE
  | ENODEV | ENOLINK | ENOMEDIUM | ENOTBLK | ENOTDIR | ENOTEMPTY | EROFS | ESPIPE | ESTALE
  | E_OTHER int

definition posix_to_mtp_errcode :: "errno \<Rightarrow> u16" where
  "posix_to_mtp_errcode err =
    (case err of
       EBUSY \<Rightarrow> MTP_RESPONSE_DEVICE_BUSY
     | ETXTBSY \<Rightarrow> MTP_RESPONSE_DEVICE_BUSY
     | EACCES \<Rightarrow> MTP_RESPONSE_ACCESS_DENIED
     | EPERM \<Rightarrow> MTP_RESPONSE_ACCESS_DENIED
     | EINPROGRESS \<Rightarrow> MTP_RESPONSE_DEVICE_BUSY
     | EAGAIN \<Rightarrow> MTP_RESPONSE_DEVICE_BUSY
     | EBADF \<Rightarrow> MTP_RESPONSE_INVALID_OBJECT_HANDLE
     | EBADFD \<Rightarrow> MTP_RESPONSE_INVALID_OBJECT_HANDLE
     | ENOENT \<Rightarrow> MTP_RESPONSE_INVALID_OBJECT_HANDLE
     | ECANCELED \<Rightarrow> MTP_RESPONSE_INCOMPLETE_TRANSFER
     | EDQUOT \<Rightarrow> MTP_RESPONSE_STORAGE_FULL
     | EEXIST \<Rightarrow> MTP_RESPONSE_GENERAL_ERROR
     | EFBIG \<Rightarrow> MTP_RESPONSE_STORAGE_FULL
     | EINVAL \<Rightarrow> MTP_RESPONSE_INVALID_PARAMETER
     | EISDIR \<Rightarrow> MTP_RESPONSE_INVALID_PARAMETER
     | ELOOP \<Rightarrow> MTP_RESPONSE_INCOMPLETE_TRANSFER
     | EMEDIUMTYPE \<Rightarrow> MTP_RESPONSE_INVALID_OBJECT_HANDLE
     | EMFILE \<Rightarrow> MTP_RESPONSE_STORAGE_FULL
     | EMLINK \<Rightarrow> MTP_RESPONSE_STORAGE_FULL
     | ENOSPC \<Rightarrow> MTP_RESPONSE_STORAGE_FULL
     | ENAMETOOLONG \<Rightarrow> MTP_RESPONSE_INVALID_PARAMETER
     | ENODEV \<Rightarrow> MTP_RESPONSE_INVALID_PARAMETER
     | ENOLINK \<Rightarrow> MTP_RESPONSE_INVALID_OBJECT_HANDLE
     | ENOMEDIUM \<Rightarrow> MTP_RESPONSE_INVALID_OBJECT_HANDLE
     | ENOTBLK \<Rightarrow> MTP_RESPONSE_INVALID_OBJECT_HANDLE
     | ENOTDIR \<Rightarrow> MTP_RESPONSE_ACCESS_DENIED
     | ENOTEMPTY \<Rightarrow> MTP_RESPONSE_PARTIAL_DELETION
     | EROFS \<Rightarrow> MTP_RESPONSE_STORE_READ_ONLY
     | ESTALE \<Rightarrow> MTP_RESPONSE_INVALID_OBJECT_HANDLE
     | _ \<Rightarrow> MTP_RESPONSE_GENERAL_ERROR)"

end
