(* ===== verification/Storage.thy ===== *)
theory Storage
  imports Constants
begin

text \<open>
  The storage table of \<open>src/mtp.c\<close>: the sixteen slots of \<open>ctx->storages\<close>, their lookups by
  identifier and by name, and the addition and removal of a storage. The lookups scan the slots
  in order. The invariant ties a slot's identifier to its position, from which every lookup by
  identifier has a closed form, and makes the names unique, so that the table is a map from names
  to identifiers; the locale \<open>named_store\<close> is that contract.
\<close>

section \<open>State\<close>

record mtp_storage =
  root_path :: "cstr option"
  description :: "cstr option"
  storage_id :: u32
  flags :: u32
  uid :: int
  gid :: int

type_synonym storages = "mtp_storage list"

text \<open>The table after \<open>memset(ctx, 0, ..)\<close> in \<open>mtp_init_responder\<close>.\<close>

definition empty_storage :: mtp_storage where
  "empty_storage = \<lparr>root_path = None, description = None, storage_id = 0, flags = 0, uid = 0, gid = 0\<rparr>"

definition init_storages :: storages where
  "init_storages = replicate MAX_STORAGE_NB empty_storage"

section \<open>Lookups\<close>

text \<open>The loop the lookups share: the first slot in use that satisfies the test.\<close>

fun scan_storages :: "(mtp_storage \<Rightarrow> bool) \<Rightarrow> storages \<Rightarrow> nat \<Rightarrow> nat option" where
  "scan_storages P [] i = None"
| "scan_storages P (s # ss) i =
     (if root_path s \<noteq> None \<and> P s then Some i else scan_storages P ss (Suc i))"

definition mtp_get_storage_id_by_name :: "storages \<Rightarrow> cstr \<Rightarrow> u32" where
  "mtp_get_storage_id_by_name sts name =
    (case scan_storages (\<lambda>s. description s = Some name) sts 0 of
       Some i \<Rightarrow> storage_id (sts ! i) | None \<Rightarrow> 0xFFFFFFFF)"

definition mtp_get_storage_index_by_name :: "storages \<Rightarrow> cstr \<Rightarrow> int" where
  "mtp_get_storage_index_by_name sts name =
    (case scan_storages (\<lambda>s. description s = Some name) sts 0 of Some i \<Rightarrow> int i | None \<Rightarrow> -1)"

definition mtp_get_storage_index_by_id :: "storages \<Rightarrow> u32 \<Rightarrow> int" where
  "mtp_get_storage_index_by_id sts sid =
    (case scan_storages (\<lambda>s. storage_id s = sid) sts 0 of Some i \<Rightarrow> int i | None \<Rightarrow> -1)"

definition mtp_get_storage_root :: "storages \<Rightarrow> u32 \<Rightarrow> cstr option" where
  "mtp_get_storage_root sts sid =
    (case scan_storages (\<lambda>s. storage_id s = sid) sts 0 of
       Some i \<Rightarrow> root_path (sts ! i) | None \<Rightarrow> None)"

definition mtp_get_storage_description :: "storages \<Rightarrow> u32 \<Rightarrow> cstr option" where
  "mtp_get_storage_description sts sid =
    (case scan_storages (\<lambda>s. storage_id s = sid) sts 0 of
       Some i \<Rightarrow> description (sts ! i) | None \<Rightarrow> None)"

definition mtp_get_storage_flags :: "storages \<Rightarrow> u32 \<Rightarrow> u32" where
  "mtp_get_storage_flags sts sid =
    (case scan_storages (\<lambda>s. storage_id s = sid) sts 0 of
       Some i \<Rightarrow> flags (sts ! i) | None \<Rightarrow> 0xFFFFFFFF)"

section \<open>Addition and removal\<close>

fun first_free :: "storages \<Rightarrow> nat \<Rightarrow> nat option" where
  "first_free [] i = None"
| "first_free (s # ss) i = (if root_path s = None then Some i else first_free ss (Suc i))"

text \<open>The slot a removal, or a path that cannot be resolved, leaves.\<close>

definition cleared_storage :: mtp_storage where
  "cleared_storage = \<lparr>root_path = None, description = None, storage_id = 0, flags = 0, uid = -1, gid = -1\<rparr>"

lemma cleared_root [simp]: "root_path cleared_storage = None"
  by (simp add: cleared_storage_def)

definition mtp_add_storage ::
  "(cstr \<Rightarrow> cstr option) \<Rightarrow> storages \<Rightarrow> cstr \<Rightarrow> cstr \<Rightarrow> int \<Rightarrow> int \<Rightarrow> u32 \<Rightarrow> storages \<times> u32" where
  "mtp_add_storage realpath sts path descr u g fl =
    (if mtp_get_storage_id_by_name sts descr \<noteq> 0xFFFFFFFF then (sts, 0)
     else (case first_free sts 0 of
        None \<Rightarrow> (sts, 0)
      | Some i \<Rightarrow>
         (case realpath path of
            Some root \<Rightarrow>
              (let sid = 0xFFFF0000 + (word_of_nat i + 1) in
               (sts[i := \<lparr>root_path = Some root, description = Some descr, storage_id = sid,
                          flags = fl, uid = u, gid = g\<rparr>], sid))
          | None \<Rightarrow> (sts[i := cleared_storage], 0))))"

definition mtp_remove_storage :: "storages \<Rightarrow> cstr \<Rightarrow> storages \<times> int" where
  "mtp_remove_storage sts name =
    (let index = mtp_get_storage_index_by_name sts name in
     if index < 0 then (sts, index) else (sts[nat index := cleared_storage], 0))"

section \<open>The invariant\<close>

definition in_use :: "storages \<Rightarrow> nat \<Rightarrow> bool" where
  "in_use sts i \<longleftrightarrow> i < length sts \<and> root_path (sts ! i) \<noteq> None"

definition slot_id :: "nat \<Rightarrow> u32" where
  "slot_id i = 0xFFFF0000 + (word_of_nat i + 1)"

definition storage_inv :: "storages \<Rightarrow> bool" where
  "storage_inv sts \<longleftrightarrow> length sts = MAX_STORAGE_NB \<and>
     (\<forall>i. in_use sts i \<longrightarrow> storage_id (sts ! i) = slot_id i \<and> description (sts ! i) \<noteq> None) \<and>
     (\<forall>i j. in_use sts i \<longrightarrow> in_use sts j \<longrightarrow> description (sts ! i) = description (sts ! j) \<longrightarrow> i = j)"

lemma scan_storages_Some_offset:
  "scan_storages P sts k = Some i \<Longrightarrow> \<exists>d. i = k + d \<and> in_use sts d \<and> P (sts ! d)"
proof (induction sts arbitrary: k)
  case (Cons s ss)
  show ?case
  proof (cases "root_path s \<noteq> None \<and> P s")
    case True
    then show ?thesis using Cons.prems by (intro exI[of _ 0]) (auto simp: in_use_def split: if_splits)
  next
    case False
    then have "scan_storages P ss (Suc k) = Some i" using Cons.prems by (simp split: if_splits)
    from Cons.IH[OF this] obtain d where "i = Suc k + d" "in_use ss d" "P (ss ! d)" by blast
    then show ?thesis by (intro exI[of _ "Suc d"]) (auto simp: in_use_def)
  qed
qed simp

lemma scan_storages_Some: "scan_storages P sts 0 = Some i \<Longrightarrow> in_use sts i \<and> P (sts ! i)"
  using scan_storages_Some_offset[of P sts 0 i] by auto

lemma scan_storages_None: "scan_storages P sts k = None \<Longrightarrow> in_use sts i \<Longrightarrow> \<not> P (sts ! i)"
proof (induction sts arbitrary: k i)
  case (Cons s ss)
  then show ?case by (cases i) (auto simp: in_use_def split: if_splits)
qed (simp add: in_use_def)

lemma first_free_Some_offset:
  "first_free sts k = Some i \<Longrightarrow> \<exists>d. i = k + d \<and> d < length sts \<and> root_path (sts ! d) = None"
proof (induction sts arbitrary: k)
  case (Cons s ss)
  show ?case
  proof (cases "root_path s")
    case None
    then show ?thesis using Cons.prems by (intro exI[of _ 0]) auto
  next
    case (Some r)
    then obtain d where "i = Suc k + d" "d < length ss" "root_path (ss ! d) = None"
      using Cons by fastforce
    then show ?thesis by (intro exI[of _ "Suc d"]) auto
  qed
qed simp

lemma first_free_Some: "first_free sts 0 = Some i \<Longrightarrow> i < length sts \<and> \<not> in_use sts i"
  using first_free_Some_offset[of sts 0 i] by (auto simp: in_use_def)

lemma first_free_None: "first_free sts k = None \<Longrightarrow> i < length sts \<Longrightarrow> in_use sts i"
proof (induction sts arbitrary: k i)
  case (Cons s ss)
  then show ?case by (cases i) (auto simp: in_use_def split: if_splits)
qed simp

lemma uint_slot_id: "i < 16 \<Longrightarrow> uint (slot_id i) = 0xFFFF0001 + int i"
proof -
  assume "i < 16"
  then have "take_bit 32 (0xFFFF0001 + int i) = 0xFFFF0001 + int i"
    by (intro take_bit_int_eq_self) auto
  moreover have "slot_id i = word_of_int (0xFFFF0001 + int i)"
    by (simp add: slot_id_def)
  then have "uint (slot_id i) = take_bit 32 (0xFFFF0001 + int i)"
    by (simp only: unsigned_of_int) simp
  ultimately show ?thesis by simp
qed

lemma slot_id_inj: "i < 16 \<Longrightarrow> j < 16 \<Longrightarrow> slot_id i = slot_id j \<longleftrightarrow> i = j"
proof
  assume "i < 16" "j < 16" "slot_id i = slot_id j"
  then have "0xFFFF0001 + int i = 0xFFFF0001 + int j"
    by (metis uint_slot_id)
  then show "i = j" by simp
qed simp

lemma slot_id_neq_none:
  assumes "i < 16"
  shows "slot_id i \<noteq> 0xFFFFFFFF" "slot_id i \<noteq> 0"
proof -
  show "slot_id i \<noteq> 0xFFFFFFFF"
  proof
    assume "slot_id i = 0xFFFFFFFF"
    then have "uint (0xFFFFFFFF :: u32) = 0xFFFF0001 + int i" using uint_slot_id[OF assms] by simp
    then show False using assms by simp
  qed
  show "slot_id i \<noteq> 0"
  proof
    assume "slot_id i = 0"
    then have "uint (0 :: u32) = 0xFFFF0001 + int i" using uint_slot_id[OF assms] by simp
    then show False by simp
  qed
qed

text \<open>Scanning for a property only one slot in use can have.\<close>

lemma scan_storages_unique:
  assumes "in_use sts i" "P (sts ! i)" "\<And>j. in_use sts j \<Longrightarrow> P (sts ! j) \<Longrightarrow> j = i"
  shows "scan_storages P sts 0 = Some i"
proof (cases "scan_storages P sts 0")
  case None
  then show ?thesis using assms(1,2) scan_storages_None by blast
next
  case (Some j)
  then show ?thesis using assms(3) scan_storages_Some[OF Some] by auto
qed

lemma storage_inv_length: "storage_inv sts \<Longrightarrow> length sts = 16"
  by (simp add: storage_inv_def)

lemma in_use_lt: "storage_inv sts \<Longrightarrow> in_use sts i \<Longrightarrow> i < 16"
  by (simp add: storage_inv_def in_use_def)

lemma in_use_id: "storage_inv sts \<Longrightarrow> in_use sts i \<Longrightarrow> storage_id (sts ! i) = slot_id i"
  by (simp add: storage_inv_def)

lemma storage_inv_init: "storage_inv init_storages"
proof -
  have "\<not> in_use init_storages i" for i
    by (auto simp: in_use_def init_storages_def empty_storage_def)
  then show ?thesis by (simp add: storage_inv_def) (simp add: init_storages_def)
qed

section \<open>Lookups under the invariant\<close>

lemma lookup_slot [storage_simps]:
  assumes "storage_inv sts" "in_use sts i"
  shows "scan_storages (\<lambda>s. storage_id s = slot_id i) sts 0 = Some i"
proof (rule scan_storages_unique)
  show "j = i" if "in_use sts j" "storage_id (sts ! j) = slot_id i" for j
    using that assms in_use_id in_use_lt slot_id_inj by metis
qed (use assms in_use_id in auto)

lemma root_known_iff:
  assumes "storage_inv sts"
  shows "mtp_get_storage_root sts sid \<noteq> None \<longleftrightarrow> (\<exists>i. in_use sts i \<and> slot_id i = sid)"
proof
  assume "mtp_get_storage_root sts sid \<noteq> None"
  then obtain i where i: "scan_storages (\<lambda>s. storage_id s = sid) sts 0 = Some i"
    by (auto simp: mtp_get_storage_root_def split: option.splits)
  show "\<exists>i. in_use sts i \<and> slot_id i = sid"
    using scan_storages_Some[OF i] in_use_id[OF assms] by auto
next
  assume "\<exists>i. in_use sts i \<and> slot_id i = sid"
  then show "mtp_get_storage_root sts sid \<noteq> None"
    using lookup_slot[OF assms] by (auto simp: mtp_get_storage_root_def in_use_def)
qed


text \<open>The names: under the invariant the table is a map from names to identifiers.\<close>

definition name_lookup :: "storages \<Rightarrow> cstr \<Rightarrow> u32 option" where
  "name_lookup sts name =
    (let sid = mtp_get_storage_id_by_name sts name in if sid = 0xFFFFFFFF then None else Some sid)"

lemma name_lookup_slot:
  assumes "storage_inv sts"
  shows "name_lookup sts name = Some sid \<longleftrightarrow>
    (\<exists>i. in_use sts i \<and> description (sts ! i) = Some name \<and> sid = slot_id i)"
proof (cases "scan_storages (\<lambda>s. description s = Some name) sts 0")
  case None
  then show ?thesis
    using scan_storages_None[OF None] by (auto simp: name_lookup_def mtp_get_storage_id_by_name_def)
next
  case (Some i)
  note i = scan_storages_Some[OF Some]
  have "mtp_get_storage_id_by_name sts name = slot_id i"
    using Some i in_use_id[OF assms] by (simp add: mtp_get_storage_id_by_name_def)
  moreover have "slot_id i \<noteq> 0xFFFFFFFF"
    using i in_use_lt[OF assms] slot_id_neq_none by auto
  moreover have "j = i" if "in_use sts j" "description (sts ! j) = Some name" for j
    using that i assms by (simp add: storage_inv_def)
  ultimately show ?thesis using i by (auto simp: name_lookup_def Let_def)
qed

lemma index_by_name_slot:
  assumes "storage_inv sts"
  shows "mtp_get_storage_index_by_name sts name =
    (case name_lookup sts name of None \<Rightarrow> -1 | Some sid \<Rightarrow> mtp_get_storage_index_by_id sts sid)"
proof (cases "scan_storages (\<lambda>s. description s = Some name) sts 0")
  case None
  then show ?thesis
    by (simp add: mtp_get_storage_index_by_name_def name_lookup_def mtp_get_storage_id_by_name_def)
next
  case (Some i)
  note i = scan_storages_Some[OF Some]
  have "name_lookup sts name = Some (slot_id i)"
    using i name_lookup_slot[OF assms] by blast
  then show ?thesis
    using Some lookup_slot[OF assms, of i] i
    by (simp add: mtp_get_storage_index_by_name_def mtp_get_storage_index_by_id_def)
qed

section \<open>Addition and removal keep the invariant\<close>

lemma in_use_update:
  "i < length sts \<Longrightarrow> in_use (sts[i := s]) j \<longleftrightarrow> (if j = i then root_path s \<noteq> None else in_use sts j)"
  by (auto simp: in_use_def)

lemma storage_inv_clear: "storage_inv sts \<Longrightarrow> i < length sts \<Longrightarrow> storage_inv (sts[i := cleared_storage])"
  unfolding storage_inv_def
  by (auto simp: in_use_update cleared_storage_def nth_list_update split: if_splits)

lemma storage_inv_fill:
  assumes "storage_inv sts" "i < length sts" "\<not> in_use sts i"
    "\<And>j. in_use sts j \<Longrightarrow> description (sts ! j) \<noteq> Some descr"
    "storage_id s = slot_id i" "description s = Some descr" "root_path s \<noteq> None"
  shows "storage_inv (sts[i := s])"
proof -
  have used: "in_use (sts[i := s]) j \<longleftrightarrow> j = i \<or> in_use sts j" for j
    using assms by (auto simp: in_use_update)
  have nth: "sts[i := s] ! j = (if j = i then s else sts ! j)" for j
    using assms(2) by (simp add: nth_list_update)
  show ?thesis
    using assms unfolding storage_inv_def used nth by (auto simp: in_use_def)
qed

lemma add_storage_cases:
  assumes "storage_inv sts"
  obtains (taken) sid where "name_lookup sts descr = Some sid" "mtp_add_storage realpath sts path descr u g fl = (sts, 0)"
    | (full) "\<forall>i < 16. in_use sts i" "mtp_add_storage realpath sts path descr u g fl = (sts, 0)"
    | (unresolved) i where "i < 16" "\<not> in_use sts i" "realpath path = None"
        "mtp_add_storage realpath sts path descr u g fl = (sts[i := cleared_storage], 0)"
    | (added) i root where "i < 16" "\<not> in_use sts i" "name_lookup sts descr = None" "realpath path = Some root"
        "mtp_add_storage realpath sts path descr u g fl
          = (sts[i := \<lparr>root_path = Some root, description = Some descr, storage_id = slot_id i,
                       flags = fl, uid = u, gid = g\<rparr>], slot_id i)"
proof (cases "mtp_get_storage_id_by_name sts descr = 0xFFFFFFFF")
  case False
  then show ?thesis
    by (intro taken[of "mtp_get_storage_id_by_name sts descr"]) (auto simp: name_lookup_def mtp_add_storage_def)
next
  case name: True
  have len: "length sts = 16" using assms by (simp add: storage_inv_def)
  show ?thesis
  proof (cases "first_free sts 0")
    case None
    then show ?thesis
      using first_free_None[OF None] len name by (intro full) (auto simp: mtp_add_storage_def)
  next
    case (Some i)
    then show ?thesis
      using first_free_Some[OF Some] len name
      by (cases "realpath path")
         (auto simp: mtp_add_storage_def slot_id_def Let_def name_lookup_def intro: unresolved added)
  qed
qed

lemma storage_inv_add:
  assumes "storage_inv sts"
  shows "storage_inv (fst (mtp_add_storage realpath sts path descr u g fl))"
using assms
proof (cases rule: add_storage_cases[where descr = descr and realpath = realpath and path = path
      and u = u and g = g and fl = fl, case_names taken full unresolved added])
  case (unresolved i)
  then show ?thesis
    using storage_inv_clear[OF assms, of i] storage_inv_length[OF assms] by simp
next
  case (added i root)
  have "description (sts ! j) \<noteq> Some descr" if "in_use sts j" for j
    using added(3) that name_lookup_slot[OF assms, of descr] by auto
  then show ?thesis
    using added storage_inv_length[OF assms] storage_inv_fill[OF assms, of i descr] by simp
qed (use assms in simp_all)

lemma remove_storage_cases:
  assumes "storage_inv sts"
  obtains (absent) "name_lookup sts name = None" "mtp_remove_storage sts name = (sts, -1)"
    | (removed) i where "in_use sts i" "description (sts ! i) = Some name"
        "mtp_remove_storage sts name = (sts[i := cleared_storage], 0)"
proof (cases "scan_storages (\<lambda>s. description s = Some name) sts 0")
  case None
  then show ?thesis
    by (intro absent) (auto simp: mtp_remove_storage_def mtp_get_storage_index_by_name_def
        name_lookup_def mtp_get_storage_id_by_name_def)
next
  case (Some i)
  then show ?thesis
    using scan_storages_Some[OF Some]
    by (intro removed[of i]) (auto simp: mtp_remove_storage_def mtp_get_storage_index_by_name_def)
qed

lemma storage_inv_remove:
  assumes "storage_inv sts"
  shows "storage_inv (fst (mtp_remove_storage sts name))"
  by (cases rule: remove_storage_cases[OF assms, of name])
     (use assms storage_inv_clear in \<open>auto simp: in_use_def\<close>)


section \<open>The table as a store of named storages\<close>

text \<open>
  The contract the daemon relies on: a name is added at most once, is found under its identifier
  from then on, and removing a name forgets that name only.
\<close>

locale named_store =
  fixes inv :: "'t \<Rightarrow> bool"
    and lookup :: "'t \<Rightarrow> 'n \<Rightarrow> 'v option"
    and add :: "'t \<Rightarrow> 'n \<Rightarrow> 'a \<Rightarrow> 't \<times> 'v option"
    and remove :: "'t \<Rightarrow> 'n \<Rightarrow> 't"
  assumes inv_add: "inv t \<Longrightarrow> inv (fst (add t n a))"
    and inv_remove: "inv t \<Longrightarrow> inv (remove t n)"
    and lookup_add: "inv t \<Longrightarrow> lookup (fst (add t n a)) m
          = (if m = n \<and> snd (add t n a) \<noteq> None then snd (add t n a) else lookup t m)"
    and add_taken: "inv t \<Longrightarrow> lookup t n \<noteq> None \<Longrightarrow> snd (add t n a) = None"
    and lookup_remove: "inv t \<Longrightarrow> lookup (remove t n) m = (if m = n then None else lookup t m)"
begin

lemma add_then_remove:
  assumes "inv t" "snd (add t n a) = Some v"
  shows "lookup (remove (fst (add t n a)) n) m = lookup t m"
proof (cases "m = n")
  case True
  have "lookup t m = None"
    using add_taken[OF assms(1), of n a] assms(2) True by (cases "lookup t m") simp_all
  then show ?thesis using True assms lookup_remove inv_add by simp
qed (use assms inv_add lookup_remove lookup_add in simp)

lemma other_names_kept:
  "inv t \<Longrightarrow> m \<noteq> n \<Longrightarrow> lookup (fst (add t n a)) m = lookup t m \<and> lookup (remove t n) m = lookup t m"
  by (simp add: lookup_add lookup_remove)

end

text \<open>The arguments of an addition, and its result 0 read as failure.\<close>

type_synonym storage_args = "(cstr \<Rightarrow> cstr option) \<times> cstr \<times> int \<times> int \<times> u32"

definition add_named :: "storages \<Rightarrow> cstr \<Rightarrow> storage_args \<Rightarrow> storages \<times> u32 option" where
  "add_named sts name = (\<lambda>(rp, path, u, g, fl).
     (case mtp_add_storage rp sts path name u g fl of
        (sts', sid) \<Rightarrow> (sts', if sid = 0 then None else Some sid)))"

definition remove_named :: "storages \<Rightarrow> cstr \<Rightarrow> storages" where
  "remove_named sts name = fst (mtp_remove_storage sts name)"

lemma name_lookup_same_slots:
  assumes "storage_inv sts" "storage_inv sts'"
    "\<And>i. in_use sts i \<and> description (sts ! i) = Some m \<longleftrightarrow> in_use sts' i \<and> description (sts' ! i) = Some m"
  shows "name_lookup sts' m = name_lookup sts m"
proof -
  have "name_lookup sts m = Some sid \<longleftrightarrow> name_lookup sts' m = Some sid" for sid
    using assms(3) by (auto simp: name_lookup_slot[OF assms(1)] name_lookup_slot[OF assms(2)])
  then show ?thesis by (metis not_Some_eq)
qed

lemma name_lookup_None:
  assumes "storage_inv sts"
  shows "name_lookup sts m = None \<longleftrightarrow> (\<forall>i. in_use sts i \<longrightarrow> description (sts ! i) \<noteq> Some m)"
  using name_lookup_slot[OF assms, of m] by (cases "name_lookup sts m") auto

lemma name_lookup_add:
  assumes "storage_inv sts"
  shows "name_lookup (fst (add_named sts n a)) m
    = (if m = n \<and> snd (add_named sts n a) \<noteq> None then snd (add_named sts n a) else name_lookup sts m)"
proof -
  obtain rp path u g fl where a: "a = (rp, path, u, g, fl)" by (cases a) auto
  have len: "length sts = 16" using assms by (rule storage_inv_length)
  have inv: "storage_inv (fst (mtp_add_storage rp sts path n u g fl))"
    using assms by (rule storage_inv_add)
  show ?thesis
    using assms
  proof (cases rule: add_storage_cases[where descr = n and realpath = rp and path = path
        and u = u and g = g and fl = fl, case_names taken full unresolved added])
    case (unresolved i)
    have "name_lookup (sts[i := cleared_storage]) m = name_lookup sts m"
      using unresolved inv len
      by (intro name_lookup_same_slots[OF assms]) (auto simp: in_use_update nth_list_update cleared_storage_def split: if_splits)
    then show ?thesis using unresolved by (simp add: add_named_def a)
  next
    case (added i root)
    let ?sts = "fst (mtp_add_storage rp sts path n u g fl)"
    have res: "add_named sts n a = (?sts, Some (slot_id i))"
      using added slot_id_neq_none(2)[of i] by (simp add: add_named_def a)
    show ?thesis
    proof (cases "m = n")
      case True
      have "name_lookup ?sts n = Some (slot_id i)"
        unfolding name_lookup_slot[OF inv] using added len by (auto simp: in_use_update nth_list_update)
      then show ?thesis using True res by simp
    next
      case False
      have "name_lookup ?sts m = name_lookup sts m"
        using added False len
        by (intro name_lookup_same_slots[OF assms inv]) (auto simp: in_use_update nth_list_update split: if_splits)
      then show ?thesis using False res by simp
    qed
  qed (auto simp: add_named_def a)
qed

lemma name_lookup_remove:
  assumes "storage_inv sts"
  shows "name_lookup (remove_named sts n) m = (if m = n then None else name_lookup sts m)"
proof (cases rule: remove_storage_cases[OF assms, of n])
  case 1
  then show ?thesis by (auto simp: remove_named_def)
next
  case (2 i)
  have i: "i < length sts" using 2 by (simp add: in_use_def)
  have inv: "storage_inv (sts[i := cleared_storage])" by (rule storage_inv_clear[OF assms i])
  have uniq: "j = i" if "in_use sts j" "description (sts ! j) = Some n" for j
    using that 2 assms by (simp add: storage_inv_def)
  show ?thesis
  proof (cases "m = n")
    case True
    then show ?thesis
      using 2 i by (auto simp: remove_named_def name_lookup_None[OF inv] in_use_update nth_list_update dest: uniq)
  next
    case False
    have "name_lookup (sts[i := cleared_storage]) m = name_lookup sts m"
      using 2 False i
      by (intro name_lookup_same_slots[OF assms inv]) (auto simp: in_use_update nth_list_update cleared_storage_def split: if_splits)
    then show ?thesis using False 2 by (simp add: remove_named_def)
  qed
qed

interpretation storage_table: named_store storage_inv name_lookup add_named remove_named
proof unfold_locales
  show "storage_inv t \<Longrightarrow> storage_inv (fst (add_named t n a))" for t n a
    using storage_inv_add by (auto simp: add_named_def split: prod.splits) (metis fst_conv)
  show "storage_inv t \<Longrightarrow> storage_inv (remove_named t n)" for t n
    by (simp add: remove_named_def storage_inv_remove)
  show "storage_inv t \<Longrightarrow> name_lookup t n \<noteq> None \<Longrightarrow> snd (add_named t n a) = None" for t n a
    by (auto simp: add_named_def name_lookup_def mtp_add_storage_def Let_def split: prod.splits if_splits)
qed (simp_all add: name_lookup_add name_lookup_remove)

section \<open>Properties\<close>

text \<open>C34. A storage added under a new name is found under that name and identifier with the
  resolved path as its root, its identifier is that of its slot, and removing it again succeeds and
  leaves every name resolved as before the addition.\<close>

theorem storage_add_remove:
  assumes "storage_inv sts" "mtp_add_storage rp sts path name u g fl = (sts', sid)" "sid \<noteq> 0"
  shows "mtp_get_storage_id_by_name sts name = 0xFFFFFFFF \<and> mtp_get_storage_id_by_name sts' name = sid \<and>
    mtp_get_storage_root sts' sid = rp path \<and> mtp_get_storage_flags sts' sid = fl \<and>
    (case mtp_remove_storage sts' name of (sts'', ret) \<Rightarrow> ret = 0 \<and> storage_inv sts'' \<and>
       mtp_get_storage_root sts'' sid = None \<and>
       (\<forall>m. mtp_get_storage_id_by_name sts'' m = mtp_get_storage_id_by_name sts m))"
  using assms(1)
proof (cases rule: add_storage_cases[where descr = name and realpath = rp and path = path
      and u = u and g = g and fl = fl, case_names taken full unresolved added])
  case (added i root)
  have sts': "sts' = sts[i := \<lparr>root_path = Some root, description = Some name, storage_id = slot_id i,
      flags = fl, uid = u, gid = g\<rparr>]" "sid = slot_id i"
    using added(5) assms(2) by simp_all
  have inv': "storage_inv sts'" using storage_inv_add[OF assms(1), of rp path name u g fl] assms(2) by simp
  have len: "length sts = 16" by (rule storage_inv_length[OF assms(1)])
  have used: "in_use sts' i" using added len sts' by (simp add: in_use_update)
  have names: "mtp_get_storage_id_by_name t m = (case name_lookup t m of None \<Rightarrow> 0xFFFFFFFF | Some s \<Rightarrow> s)" for t m
    by (simp add: name_lookup_def Let_def)
  have res: "add_named sts name (rp, path, u, g, fl) = (sts', Some sid)"
    using assms(2,3) by (simp add: add_named_def)
  have restored: "name_lookup (fst (mtp_remove_storage sts' name)) m = name_lookup sts m" for m
    using storage_table.add_then_remove[OF assms(1), of name "(rp, path, u, g, fl)" sid m] res
    by (simp add: remove_named_def)
  have found: "name_lookup sts' name = Some sid"
    using storage_table.lookup_add[OF assms(1), of name "(rp, path, u, g, fl)" name] res by simp
  have "snd (mtp_remove_storage sts' name) = 0"
    using found by (cases rule: remove_storage_cases[OF inv', of name]) simp_all
  moreover have "mtp_get_storage_root (fst (mtp_remove_storage sts' name)) sid = None"
  proof -
    obtain j where j: "in_use sts' j" "description (sts' ! j) = Some name"
      "mtp_remove_storage sts' name = (sts'[j := cleared_storage], 0)"
      using found by (cases rule: remove_storage_cases[OF inv', of name]) simp_all
    have ji: "j = i"
      using j used inv' sts' len added(1) by (auto simp: storage_inv_def)
    have inv'': "storage_inv (sts'[i := cleared_storage])"
      using storage_inv_clear[OF inv', of i] added(1) storage_inv_length[OF inv'] by simp
    have "\<not> in_use (sts'[i := cleared_storage]) k" if "slot_id k = sid" for k
    proof
      assume k: "in_use (sts'[i := cleared_storage]) k"
      then have "k = i" using in_use_lt[OF inv''] that sts'(2) slot_id_inj added(1) by auto
      then show False using k by (auto simp: in_use_def cleared_storage_def sts' len)
    qed
    then show ?thesis
      using root_known_iff[OF inv'', of sid] j(3) ji by auto
  qed
  moreover have "mtp_get_storage_root sts' sid = rp path" "mtp_get_storage_flags sts' sid = fl"
    using lookup_slot[OF inv' used] added len
    by (simp_all add: mtp_get_storage_root_def mtp_get_storage_flags_def sts')
  ultimately show ?thesis
    using storage_inv_remove[OF inv', of name] restored found added(3)
    by (cases "mtp_remove_storage sts' name") (simp add: names)
qed (use assms in simp_all)

theorem storage_add_remove_witness:
  "case mtp_add_storage Some init_storages [0x2F] [0x41] (-1) (-1) 4 of (sts', sid) \<Rightarrow>
     sid = 0xFFFF0001 \<and> mtp_get_storage_id_by_name sts' [0x41] = sid \<and> mtp_get_storage_root sts' sid = Some [0x2F] \<and>
     snd (mtp_remove_storage sts' [0x41]) = 0"
proof -
  have ids: "mtp_get_storage_id_by_name init_storages [0x41] = 0xFFFFFFFF" "first_free init_storages 0 = Some 0"
    by (simp_all add: mtp_get_storage_id_by_name_def init_storages_def empty_storage_def numeral_eq_Suc)
  obtain sts' where add: "mtp_add_storage Some init_storages [0x2F] [0x41] (-1) (-1) 4 = (sts', 0xFFFF0001)"
    using ids by (simp add: mtp_add_storage_def)
  show ?thesis
    using storage_add_remove[OF storage_inv_init add] add by (simp split: prod.splits)
qed

end
