(* ===== verification/HandleDb.thy ===== *)
theory HandleDb
  imports Storage
begin

text \<open>
  The handle database: \<open>src/hash_utils.c\<close> and the database half of \<open>src/fs_handles_db.c\<close>.

  An \<open>fs_entry *\<close> is the position of the entry in \<open>pool\<close>, the list of the entries handed out so
  far; entries are never given back, a deleted one keeps its place with \<open>ENTRY_IS_DELETED\<close> set.
  The linked list from \<open>entry_list\<close> is the list of its pointers, newest first, and a pointer
  into it (the search cursor) is the rest of the list from there, \<open>[]\<close> being NULL. The two hash
  tables map a bucket number below 1024 to its node. \<open>malloc\<close> and \<open>strdup\<close> succeed; the overflow
  guard of \<open>expand_hash_node\<close> is kept, with 8-byte pointers.
\<close>

section \<open>State\<close>

type_synonym ptr = nat

record fs_entry =
  e_handle :: u32
  e_parent :: u32
  e_storage :: u32
  e_name :: cstr
  e_flags :: u32
  e_size :: int
  e_date :: u32
  e_fd :: int
  e_wd :: int

record hash_node =
  node_entries :: "ptr list"
  node_capacity :: nat

record fs_handles_db =
  pool :: "fs_entry list"
  entry_list :: "ptr list"
  by_name :: "nat \<Rightarrow> hash_node"
  by_handle :: "nat \<Rightarrow> hash_node"
  next_handle :: u32
  search_cursor :: "ptr list"
  handle_search :: u32
  storage_search :: u32
  pool_free_count :: nat

record filefoundinfo =
  isdirectory :: bool
  filename :: cstr
  fsize :: int

abbreviation entry_at :: "fs_handles_db \<Rightarrow> ptr \<Rightarrow> fs_entry" where
  "entry_at db p \<equiv> pool db ! p"

definition deleted :: "fs_entry \<Rightarrow> bool" where
  "deleted e \<longleftrightarrow> has_flag (e_flags e) ENTRY_IS_DELETED"

definition upd_entry :: "ptr \<Rightarrow> (fs_entry \<Rightarrow> fs_entry) \<Rightarrow> fs_handles_db \<Rightarrow> fs_handles_db" where
  "upd_entry p f db = db\<lparr>pool := (pool db)[p := f (pool db ! p)]\<rparr>"

section \<open>Hash nodes\<close>

definition empty_node :: hash_node where
  "empty_node = \<lparr>node_entries = [], node_capacity = 0\<rparr>"

definition init_hash_node :: "hash_node \<Rightarrow> hash_node" where
  "init_hash_node node = \<lparr>node_entries = [], node_capacity = 4\<rparr>"

text \<open>\<open>None\<close> is the result 0: the guard against an overflow of the allocation size.\<close>

definition expand_hash_node :: "hash_node \<Rightarrow> hash_node option" where
  "expand_hash_node node =
    (if node_capacity node \<ge> 0x80000000 div 8 then None
     else Some (node\<lparr>node_capacity := node_capacity node * 2\<rparr>))"

definition insert_entry_generic :: "hash_node \<Rightarrow> ptr \<Rightarrow> hash_node" where
  "insert_entry_generic node entry =
    (let node1 = (if node_capacity node = 0 then init_hash_node node else node) in
     case (if length (node_entries node1) \<ge> node_capacity node1 then expand_hash_node node1 else Some node1) of
       None \<Rightarrow> node1
     | Some node2 \<Rightarrow> node2\<lparr>node_entries := node_entries node2 @ [entry]\<rparr>)"

text \<open>The move of the remaining entries over the first occurrence found.\<close>

fun drop_first :: "ptr list \<Rightarrow> ptr \<Rightarrow> ptr list" where
  "drop_first [] p = []"
| "drop_first (q # qs) p = (if q = p then qs else q # drop_first qs p)"

definition remove_entry_generic :: "hash_node \<Rightarrow> ptr \<Rightarrow> hash_node" where
  "remove_entry_generic node entry = node\<lparr>node_entries := drop_first (node_entries node) entry\<rparr>"

text \<open>\<open>char\<close> is signed, as on x86; nothing below depends on it.\<close>

fun hash_name_loop :: "cstr \<Rightarrow> u32 \<Rightarrow> u32" where
  "hash_name_loop [] hash = hash"
| "hash_name_loop (c # cs) hash = hash_name_loop cs ((push_bit 5 hash + hash) + scast c)"

definition hash_function_name :: "cstr \<Rightarrow> nat" where
  "hash_function_name nm = unat (hash_name_loop nm 5381 mod 1024)"

definition hash_function_handle :: "u32 \<Rightarrow> nat" where
  "hash_function_handle h = unat (h mod 1024)"

definition insert_entry :: "fs_handles_db \<Rightarrow> ptr \<Rightarrow> fs_handles_db" where
  "insert_entry db entry =
    (let index_name = hash_function_name (e_name (entry_at db entry)) mod 1024;
         index_handle = hash_function_handle (e_handle (entry_at db entry)) mod 1024
     in db\<lparr>by_handle := (by_handle db)(index_handle := insert_entry_generic (by_handle db index_handle) entry),
           by_name := (by_name db)(index_name := insert_entry_generic (by_name db index_name) entry)\<rparr>)"

definition remove_entry :: "fs_handles_db \<Rightarrow> ptr \<Rightarrow> fs_handles_db" where
  "remove_entry db entry =
    (let index_name = hash_function_name (e_name (entry_at db entry)) mod 1024;
         index_handle = hash_function_handle (e_handle (entry_at db entry)) mod 1024
     in db\<lparr>by_name := (by_name db)(index_name := remove_entry_generic (by_name db index_name) entry),
           by_handle := (by_handle db)(index_handle := remove_entry_generic (by_handle db index_handle) entry)\<rparr>)"

definition find_entry :: "fs_handles_db \<Rightarrow> cstr \<Rightarrow> u32 \<Rightarrow> u32 \<Rightarrow> ptr option" where
  "find_entry db nm par sid =
    find (\<lambda>p. e_name (entry_at db p) = nm \<and> e_parent (entry_at db p) = par \<and>
              e_storage (entry_at db p) = sid \<and> \<not> deleted (entry_at db p))
      (node_entries (by_name db (hash_function_name nm mod 1024)))"

section \<open>Entries\<close>

definition init_fs_db :: fs_handles_db where
  "init_fs_db = \<lparr>pool = [], entry_list = [], by_name = (\<lambda>_. empty_node), by_handle = (\<lambda>_. empty_node),
     next_handle = 1, search_cursor = [], handle_search = 0, storage_search = 0, pool_free_count = 0\<rparr>"

definition search_entry :: "fs_handles_db \<Rightarrow> filefoundinfo \<Rightarrow> u32 \<Rightarrow> u32 \<Rightarrow> ptr option" where
  "search_entry db fileinfo par sid = find_entry db (filename fileinfo) par sid"

text \<open>A place in the pool, with a new block of 1024 entries when none is left.\<close>

definition allocate_pool_block :: "fs_handles_db \<Rightarrow> fs_handles_db" where
  "allocate_pool_block db = db\<lparr>pool_free_count := pool_free_count db + 1024\<rparr>"

definition take_place :: "fs_handles_db \<Rightarrow> fs_entry \<Rightarrow> fs_handles_db \<times> ptr" where
  "take_place db e =
    (let db1 = (if pool_free_count db = 0 then allocate_pool_block db else db) in
     (db1\<lparr>pool := pool db1 @ [e], pool_free_count := pool_free_count db1 - 1\<rparr>, length (pool db1)))"

text \<open>\<open>memset\<close> leaves the file descriptor of a new entry at 0.\<close>

definition alloc_entry :: "fs_handles_db \<Rightarrow> filefoundinfo \<Rightarrow> u32 \<Rightarrow> u32 \<Rightarrow> fs_handles_db \<times> ptr" where
  "alloc_entry db fileinfo par sid =
    (let e = \<lparr>e_handle = next_handle db, e_parent = par, e_storage = sid, e_name = filename fileinfo,
              e_flags = (if isdirectory fileinfo then ENTRY_IS_DIR else 0), e_size = fsize fileinfo,
              e_date = 0, e_fd = 0, e_wd = -1\<rparr>;
         (db1, entry) = take_place db e;
         db2 = insert_entry (db1\<lparr>next_handle := next_handle db1 + 1\<rparr>) entry
     in (db2\<lparr>entry_list := entry # entry_list db2\<rparr>, entry))"

definition alloc_root_entry :: "fs_handles_db \<Rightarrow> u32 \<Rightarrow> fs_handles_db \<times> ptr" where
  "alloc_root_entry db sid =
    (let e = \<lparr>e_handle = 0, e_parent = 0, e_storage = sid, e_name = [0x2F],
              e_flags = ENTRY_IS_DIR, e_size = 1, e_date = 0, e_fd = 0, e_wd = -1\<rparr>;
         (db1, entry) = take_place db e;
         db2 = insert_entry db1 entry
     in (db2\<lparr>entry_list := entry # entry_list db2\<rparr>, entry))"

definition add_entry :: "fs_handles_db \<Rightarrow> filefoundinfo \<Rightarrow> u32 \<Rightarrow> u32 \<Rightarrow> fs_handles_db \<times> ptr" where
  "add_entry db fileinfo par sid =
    (case search_entry db fileinfo par sid of
       Some entry \<Rightarrow> (db, entry)
     | None \<Rightarrow> alloc_entry db fileinfo par sid)"

section \<open>Searches\<close>

definition init_search_handle :: "fs_handles_db \<Rightarrow> u32 \<Rightarrow> u32 \<Rightarrow> fs_handles_db" where
  "init_search_handle db par sid =
    db\<lparr>search_cursor := entry_list db, handle_search := par, storage_search := sid\<rparr>"

definition is_child :: "fs_handles_db \<Rightarrow> ptr \<Rightarrow> bool" where
  "is_child db p \<longleftrightarrow> \<not> deleted (entry_at db p) \<and> e_parent (entry_at db p) = handle_search db \<and>
     e_storage (entry_at db p) = storage_search db \<and> e_handle (entry_at db p) \<noteq> e_parent (entry_at db p)"

definition get_next_child_handle :: "fs_handles_db \<Rightarrow> fs_handles_db \<times> ptr option" where
  "get_next_child_handle db =
    (case dropWhile (\<lambda>p. \<not> is_child db p) (search_cursor db) of
       [] \<Rightarrow> (db\<lparr>search_cursor := []\<rparr>, None)
     | entry # rest \<Rightarrow> (db\<lparr>search_cursor := rest\<rparr>, Some entry))"

definition get_entry_by_handle :: "storages \<Rightarrow> fs_handles_db \<Rightarrow> u32 \<Rightarrow> ptr option" where
  "get_entry_by_handle sts db h =
    find (\<lambda>p. \<not> deleted (entry_at db p) \<and> e_handle (entry_at db p) = h \<and>
              mtp_get_storage_root sts (e_storage (entry_at db p)) \<noteq> None)
      (node_entries (by_handle db (hash_function_handle h mod 1024)))"

definition get_entry_by_handle_and_storageid :: "fs_handles_db \<Rightarrow> u32 \<Rightarrow> u32 \<Rightarrow> ptr option" where
  "get_entry_by_handle_and_storageid db h sid =
    find (\<lambda>p. \<not> deleted (entry_at db p) \<and> e_handle (entry_at db p) = h \<and> e_storage (entry_at db p) = sid)
      (entry_list db)"

text \<open>The two searches that can go on from an entry: \<open>start\<close> is the list from there, \<open>[]\<close> for NULL.
  The result is the list from the entry found.\<close>

definition get_entry_by_wd :: "fs_handles_db \<Rightarrow> int \<Rightarrow> ptr list \<Rightarrow> ptr list" where
  "get_entry_by_wd db wd start =
    dropWhile (\<lambda>p. \<not> (\<not> deleted (entry_at db p) \<and> e_wd (entry_at db p) = wd))
      (if start = [] then entry_list db else start)"

definition get_entry_by_storageid :: "fs_handles_db \<Rightarrow> u32 \<Rightarrow> ptr list \<Rightarrow> ptr list" where
  "get_entry_by_storageid db sid start =
    dropWhile (\<lambda>p. \<not> (\<not> deleted (entry_at db p) \<and> e_storage (entry_at db p) = sid))
      (if start = [] then entry_list db else start)"

section \<open>Buckets\<close>

text \<open>
  The contract of a bucket: an insertion puts the pointer at the end while the bucket has room, a
  removal takes its first occurrence out. A table of such buckets then stays an index of a set of
  pointers by a key.
\<close>

definition indexed :: "('n \<Rightarrow> 'p list) \<Rightarrow> (nat \<Rightarrow> 'n) \<Rightarrow> ('p \<Rightarrow> nat) \<Rightarrow> 'p set \<Rightarrow> bool" where
  "indexed elems tab key ps \<longleftrightarrow> (\<forall>k. distinct (elems (tab k)) \<and> set (elems (tab k)) = {p \<in> ps. key p = k})"

locale bucket =
  fixes elems :: "'n \<Rightarrow> 'p list" and ins :: "'n \<Rightarrow> 'p \<Rightarrow> 'n" and rem :: "'n \<Rightarrow> 'p \<Rightarrow> 'n"
    and ok :: "'n \<Rightarrow> bool" and limit :: nat
  assumes elems_ins: "ok n \<Longrightarrow> length (elems n) < limit \<Longrightarrow> elems (ins n p) = elems n @ [p]"
    and elems_rem: "elems (rem n p) = remove1 p (elems n)"
    and ok_ins: "ok n \<Longrightarrow> ok (ins n p)"
    and ok_rem: "ok n \<Longrightarrow> ok (rem n p)"
begin

lemma indexed_insert:
  assumes "indexed elems tab key ps" "p \<notin> ps" "ok (tab (key p))" "length (elems (tab (key p))) < limit"
  shows "indexed elems (tab(key p := ins (tab (key p)) p)) key (insert p ps)"
  using assms by (auto simp: indexed_def elems_ins)

lemma indexed_remove:
  assumes "indexed elems tab key ps"
  shows "indexed elems (tab(key p := rem (tab (key p)) p)) key (ps - {p})"
proof -
  have "distinct (elems (tab k))" "set (elems (tab k)) = {q \<in> ps. key q = k}" for k
    using assms by (auto simp: indexed_def)
  then show ?thesis
    by (auto simp: indexed_def elems_rem)
qed

lemma bucket_length_le:
  assumes "indexed elems tab key ps" "finite ps"
  shows "length (elems (tab k)) \<le> card ps"
proof -
  have "length (elems (tab k)) = card {p \<in> ps. key p = k}"
    using assms(1) distinct_card[of "elems (tab k)"] by (auto simp: indexed_def)
  also have "\<dots> \<le> card ps" using assms(2) by (intro card_mono) auto
  finally show ?thesis .
qed

lemma find_complete:
  assumes "indexed elems tab key ps" "\<And>p. P p \<Longrightarrow> p \<in> ps \<Longrightarrow> key p = k"
  shows "find P (elems (tab k)) = None \<longleftrightarrow> (\<forall>p \<in> ps. \<not> P p)"
    and "find P (elems (tab k)) = Some p \<Longrightarrow> p \<in> ps \<and> P p"
proof -
  have s: "set (elems (tab k)) = {p \<in> ps. key p = k}" using assms(1) by (simp add: indexed_def)
  show "find P (elems (tab k)) = None \<longleftrightarrow> (\<forall>p \<in> ps. \<not> P p)"
    using assms(2) s by (auto simp: find_None_iff)
  show "find P (elems (tab k)) = Some p \<Longrightarrow> p \<in> ps \<and> P p"
    using s by (auto simp: find_Some_iff dest: nth_mem)
qed

end

lemma indexed_cong:
  "\<forall>p \<in> ps. key p = key' p \<Longrightarrow> indexed elems tab key ps \<longleftrightarrow> indexed elems tab key' ps"
  unfolding indexed_def by (intro all_cong1) auto

lemma drop_first_remove1: "drop_first qs p = remove1 p qs"
  by (induction qs) auto

definition node_ok :: "hash_node \<Rightarrow> bool" where
  "node_ok n \<longleftrightarrow> node_capacity n = 0 \<longrightarrow> node_entries n = []"

interpretation node: bucket node_entries insert_entry_generic remove_entry_generic node_ok "0x10000000"
  by unfold_locales
     (auto simp: insert_entry_generic_def remove_entry_generic_def node_ok_def init_hash_node_def
       expand_hash_node_def drop_first_remove1 Let_def split: option.splits if_splits)

section \<open>The invariant of the database\<close>

definition name_key :: "fs_handles_db \<Rightarrow> ptr \<Rightarrow> nat" where
  "name_key db p = hash_function_name (e_name (entry_at db p)) mod 1024"

definition handle_key :: "fs_handles_db \<Rightarrow> ptr \<Rightarrow> nat" where
  "handle_key db p = hash_function_handle (e_handle (entry_at db p)) mod 1024"

definition ptrs :: "fs_handles_db \<Rightarrow> ptr set" where
  "ptrs db = {..<length (pool db)}"

definition tables_ok :: "fs_handles_db \<Rightarrow> bool" where
  "tables_ok db \<longleftrightarrow> indexed node_entries (by_name db) (name_key db) (ptrs db) \<and>
     indexed node_entries (by_handle db) (handle_key db) (ptrs db) \<and>
     (\<forall>k. node_ok (by_name db k) \<and> node_ok (by_handle db k))"

definition handles_ok :: "fs_handles_db \<Rightarrow> bool" where
  "handles_ok db \<longleftrightarrow> 0 < next_handle db \<and> unat (next_handle db) \<le> length (pool db) + 1 \<and>
     (\<forall>p \<in> ptrs db. e_handle (entry_at db p) < next_handle db) \<and>
     (\<forall>p \<in> ptrs db. \<forall>q \<in> ptrs db. e_handle (entry_at db p) = e_handle (entry_at db q) \<longrightarrow>
        e_handle (entry_at db p) \<noteq> 0 \<longrightarrow> p = q)"

definition db_inv :: "fs_handles_db \<Rightarrow> bool" where
  "db_inv db \<longleftrightarrow> entry_list db = rev [0..<length (pool db)] \<and> tables_ok db \<and> handles_ok db"

text \<open>Room for one more entry: below 2 to the 28 entries no bucket hits the allocation guard and
  the handle counter does not wrap.\<close>

definition db_room :: "fs_handles_db \<Rightarrow> bool" where
  "db_room db \<longleftrightarrow> length (pool db) < 0x10000000"

lemma db_inv_init: "db_inv init_fs_db"
  by (simp add: db_inv_def tables_ok_def handles_ok_def init_fs_db_def indexed_def ptrs_def empty_node_def node_ok_def)

section \<open>Every operation keeps the invariant\<close>


lemma card_ptrs [simp]: "card (ptrs db) = length (pool db)" "finite (ptrs db)"
  by (simp_all add: ptrs_def)

lemma insert_entry_pool [simp]:
  "pool (insert_entry db p) = pool db" "next_handle (insert_entry db p) = next_handle db"
  "entry_list (insert_entry db p) = entry_list db" "search_cursor (insert_entry db p) = search_cursor db"
  "handle_search (insert_entry db p) = handle_search db" "storage_search (insert_entry db p) = storage_search db"
  by (simp_all add: insert_entry_def Let_def)

lemma remove_entry_pool [simp]:
  "pool (remove_entry db p) = pool db" "next_handle (remove_entry db p) = next_handle db"
  "entry_list (remove_entry db p) = entry_list db" "search_cursor (remove_entry db p) = search_cursor db"
  "handle_search (remove_entry db p) = handle_search db" "storage_search (remove_entry db p) = storage_search db"
  by (simp_all add: remove_entry_def Let_def)

lemma insert_entry_tables:
  "by_handle (insert_entry db p) = (by_handle db)(handle_key db p := insert_entry_generic (by_handle db (handle_key db p)) p)"
  "by_name (insert_entry db p) = (by_name db)(name_key db p := insert_entry_generic (by_name db (name_key db p)) p)"
  by (simp_all add: insert_entry_def name_key_def handle_key_def Let_def)

lemma remove_entry_tables:
  "by_handle (remove_entry db p) = (by_handle db)(handle_key db p := remove_entry_generic (by_handle db (handle_key db p)) p)"
  "by_name (remove_entry db p) = (by_name db)(name_key db p := remove_entry_generic (by_name db (name_key db p)) p)"
  by (simp_all add: remove_entry_def name_key_def handle_key_def Let_def)

lemma keys_cong:
  "pool db = pool db' \<Longrightarrow> name_key db = name_key db'" "pool db = pool db' \<Longrightarrow> handle_key db = handle_key db'"
  by (simp_all add: fun_eq_iff name_key_def handle_key_def)

text \<open>The tables index a set of pointers; the invariant is the case of all of them.\<close>

definition tables_index :: "fs_handles_db \<Rightarrow> ptr set \<Rightarrow> bool" where
  "tables_index db ps \<longleftrightarrow> indexed node_entries (by_name db) (name_key db) ps \<and>
     indexed node_entries (by_handle db) (handle_key db) ps \<and>
     (\<forall>k. node_ok (by_name db k) \<and> node_ok (by_handle db k))"

lemma tables_ok_index: "tables_ok db \<longleftrightarrow> tables_index db (ptrs db)"
  by (simp add: tables_ok_def tables_index_def)

lemma tables_index_insert:
  assumes "tables_index db ps" "p \<notin> ps" "finite ps" "card ps < 0x10000000"
  shows "tables_index (insert_entry db p) (insert p ps)"
proof -
  have k: "name_key (insert_entry db p) = name_key db" "handle_key (insert_entry db p) = handle_key db"
    by (rule keys_cong; simp)+
  have len: "length (node_entries (by_name db k)) < 0x10000000" "length (node_entries (by_handle db k)) < 0x10000000" for k
    using node.bucket_length_le[of "by_name db" "name_key db" ps k] node.bucket_length_le[of "by_handle db" "handle_key db" ps k]
      assms by (auto simp: tables_index_def)
  show ?thesis
    using assms len unfolding tables_index_def k insert_entry_tables
    by (auto intro!: node.indexed_insert node.ok_ins)
qed

lemma tables_index_remove:
  assumes "tables_index db ps"
  shows "tables_index (remove_entry db p) (ps - {p})"
proof -
  have k: "name_key (remove_entry db p) = name_key db" "handle_key (remove_entry db p) = handle_key db"
    by (rule keys_cong; simp)+
  show ?thesis
    using assms unfolding tables_index_def k remove_entry_tables
    by (auto intro!: node.indexed_remove node.ok_rem)
qed

lemma tables_index_cong:
  assumes "by_name db = by_name db'" "by_handle db = by_handle db'"
    "\<And>p. p \<in> ps \<Longrightarrow> name_key db p = name_key db' p" "\<And>p. p \<in> ps \<Longrightarrow> handle_key db p = handle_key db' p"
  shows "tables_index db ps \<longleftrightarrow> tables_index db' ps"
  using indexed_cong[of ps "name_key db" "name_key db'" node_entries "by_name db'"]
    indexed_cong[of ps "handle_key db" "handle_key db'" node_entries "by_handle db'"] assms
  by (simp add: tables_index_def)

lemma take_place_simps [simp]:
  "pool (fst (take_place db e)) = pool db @ [e]" "snd (take_place db e) = length (pool db)"
  "by_name (fst (take_place db e)) = by_name db" "by_handle (fst (take_place db e)) = by_handle db"
  "entry_list (fst (take_place db e)) = entry_list db" "next_handle (fst (take_place db e)) = next_handle db"
  "search_cursor (fst (take_place db e)) = search_cursor db" "handle_search (fst (take_place db e)) = handle_search db"
  "storage_search (fst (take_place db e)) = storage_search db"
  by (simp_all add: take_place_def allocate_pool_block_def Let_def)

text \<open>Both allocations push an entry \<open>e\<close> into the pool, the tables and the list.\<close>

definition push_entry :: "fs_handles_db \<Rightarrow> fs_entry \<Rightarrow> u32 \<Rightarrow> fs_handles_db" where
  "push_entry db e nh =
    (let db2 = insert_entry ((fst (take_place db e))\<lparr>next_handle := nh\<rparr>) (length (pool db))
     in db2\<lparr>entry_list := length (pool db) # entry_list db2\<rparr>)"

lemma push_entry_pool [simp]:
  "pool (push_entry db e nh) = pool db @ [e]" "next_handle (push_entry db e nh) = nh"
  "entry_list (push_entry db e nh) = length (pool db) # entry_list db"
  "search_cursor (push_entry db e nh) = search_cursor db"
  "handle_search (push_entry db e nh) = handle_search db" "storage_search (push_entry db e nh) = storage_search db"
  by (simp_all add: push_entry_def Let_def)

definition new_entry :: "fs_handles_db \<Rightarrow> filefoundinfo \<Rightarrow> u32 \<Rightarrow> u32 \<Rightarrow> fs_entry" where
  "new_entry db fi par sid = \<lparr>e_handle = next_handle db, e_parent = par, e_storage = sid, e_name = filename fi,
     e_flags = (if isdirectory fi then ENTRY_IS_DIR else 0), e_size = fsize fi,
     e_date = 0, e_fd = 0, e_wd = -1\<rparr>"

definition root_entry :: "u32 \<Rightarrow> fs_entry" where
  "root_entry sid = \<lparr>e_handle = 0, e_parent = 0, e_storage = sid, e_name = [0x2F],
     e_flags = ENTRY_IS_DIR, e_size = 1, e_date = 0, e_fd = 0, e_wd = -1\<rparr>"

lemma alloc_entry_push:
  "alloc_entry db fi par sid = (push_entry db (new_entry db fi par sid) (next_handle db + 1), length (pool db))"
  by (cases "take_place db (new_entry db fi par sid)")
     (use take_place_simps[of db "new_entry db fi par sid"] in
      \<open>simp add: alloc_entry_def push_entry_def new_entry_def Let_def del: take_place_simps\<close>)

lemma next_handle_same: "next_handle a = h \<Longrightarrow> a\<lparr>next_handle := h\<rparr> = (a :: fs_handles_db)"
  by (cases a) simp

lemma alloc_root_entry_push:
  "alloc_root_entry db sid = (push_entry db (root_entry sid) (next_handle db), length (pool db))"
  by (cases "take_place db (root_entry sid)")
     (use take_place_simps[of db "root_entry sid"] in
      \<open>simp add: alloc_root_entry_def push_entry_def root_entry_def Let_def next_handle_same del: take_place_simps\<close>)

lemma tables_ok_push:
  assumes "tables_ok db" "db_room db"
  shows "tables_ok (push_entry db e nh)"
proof -
  let ?n = "length (pool db)"
  let ?db1 = "(fst (take_place db e))\<lparr>next_handle := nh\<rparr>"
  have "tables_index ?db1 (ptrs db)"
    using assms(1) tables_index_cong[of db ?db1 "ptrs db"]
    by (auto simp: tables_ok_index name_key_def handle_key_def ptrs_def nth_append)
  then have "tables_index (insert_entry ?db1 ?n) (insert ?n (ptrs db))"
    using assms(2) by (intro tables_index_insert) (auto simp: ptrs_def db_room_def)
  moreover have "insert ?n (ptrs db) = ptrs (push_entry db e nh)"
    by (auto simp: ptrs_def)
  moreover have "tables_index (push_entry db e nh) ps = tables_index (insert_entry ?db1 ?n) ps" for ps
    by (rule tables_index_cong) (simp_all add: push_entry_def Let_def name_key_def handle_key_def)
  ultimately show ?thesis by (simp add: tables_ok_index)
qed

lemma next_handle_bound:
  assumes "db_inv db" "db_room db"
  shows "next_handle db < next_handle db + 1" "unat (next_handle db + 1) = unat (next_handle db) + 1"
proof -
  have "unat (next_handle db) < 2 ^ 32 - 1"
    using assms by (simp add: db_inv_def handles_ok_def db_room_def)
  then show "unat (next_handle db + 1) = unat (next_handle db) + 1"
    by (subst unat_word_ariths) simp
  then show "next_handle db < next_handle db + 1" by (simp add: word_less_nat_alt)
qed

lemma db_inv_alloc_entry:
  assumes "db_inv db" "db_room db"
  shows "db_inv (fst (alloc_entry db fi par sid))"
proof -
  let ?db' = "push_entry db (new_entry db fi par sid) (next_handle db + 1)"
  note nh = next_handle_bound[OF assms]
  have "e_handle (entry_at db p) \<noteq> next_handle db" if "p < length (pool db)" for p
  proof -
    have "e_handle (entry_at db p) < next_handle db"
      using assms(1) that by (simp add: db_inv_def handles_ok_def ptrs_def)
    then show ?thesis by simp
  qed
  then have "handles_ok ?db'"
    using assms nh unfolding db_inv_def handles_ok_def
    by (auto simp: ptrs_def nth_append new_entry_def less_Suc_eq intro: order.strict_trans
        order.strict_trans1[OF word_zero_le])
  moreover have "tables_ok ?db'" using assms tables_ok_push by (simp add: db_inv_def)
  ultimately show ?thesis
    using assms(1) by (simp add: db_inv_def alloc_entry_push)
qed

lemma db_inv_alloc_root_entry:
  assumes "db_inv db" "db_room db"
  shows "db_inv (fst (alloc_root_entry db sid))"
proof -
  let ?db' = "push_entry db (root_entry sid) (next_handle db)"
  have "handles_ok ?db'"
    using assms unfolding db_inv_def handles_ok_def
    by (auto simp: ptrs_def nth_append root_entry_def less_Suc_eq)
  moreover have "tables_ok ?db'" using assms tables_ok_push by (simp add: db_inv_def)
  ultimately show ?thesis
    using assms(1) by (simp add: db_inv_def alloc_root_entry_push)
qed

lemma db_inv_add_entry:
  "db_inv db \<Longrightarrow> db_room db \<Longrightarrow> db_inv (fst (add_entry db fi par sid))"
  by (auto simp: add_entry_def db_inv_alloc_entry split: option.split)

text \<open>Updates of an entry that leave its name and handle alone.\<close>

lemma upd_entry_simps [simp]:
  "length (pool (upd_entry p f db)) = length (pool db)" "by_name (upd_entry p f db) = by_name db"
  "by_handle (upd_entry p f db) = by_handle db" "entry_list (upd_entry p f db) = entry_list db"
  "next_handle (upd_entry p f db) = next_handle db" "search_cursor (upd_entry p f db) = search_cursor db"
  "handle_search (upd_entry p f db) = handle_search db" "storage_search (upd_entry p f db) = storage_search db"
  "ptrs (upd_entry p f db) = ptrs db"
  by (simp_all add: upd_entry_def ptrs_def)

lemma entry_at_upd: "entry_at (upd_entry p f db) q = (if q = p \<and> p \<in> ptrs db then f (entry_at db p) else entry_at db q)"
  by (auto simp: upd_entry_def ptrs_def nth_list_update list_update_beyond)

lemma db_inv_upd_entry:
  assumes "db_inv db" "\<And>e. e_name (f e) = e_name e" "\<And>e. e_handle (f e) = e_handle e"
  shows "db_inv (upd_entry p f db)"
proof -
  have k: "name_key (upd_entry p f db) = name_key db" "handle_key (upd_entry p f db) = handle_key db"
    using assms(2,3) by (auto simp: fun_eq_iff name_key_def handle_key_def entry_at_upd)
  have h: "e_handle (entry_at (upd_entry p f db) q) = e_handle (entry_at db q)" for q
    using assms(3) by (simp add: entry_at_upd)
  show ?thesis
    using assms(1) by (simp add: db_inv_def tables_ok_def handles_ok_def k h)
qed

text \<open>A rename takes the entry out of the tables, changes its name and puts it back.\<close>

definition rename_entry :: "fs_handles_db \<Rightarrow> ptr \<Rightarrow> cstr \<Rightarrow> fs_handles_db" where
  "rename_entry db entry new_filename =
    insert_entry (upd_entry entry (\<lambda>e. e\<lparr>e_name := new_filename\<rparr>) (remove_entry db entry)) entry"

lemma pool_rename: "pool (rename_entry db p nm) = (pool db)[p := (entry_at db p)\<lparr>e_name := nm\<rparr>]"
  by (simp add: rename_entry_def upd_entry_def)

lemma db_inv_rename_entry:
  assumes "db_inv db" "p \<in> ptrs db" "length (pool db) \<le> 0x10000000"
  shows "db_inv (rename_entry db p nm)"
proof -
  let ?db1 = "remove_entry db p"
  let ?db2 = "upd_entry p (\<lambda>e. e\<lparr>e_name := nm\<rparr>) ?db1"
  have "tables_index ?db1 (ptrs db - {p})"
    using assms(1) by (intro tables_index_remove) (simp add: db_inv_def tables_ok_index)
  then have "tables_index ?db2 (ptrs db - {p})"
    using tables_index_cong[of ?db1 ?db2 "ptrs db - {p}"]
    by (auto simp: name_key_def handle_key_def entry_at_upd)
  then have "tables_index (insert_entry ?db2 p) (insert p (ptrs db - {p}))"
    using assms(2,3) by (intro tables_index_insert) auto
  moreover have "insert p (ptrs db - {p}) = ptrs (rename_entry db p nm)"
    using assms(2) by (auto simp: ptrs_def pool_rename)
  ultimately have "tables_ok (rename_entry db p nm)"
    by (simp add: tables_ok_index rename_entry_def)
  moreover have "e_handle (entry_at (rename_entry db p nm) q) = e_handle (entry_at db q)" for q
    using assms(2) by (simp add: pool_rename nth_list_update ptrs_def)
  moreover have "ptrs (rename_entry db p nm) = ptrs db" "next_handle (rename_entry db p nm) = next_handle db"
    "length (pool (rename_entry db p nm)) = length (pool db)" "entry_list (rename_entry db p nm) = entry_list db"
    by (simp_all add: ptrs_def pool_rename) (simp_all add: rename_entry_def)
  ultimately show ?thesis
    using assms(1) by (simp add: db_inv_def handles_ok_def)
qed

section \<open>Lookups under the invariant\<close>

definition live :: "fs_handles_db \<Rightarrow> ptr \<Rightarrow> bool" where
  "live db p \<longleftrightarrow> p \<in> ptrs db \<and> \<not> deleted (entry_at db p)"

definition named :: "fs_handles_db \<Rightarrow> cstr \<Rightarrow> u32 \<Rightarrow> u32 \<Rightarrow> ptr \<Rightarrow> bool" where
  "named db nm par sid p \<longleftrightarrow> live db p \<and> e_name (entry_at db p) = nm \<and> e_parent (entry_at db p) = par \<and>
     e_storage (entry_at db p) = sid"

lemma find_entry_iff:
  assumes "db_inv db"
  shows "find_entry db nm par sid = None \<longleftrightarrow> (\<forall>p. \<not> named db nm par sid p)"
    and "find_entry db nm par sid = Some p \<Longrightarrow> named db nm par sid p"
proof -
  have ix: "indexed node_entries (by_name db) (name_key db) (ptrs db)"
    using assms by (simp add: db_inv_def tables_ok_def)
  note fc = node.find_complete[OF ix, where k = "hash_function_name nm mod 1024" and
      P = "\<lambda>p. e_name (entry_at db p) = nm \<and> e_parent (entry_at db p) = par \<and>
              e_storage (entry_at db p) = sid \<and> \<not> deleted (entry_at db p)"]
  show "find_entry db nm par sid = None \<longleftrightarrow> (\<forall>p. \<not> named db nm par sid p)"
    using fc(1) by (auto simp: find_entry_def named_def live_def name_key_def)
  show "find_entry db nm par sid = Some p \<Longrightarrow> named db nm par sid p"
    using fc(2)[of p] by (auto simp: find_entry_def named_def live_def name_key_def)
qed

lemma get_entry_by_handle_Some:
  assumes "db_inv db" "get_entry_by_handle sts db h = Some q"
  shows "live db q \<and> e_handle (entry_at db q) = h \<and> mtp_get_storage_root sts (e_storage (entry_at db q)) \<noteq> None"
proof -
  have ix: "indexed node_entries (by_handle db) (handle_key db) (ptrs db)"
    using assms by (simp add: db_inv_def tables_ok_def)
  show ?thesis
    using assms(2) node.find_complete(2)[OF ix, where k = "hash_function_handle h mod 1024" and p = q and
      P = "\<lambda>p. \<not> deleted (entry_at db p) \<and> e_handle (entry_at db p) = h \<and>
              mtp_get_storage_root sts (e_storage (entry_at db p)) \<noteq> None"]
    by (auto simp: get_entry_by_handle_def live_def handle_key_def)
qed

lemma get_entry_by_handle_eq:
  assumes "db_inv db" "h \<noteq> 0"
  shows "get_entry_by_handle sts db h = Some p \<longleftrightarrow>
    live db p \<and> e_handle (entry_at db p) = h \<and> mtp_get_storage_root sts (e_storage (entry_at db p)) \<noteq> None"
    (is "_ \<longleftrightarrow> ?Q p")
proof -
  have ix: "indexed node_entries (by_handle db) (handle_key db) (ptrs db)"
    using assms by (simp add: db_inv_def tables_ok_def)
  note fc = node.find_complete[OF ix, where k = "hash_function_handle h mod 1024" and
      P = "\<lambda>p. \<not> deleted (entry_at db p) \<and> e_handle (entry_at db p) = h \<and>
              mtp_get_storage_root sts (e_storage (entry_at db p)) \<noteq> None"]
  have uniq: "q = p" if "?Q p" "?Q q" for q
    using assms that by (auto simp: db_inv_def handles_ok_def live_def)
  have some: "get_entry_by_handle sts db h = Some q \<Longrightarrow> ?Q q" for q
    using get_entry_by_handle_Some[OF assms(1)] by blast
  have none: "get_entry_by_handle sts db h = None \<Longrightarrow> \<not> ?Q p"
    using fc(1) by (auto simp: get_entry_by_handle_def live_def handle_key_def)
  show ?thesis
    using uniq some none by (cases "get_entry_by_handle sts db h") auto
qed

section \<open>Enumeration of the children\<close>

text \<open>The \<open>do .. while(entry)\<close> loops over \<open>get_next_child_handle\<close>: every entry up to NULL.\<close>

lemma length_dropWhile_Cons: "dropWhile P xs = y # ys \<Longrightarrow> length ys < length xs"
  using length_dropWhile_le[of P xs] by simp

function remaining_children :: "fs_handles_db \<Rightarrow> ptr list" where
  "remaining_children db =
    (case get_next_child_handle db of
       (db', None) \<Rightarrow> []
     | (db', Some entry) \<Rightarrow> entry # remaining_children db')"
  by pat_completeness auto
termination
  by (relation "measure (\<lambda>db. length (search_cursor db))")
     (auto simp: get_next_child_handle_def dest: length_dropWhile_Cons split: list.splits)

declare remaining_children.simps [simp del]

lemma is_child_cursor [simp]: "is_child (db\<lparr>search_cursor := c\<rparr>) = is_child db"
  by (simp add: fun_eq_iff is_child_def)

lemma filter_dropWhile:
  "filter P xs = (case dropWhile (\<lambda>p. \<not> P p) xs of [] \<Rightarrow> [] | y # ys \<Rightarrow> y # filter P ys)"
  by (induction xs) auto

lemma remaining_children_filter: "remaining_children db = filter (is_child db) (search_cursor db)"
proof (induction db rule: remaining_children.induct)
  case (1 db)
  show ?case
  proof (cases "dropWhile (\<lambda>p. \<not> is_child db p) (search_cursor db)")
    case Nil
    have "get_next_child_handle db = (db\<lparr>search_cursor := []\<rparr>, None)"
      by (simp only: get_next_child_handle_def Nil list.case)
    moreover have "filter (is_child db) (search_cursor db) = []"
      by (subst filter_dropWhile) (simp only: Nil list.case)
    ultimately show ?thesis
      by (subst remaining_children.simps) simp
  next
    case (Cons p rest)
    then have step: "get_next_child_handle db = (db\<lparr>search_cursor := rest\<rparr>, Some p)"
      by (simp add: get_next_child_handle_def)
    then show ?thesis
      using 1[OF step[symmetric] refl] Cons
      by (subst remaining_children.simps, subst filter_dropWhile) simp
  qed
qed

section \<open>The database as a map\<close>

text \<open>
  What the database stands for: the live entry behind each non-zero handle. Allocation is a map
  update at the next handle, deletion a removal.
\<close>

definition handle_map :: "fs_handles_db \<Rightarrow> u32 \<Rightarrow> fs_entry option" where
  "handle_map db h =
    (if h = 0 then None
     else map_option (entry_at db)
       (find (\<lambda>p. \<not> deleted (entry_at db p) \<and> e_handle (entry_at db p) = h) [0..<length (pool db)]))"

lemma handle_map_Some:
  assumes "db_inv db"
  shows "handle_map db h = Some e \<longleftrightarrow> h \<noteq> 0 \<and> (\<exists>p. live db p \<and> e_handle (entry_at db p) = h \<and> e = entry_at db p)"
proof (cases "h = 0")
  case False
  let ?P = "\<lambda>p. \<not> deleted (entry_at db p) \<and> e_handle (entry_at db p) = h"
  have uniq: "q = p" if "live db p" "e_handle (entry_at db p) = h" "live db q" "e_handle (entry_at db q) = h" for p q
    using assms that False by (auto simp: db_inv_def handles_ok_def live_def)
  show ?thesis
  proof (cases "find ?P [0..<length (pool db)]")
    case None
    then have "handle_map db h = None" by (simp only: handle_map_def option.map if_False False)
    moreover have "\<not> (live db p \<and> e_handle (entry_at db p) = h)" for p
      using None by (auto simp: find_None_iff live_def ptrs_def)
    ultimately show ?thesis by auto
  next
    case (Some p)
    then have p: "live db p" "e_handle (entry_at db p) = h"
      by (auto simp: find_Some_iff live_def ptrs_def)
    have "handle_map db h = Some (entry_at db p)" using Some False by (simp add: handle_map_def)
    then have "handle_map db h = Some e \<longleftrightarrow> e = entry_at db p" by auto
    then show ?thesis
      using p False uniq[OF p] by blast
  qed
qed (simp add: handle_map_def)

lemma handle_map_alloc_entry:
  assumes "db_inv db" "db_room db"
  shows "handle_map (fst (alloc_entry db fi par sid))
    = (handle_map db)(next_handle db \<mapsto> new_entry db fi par sid)"
proof
  fix h
  let ?db' = "fst (alloc_entry db fi par sid)"
  have inv': "db_inv ?db'" using assms by (rule db_inv_alloc_entry)
  have pool': "pool ?db' = pool db @ [new_entry db fi par sid]" by (simp add: alloc_entry_push)
  have fresh: "e_handle (entry_at db p) \<noteq> next_handle db" if "p \<in> ptrs db" for p
  proof -
    have "e_handle (entry_at db p) < next_handle db"
      using assms(1) that by (simp add: db_inv_def handles_ok_def)
    then show ?thesis by simp
  qed
  have nz: "next_handle db \<noteq> 0" using assms(1) by (auto simp: db_inv_def handles_ok_def)
  have live': "live ?db' p \<longleftrightarrow> live db p \<or> p = length (pool db)" for p
    by (auto simp: live_def ptrs_def pool' nth_append new_entry_def deleted_def has_flag_def less_Suc_eq)
  have new: "live ?db' (length (pool db))" "entry_at ?db' (length (pool db)) = new_entry db fi par sid"
    by (simp_all add: live' pool')
  have old: "entry_at ?db' p = entry_at db p" if "live db p" for p
    using that by (simp add: live_def ptrs_def pool' nth_append)
  show "handle_map ?db' h = ((handle_map db)(next_handle db \<mapsto> new_entry db fi par sid)) h"
  proof (cases "h = next_handle db")
    case True
    have "handle_map ?db' h = Some (new_entry db fi par sid)"
      unfolding handle_map_Some[OF inv'] using True nz new
      by (auto intro!: exI[of _ "length (pool db)"] simp: new_entry_def)
    then show ?thesis using True by simp
  next
    case False
    have "handle_map ?db' h = Some e \<longleftrightarrow> handle_map db h = Some e" for e
      unfolding handle_map_Some[OF inv'] handle_map_Some[OF assms(1)]
      using False live' old new by (auto simp: new_entry_def)
    then have "handle_map ?db' h = handle_map db h" by (rule option_eqI)
    then show ?thesis using False by simp
  qed
qed

definition mark_deleted :: "fs_entry \<Rightarrow> fs_entry" where
  "mark_deleted e = e\<lparr>e_flags := e_flags e OR ENTRY_IS_DELETED\<rparr>"

lemma mark_deleted_simps [simp]:
  "deleted (mark_deleted e)" "e_name (mark_deleted e) = e_name e" "e_handle (mark_deleted e) = e_handle e"
  by (simp_all add: mark_deleted_def deleted_def has_flag_or) (simp add: has_flag_def)

lemma handle_map_delete:
  assumes "db_inv db" "live db p"
  shows "handle_map (upd_entry p mark_deleted db) = (handle_map db)(e_handle (entry_at db p) := None)"
proof
  fix h
  let ?db' = "upd_entry p mark_deleted db"
  have inv': "db_inv ?db'" using assms(1) by (intro db_inv_upd_entry) simp_all
  have live': "live ?db' q \<longleftrightarrow> live db q \<and> q \<noteq> p" for q
    using assms(2) by (auto simp: live_def entry_at_upd)
  have uniq: "q = p" if "live db q" "e_handle (entry_at db q) = e_handle (entry_at db p)" "e_handle (entry_at db p) \<noteq> 0" for q
    using assms that by (auto simp: db_inv_def handles_ok_def live_def)
  have at': "entry_at ?db' q = entry_at db q" if "q \<noteq> p" for q
    using that by (simp add: entry_at_upd)
  show "handle_map ?db' h = ((handle_map db)(e_handle (entry_at db p) := None)) h"
  proof (cases "h = e_handle (entry_at db p)")
    case True
    have "handle_map ?db' h \<noteq> Some e" for e
    proof
      assume "handle_map ?db' h = Some e"
      then obtain q where q: "h \<noteq> 0" "live db q" "q \<noteq> p" "e_handle (entry_at ?db' q) = h"
        unfolding handle_map_Some[OF inv'] live' by blast
      then have "e_handle (entry_at db q) = e_handle (entry_at db p)" using at'[of q] True by simp
      then show False using uniq[of q] q True by simp
    qed
    then show ?thesis using True by (cases "handle_map ?db' h") auto
  next
    case False
    have "handle_map ?db' h = Some e \<longleftrightarrow> handle_map db h = Some e" for e
      unfolding handle_map_Some[OF inv'] handle_map_Some[OF assms(1)] live'
      using at' False by metis
    then have "handle_map ?db' h = handle_map db h" by (rule option_eqI)
    then show ?thesis using False by simp
  qed
qed


lemma live_push:
  assumes "\<not> deleted e"
  shows "live (push_entry db e nh) q \<longleftrightarrow> live db q \<or> q = length (pool db)"
  using assms by (auto simp: live_def ptrs_def nth_append less_Suc_eq)

lemma new_entry_live: "\<not> deleted (new_entry db fi par sid)"
  by (simp add: new_entry_def deleted_def has_flag_def)

lemma named_alloc_entry:
  "named (fst (alloc_entry db fi par sid)) nm par' sid' q \<longleftrightarrow>
    named db nm par' sid' q \<or> q = length (pool db) \<and> nm = filename fi \<and> par' = par \<and> sid' = sid"
  using live_push[OF new_entry_live[of db fi par sid], of db "next_handle db + 1" q]
  by (auto simp: named_def alloc_entry_push nth_append new_entry_def live_def ptrs_def)

lemma handle_map_rename:
  assumes "db_inv db" "live db p" "e_handle (entry_at db p) \<noteq> 0" "length (pool db) \<le> 0x10000000"
  shows "handle_map (rename_entry db p nm)
    = (handle_map db)(e_handle (entry_at db p) \<mapsto> (entry_at db p)\<lparr>e_name := nm\<rparr>)"
proof
  fix h
  let ?db' = "rename_entry db p nm"
  have inv': "db_inv ?db'" using assms by (intro db_inv_rename_entry) (simp_all add: live_def)
  have at': "entry_at ?db' q = (if q = p then (entry_at db p)\<lparr>e_name := nm\<rparr> else entry_at db q)" for q
    using assms(2) by (simp add: pool_rename live_def ptrs_def nth_list_update)
  have live': "live ?db' q \<longleftrightarrow> live db q" for q
    by (simp add: live_def at' deleted_def) (simp add: ptrs_def pool_rename)
  show "handle_map ?db' h = ((handle_map db)(e_handle (entry_at db p) \<mapsto> (entry_at db p)\<lparr>e_name := nm\<rparr>)) h"
  proof (cases "h = e_handle (entry_at db p)")
    case True
    have "handle_map ?db' h = Some ((entry_at db p)\<lparr>e_name := nm\<rparr>)"
      unfolding handle_map_Some[OF inv'] live' using True assms(2,3)
      by (intro conjI exI[of _ p]) (simp_all add: at')
    then show ?thesis using True by simp
  next
    case False
    have "handle_map ?db' h = Some e \<longleftrightarrow> handle_map db h = Some e" for e
    proof -
      have "e_handle (entry_at ?db' q) = h \<and> e = entry_at ?db' q \<longleftrightarrow>
          e_handle (entry_at db q) = h \<and> e = entry_at db q" for q
        using False by (simp add: at')
      then show ?thesis unfolding handle_map_Some[OF inv'] handle_map_Some[OF assms(1)] live' by blast
    qed
    then have "handle_map ?db' h = handle_map db h" by (rule option_eqI)
    then show ?thesis using False by simp
  qed
qed

section \<open>Properties\<close>

text \<open>C22. \<open>add_entry\<close> gives the entry of that name under that parent and storage: the live one the
  database has, in which case nothing changes, or else a new one under the next handle, no other
  handle being touched. Adding the same file again finds it and changes nothing.\<close>

theorem add_entry_spec:
  assumes "db_inv db" "db_room db" "add_entry db fi par sid = (db', p)"
  shows "db_inv db' \<and> named db' (filename fi) par sid p \<and> add_entry db' fi par sid = (db', p) \<and>
    (if \<exists>q. named db (filename fi) par sid q then db' = db
     else p = length (pool db) \<and> handle_map db' = (handle_map db)(next_handle db \<mapsto> new_entry db fi par sid))"
proof (cases "find_entry db (filename fi) par sid")
  case None
  then have res: "db' = fst (alloc_entry db fi par sid)" "p = length (pool db)"
    using assms(3) by (simp_all add: add_entry_def search_entry_def alloc_entry_push)
  have inv': "db_inv db'" using res db_inv_alloc_entry assms by simp
  have none: "\<not> named db (filename fi) par sid q" for q
    using find_entry_iff(1)[OF assms(1)] None by blast
  have only: "named db' (filename fi) par sid q \<longleftrightarrow> q = p" for q
    using named_alloc_entry[of db fi par sid "filename fi" par sid q] none res by simp
  obtain q where q: "find_entry db' (filename fi) par sid = Some q"
    using find_entry_iff(1)[OF inv'] only by blast
  then have "q = p" using find_entry_iff(2)[OF inv'] only by blast
  then show ?thesis
    using q only none inv' handle_map_alloc_entry[OF assms(1,2)] res by (simp add: add_entry_def search_entry_def)
next
  case (Some q)
  then show ?thesis
    using assms find_entry_iff(2)[OF assms(1) Some] by (auto simp: add_entry_def search_entry_def)
qed

theorem add_entry_spec_witness:
  "let (db', p) = add_entry init_fs_db \<lparr>isdirectory = False, filename = [0x61], fsize = 3\<rparr> 0 0xFFFF0001
   in p = 0 \<and> handle_map db' 1 = Some (new_entry init_fs_db \<lparr>isdirectory = False, filename = [0x61], fsize = 3\<rparr> 0 0xFFFF0001)"
proof -
  let ?fi = "\<lparr>isdirectory = False, filename = [0x61 :: byte], fsize = 3\<rparr>"
  obtain db' p where a: "add_entry init_fs_db ?fi 0 0xFFFF0001 = (db', p)"
    by (cases "add_entry init_fs_db ?fi 0 0xFFFF0001")
  have "db_room init_fs_db" "\<not> named init_fs_db nm par sid q" "next_handle init_fs_db = 1" "pool init_fs_db = []" for nm par sid q
    by (simp_all add: db_room_def init_fs_db_def named_def live_def ptrs_def)
  then show ?thesis using add_entry_spec[OF db_inv_init _ a] a by simp
qed



text \<open>C23. The search cursor yields every live child of the folder on the storage exactly once,
  newest first, and then NULL.\<close>

theorem children_enumerated:
  assumes "db_inv db"
  shows "distinct (remaining_children (init_search_handle db par sid)) \<and>
    remaining_children (init_search_handle db par sid)
    = rev (filter (\<lambda>p. \<not> deleted (entry_at db p) \<and> e_parent (entry_at db p) = par \<and>
        e_storage (entry_at db p) = sid \<and> e_handle (entry_at db p) \<noteq> par) [0..<length (pool db)])"
proof -
  have "search_cursor (init_search_handle db par sid) = rev [0..<length (pool db)]"
    using assms by (simp add: init_search_handle_def db_inv_def)
  moreover have "is_child (init_search_handle db par sid) = (\<lambda>p. \<not> deleted (entry_at db p) \<and>
      e_parent (entry_at db p) = par \<and> e_storage (entry_at db p) = sid \<and> e_handle (entry_at db p) \<noteq> par)"
    by (auto simp: fun_eq_iff is_child_def init_search_handle_def)
  ultimately show ?thesis
    by (simp add: remaining_children_filter rev_filter)
qed

theorem children_enumerated_witness:
  "remaining_children (init_search_handle (fst (add_entry init_fs_db \<lparr>isdirectory = False, filename = [0x61], fsize = 3\<rparr> 0 5)) 0 5) = [0]"
proof -
  let ?db = "fst (add_entry init_fs_db \<lparr>isdirectory = False, filename = [0x61], fsize = 3\<rparr> 0 5)"
  have "find_entry init_fs_db nm par sid = None" for nm par sid
    by (simp add: find_entry_def init_fs_db_def empty_node_def)
  then have pool: "pool ?db = [new_entry init_fs_db \<lparr>isdirectory = False, filename = [0x61], fsize = 3\<rparr> 0 5]"
    by (simp add: add_entry_def search_entry_def alloc_entry_push) (simp add: init_fs_db_def)
  have "db_inv ?db"
    by (intro db_inv_add_entry db_inv_init) (simp add: db_room_def init_fs_db_def)
  from children_enumerated[OF this, of 0 5] show ?thesis
    by (simp add: pool new_entry_def deleted_def has_flag_def) (simp add: init_fs_db_def)
qed

text \<open>Renaming an object keeps the invariant and its handle, changes nothing but the name in
  the map of the database, and makes the object reachable under its new name.\<close>

theorem rename_entry_spec:
  assumes "db_inv db" "live db p" "e_handle (entry_at db p) \<noteq> 0" "length (pool db) \<le> 0x10000000"
  shows "db_inv (rename_entry db p nm) \<and>
    handle_map (rename_entry db p nm)
      = (handle_map db)(e_handle (entry_at db p) \<mapsto> (entry_at db p)\<lparr>e_name := nm\<rparr>) \<and>
    find_entry (rename_entry db p nm) nm (e_parent (entry_at db p)) (e_storage (entry_at db p)) \<noteq> None"
proof -
  have inv': "db_inv (rename_entry db p nm)"
    using assms by (intro db_inv_rename_entry) (simp_all add: live_def)
  have "named (rename_entry db p nm) nm (e_parent (entry_at db p)) (e_storage (entry_at db p)) p"
    using assms(2) by (simp add: named_def live_def pool_rename ptrs_def deleted_def)
  then show ?thesis
    using inv' handle_map_rename[OF assms] find_entry_iff(1)[OF inv'] by blast
qed

theorem rename_entry_spec_witness:
  "let db = fst (add_entry init_fs_db \<lparr>isdirectory = False, filename = [0x61], fsize = 3\<rparr> 0 5)
   in find_entry (rename_entry db 0 [0x62]) [0x62] 0 5 \<noteq> None"
proof -
  let ?db = "fst (add_entry init_fs_db \<lparr>isdirectory = False, filename = [0x61], fsize = 3\<rparr> 0 5)"
  have "find_entry init_fs_db nm par sid = None" for nm par sid
    by (simp add: find_entry_def init_fs_db_def empty_node_def)
  then have pool: "pool ?db = [new_entry init_fs_db \<lparr>isdirectory = False, filename = [0x61], fsize = 3\<rparr> 0 5]"
    by (simp add: add_entry_def search_entry_def alloc_entry_push) (simp add: init_fs_db_def)
  have inv: "db_inv ?db"
    by (intro db_inv_add_entry db_inv_init) (simp add: db_room_def init_fs_db_def)
  have "live ?db 0" "e_handle (entry_at ?db 0) \<noteq> 0" "length (pool ?db) \<le> 0x10000000"
    by (simp_all add: pool live_def ptrs_def new_entry_live) (simp add: new_entry_def init_fs_db_def)
  from rename_entry_spec[OF inv this, of "[0x62]"] show ?thesis
    by (simp add: pool new_entry_def)
qed

end
