(* ===== verification/Ctx.thy ===== *)
theory Ctx
  imports Sanitize HandleDb
begin

text \<open>
  The responder context \<open>mtp_ctx\<close> of \<open>inc/mtp.h\<close>, the operating system it runs on, and the
  small helpers every operation uses: identity switching (\<open>src/mtp_helpers.c\<close>), the USB end
  points (\<open>read_usb\<close>, \<open>write_usb\<close> of \<open>src/usb_gadget.c\<close>) and the inotify watch points of
  \<open>src/inotify.c\<close>.

  The kernel and the file system are not part of the repository. They are a parameter of the
  model: a record \<open>os\<close> of the system calls the code makes, over an abstract world \<open>'w\<close> that is
  threaded through the context. The other threads act through it too: the control thread may set
  \<open>cancel_req\<close> at any USB transfer.
\<close>

section \<open>The operating system\<close>

record stat_info =
  st_isdir :: bool
  st_size :: int
  st_mtime :: int

record tm_info =
  tm_year :: int
  tm_mon :: int
  tm_mday :: int
  tm_hour :: int
  tm_min :: int
  tm_sec :: int

datatype open_flag = O_RDONLY | O_WRONLY | O_RDWR | O_CREAT | O_TRUNC | O_LARGEFILE | O_SYNC

datatype whence = SEEK_SET | SEEK_END

text \<open>Calls that only look at the world have no world in their result.\<close>

record 'w os =
  os_realpath :: "'w \<Rightarrow> cstr \<Rightarrow> errno + cstr"
  os_stat :: "'w \<Rightarrow> cstr \<Rightarrow> stat_info option"
  os_lstat :: "'w \<Rightarrow> cstr \<Rightarrow> stat_info option"
  os_readdir :: "'w \<Rightarrow> cstr \<Rightarrow> cstr list option"
  os_remove :: "'w \<Rightarrow> cstr \<Rightarrow> 'w \<times> int"
  os_mkdir :: "'w \<Rightarrow> cstr \<Rightarrow> 'w \<times> int"
  os_open :: "'w \<Rightarrow> cstr \<Rightarrow> open_flag list \<Rightarrow> 'w \<times> int"
  os_close :: "'w \<Rightarrow> int \<Rightarrow> 'w"
  os_fsync :: "'w \<Rightarrow> int \<Rightarrow> 'w"
  os_lseek :: "'w \<Rightarrow> int \<Rightarrow> int \<Rightarrow> whence \<Rightarrow> 'w \<times> int"
  os_read :: "'w \<Rightarrow> int \<Rightarrow> int \<Rightarrow> 'w \<times> byte list option"
  os_write :: "'w \<Rightarrow> int \<Rightarrow> byte list \<Rightarrow> 'w \<times> int"
  os_truncate :: "'w \<Rightarrow> cstr \<Rightarrow> int \<Rightarrow> 'w \<times> errno option"
  os_rename :: "'w \<Rightarrow> cstr \<Rightarrow> cstr \<Rightarrow> 'w \<times> int"
  os_setfsuid :: "'w \<Rightarrow> int \<Rightarrow> 'w \<times> int"
  os_setfsgid :: "'w \<Rightarrow> int \<Rightarrow> 'w \<times> int"
  os_add_watch :: "'w \<Rightarrow> cstr \<Rightarrow> 'w \<times> int"
  os_rm_watch :: "'w \<Rightarrow> int \<Rightarrow> 'w"
  os_statvfs :: "'w \<Rightarrow> cstr \<Rightarrow> (u64 \<times> u64 \<times> u64) option"
  os_localtime :: "int \<Rightarrow> tm_info"
  os_battery :: "'w \<Rightarrow> cstr \<Rightarrow> int option"
  os_ep_write :: "'w \<Rightarrow> nat \<Rightarrow> byte list \<Rightarrow> 'w \<times> int"
  os_ep_read :: "'w \<Rightarrow> int \<Rightarrow> 'w \<times> byte list option"
  os_thread_create :: "'w \<Rightarrow> 'w \<times> int"
  os_thread_stop :: "'w \<Rightarrow> 'w"
  os_clear_halt :: "'w \<Rightarrow> int \<Rightarrow> 'w"
  os_cancel :: "'w \<Rightarrow> bool"
  os_lock_fails :: "'w \<Rightarrow> bool"

section \<open>The context\<close>

record mtp_usb_cfg =
  usb_vendor_id :: u16
  usb_product_id :: u16
  usb_class :: u8
  usb_subclass :: u8
  usb_protocol :: u8
  usb_dev_version :: u16
  usb_max_packet_size :: u16
  usb_functionfs_mode :: u8
  usb_device_path :: cstr
  usb_endpoint_in :: cstr
  usb_endpoint_out :: cstr
  usb_endpoint_intin :: cstr
  usb_string_manufacturer :: cstr
  usb_string_product :: cstr
  usb_string_serial :: cstr
  usb_string_version :: cstr
  usb_string_mtp_extensions :: cstr
  usb_string_interface :: cstr
  synchronization_partner :: cstr
  battery_capacity :: cstr
  perceived_device_type :: u32
  wait_connection :: int
  loop_on_disconnect :: int
  show_hidden_files :: int
  val_umask :: int

text \<open>
  The gadget: its descriptors as the bytes of the kernel structures, its end points, and the
  state of the thread that serves them.
\<close>

record EndPointsDesc =
  if_desc :: "byte list"
  ep_desc_in :: "byte list"
  ep_desc_out :: "byte list"
  ep_desc_int_in :: "byte list"

record usb_cfg_desc =
  cfg_fs :: "byte list"
  ep_desc_fs :: EndPointsDesc
  cfg_hs :: "byte list"
  ep_desc_hs :: EndPointsDesc
  dev_desc :: "byte list"

record usb_ffs_cfg =
  ffs_desc_fs :: EndPointsDesc
  ffs_desc_hs :: EndPointsDesc

record usb_gadget =
  ep_handles :: "int list"
  stop :: bool
  usb_device :: int
  usb_config :: "usb_cfg_desc option"
  usb_ffs_config :: "usb_ffs_cfg option"
  ep_config :: "byte list list"
  ep_path :: "cstr list"
  stringtab :: "(nat \<times> cstr option) list"
  gadget_wait :: int
  thread_not_started :: int

text \<open>The end points: \<open>EP_DESCRIPTOR_IN\<close>, \<open>EP_DESCRIPTOR_OUT\<close>, \<open>EP_DESCRIPTOR_INT_IN\<close>.\<close>

abbreviation (input) EP_DESCRIPTOR_IN :: nat where "EP_DESCRIPTOR_IN \<equiv> 0"
abbreviation (input) EP_DESCRIPTOR_OUT :: nat where "EP_DESCRIPTOR_OUT \<equiv> 1"
abbreviation (input) EP_DESCRIPTOR_INT_IN :: nat where "EP_DESCRIPTOR_INT_IN \<equiv> 2"
abbreviation (input) EP_NB_OF_DESCRIPTORS :: nat where "EP_NB_OF_DESCRIPTORS \<equiv> 3"

text \<open>
  \<open>usb_out\<close> records what \<open>write_usb\<close> handed to the kernel, and on which end point;
  \<open>inotify_locked\<close> is the state of \<open>inotify_mutex\<close>. Neither is read by the code.
\<close>

record 'w mtp_ctx =
  session_id :: u32
  usb_cfg :: mtp_usb_cfg
  usb_ctx :: usb_gadget
  wrbuffer :: buffer
  usb_wr_buffer_max_size :: int
  rdbuffer :: buffer
  rdbuffer2 :: buffer
  usb_rd_buffer_max_size :: int
  read_file_buffer :: "buffer option"
  read_file_buffer_size :: int
  temp_array :: "u32 list"
  fs_db :: "fs_handles_db option"
  SendObjInfoHandle :: u32
  SendObjInfoSize :: int
  SendObjInfoOffset :: int
  SetObjectPropValue_Handle :: u32
  SetObjectPropValue_PropCode :: u32
  max_packet_size :: u32
  storages :: storages
  inotify_fd :: int
  no_inotify :: int
  sync_when_close :: int
  ctx_uid :: int
  ctx_gid :: int
  default_uid :: int
  default_gid :: int
  cancel_req :: int
  transferring_file_data :: bool
  inotify_locked :: bool
  usb_out :: "(nat \<times> byte list) list"
  world :: 'w

text \<open>The open database; the operations test \<open>fs_db\<close> first.\<close>

definition the_db :: "'w mtp_ctx \<Rightarrow> fs_handles_db" where
  "the_db ctx = (case fs_db ctx of Some db \<Rightarrow> db | None \<Rightarrow> init_fs_db)"

definition set_db :: "fs_handles_db \<Rightarrow> 'w mtp_ctx \<Rightarrow> 'w mtp_ctx" where
  "set_db db ctx = ctx\<lparr>fs_db := Some db\<rparr>"

lemma the_db_set_db [simp]: "the_db (set_db db ctx) = db"
  by (simp add: the_db_def set_db_def)

lemma set_db_frame [simp]:
  "world (set_db db ctx) = world ctx" "storages (set_db db ctx) = storages ctx"
  "usb_cfg (set_db db ctx) = usb_cfg ctx" "fs_db (set_db db ctx) = Some db"
  "inotify_locked (set_db db ctx) = inotify_locked ctx" "usb_out (set_db db ctx) = usb_out ctx"
  "the_db (set_db db ctx) = db" "set_db db (set_db db' ctx) = set_db db ctx"
  by (simp_all add: set_db_def the_db_def)

definition lock_inotify :: "'w mtp_ctx \<Rightarrow> 'w mtp_ctx" where
  "lock_inotify ctx = ctx\<lparr>inotify_locked := True\<rparr>"

definition unlock_inotify :: "'w mtp_ctx \<Rightarrow> 'w mtp_ctx" where
  "unlock_inotify ctx = ctx\<lparr>inotify_locked := False\<rparr>"

section \<open>Identity\<close>

text \<open>\<open>setfsuid\<close> and \<open>setfsgid\<close> return the previous identity, which the code takes for an error.\<close>

definition set_giduid :: "'w os \<Rightarrow> 'w mtp_ctx \<Rightarrow> int \<Rightarrow> int \<Rightarrow> 'w mtp_ctx \<times> int" where
  "set_giduid os ctx u g =
    (let (ctx1, ret1) = (if u \<ge> 0 then (case os_setfsuid os (world ctx) u of
           (w, prev) \<Rightarrow> (ctx\<lparr>world := w\<rparr>, if prev \<noteq> 0 then -1 else 0)) else (ctx, 0));
         (ctx2, ret2) = (if g \<ge> 0 then (case os_setfsgid os (world ctx1) g of
           (w, prev) \<Rightarrow> (ctx1\<lparr>world := w\<rparr>, if prev \<noteq> 0 then -1 else ret1)) else (ctx1, ret1))
     in (ctx2, ret2))"

definition restore_giduid :: "'w os \<Rightarrow> 'w mtp_ctx \<Rightarrow> 'w mtp_ctx \<times> int" where
  "restore_giduid os ctx = set_giduid os ctx (ctx_uid ctx) (ctx_gid ctx)"

definition set_storage_giduid :: "'w os \<Rightarrow> 'w mtp_ctx \<Rightarrow> u32 \<Rightarrow> 'w mtp_ctx \<times> int" where
  "set_storage_giduid os ctx sid =
    (let i = mtp_get_storage_index_by_id (storages ctx) sid in
     if i \<ge> 0 \<and> i < 16 then
       (let s = storages ctx ! nat i;
            u = (if uid s \<noteq> -1 then uid s else default_uid ctx);
            g = (if gid s \<noteq> -1 then uid s else default_gid ctx)
        in set_giduid os ctx u g)
     else (ctx, -1))"

text \<open>Identity switching touches the world only.\<close>

lemma the_db_world [simp]:
  "the_db (ctx\<lparr>world := w\<rparr>) = the_db ctx" "the_db (ctx\<lparr>fs_db := Some db\<rparr>) = db"
  by (simp_all add: the_db_def)

lemma set_giduid_world: "\<exists>w. fst (set_giduid os ctx u g) = ctx\<lparr>world := w\<rparr>"
proof -
  have "\<exists>w. ctx = ctx\<lparr>world := w\<rparr>" by (rule exI[of _ "world ctx"]) simp
  then show ?thesis
    by (auto simp: set_giduid_def Let_def split: prod.split)
qed

lemma restore_giduid_world: "\<exists>w. fst (restore_giduid os ctx) = ctx\<lparr>world := w\<rparr>"
  unfolding restore_giduid_def by (rule set_giduid_world)

lemma set_storage_giduid_world: "\<exists>w. fst (set_storage_giduid os ctx sid) = ctx\<lparr>world := w\<rparr>"
proof -
  have "\<exists>w. ctx = ctx\<lparr>world := w\<rparr>" by (rule exI[of _ "world ctx"]) simp
  then show ?thesis
    using set_giduid_world by (auto simp: set_storage_giduid_def Let_def)
qed

lemma giduid_frame [simp]:
  "fs_db (fst (restore_giduid os ctx)) = fs_db ctx" "fs_db (fst (set_storage_giduid os ctx sid)) = fs_db ctx"
  "the_db (fst (restore_giduid os ctx)) = the_db ctx" "the_db (fst (set_storage_giduid os ctx sid)) = the_db ctx"
  "storages (fst (restore_giduid os ctx)) = storages ctx" "storages (fst (set_storage_giduid os ctx sid)) = storages ctx"
  "inotify_locked (fst (restore_giduid os ctx)) = inotify_locked ctx"
  "inotify_locked (fst (set_storage_giduid os ctx sid)) = inotify_locked ctx"
  "usb_out (fst (restore_giduid os ctx)) = usb_out ctx" "usb_out (fst (set_storage_giduid os ctx sid)) = usb_out ctx"
  using restore_giduid_world[of os ctx] set_storage_giduid_world[of os ctx sid] by auto

text \<open>File system calls change the world and the database, nothing else of the context.\<close>

definition fs_step :: "'w mtp_ctx \<Rightarrow> 'w mtp_ctx \<Rightarrow> bool" where
  "fs_step ctx c \<longleftrightarrow> c\<lparr>world := world ctx, fs_db := fs_db ctx\<rparr> = ctx"

lemma fs_step_refl [intro, simp]: "fs_step ctx ctx"
  by (simp add: fs_step_def)

lemma fs_step_trans [trans]: "fs_step a b \<Longrightarrow> fs_step b c \<Longrightarrow> fs_step a c"
  by (cases a; cases b; cases c) (simp add: fs_step_def)

lemma fs_step_world [simp]: "fs_step ctx (c\<lparr>world := w\<rparr>) = fs_step ctx c"
  by (simp add: fs_step_def)

lemma fs_step_set_db [simp]: "fs_step ctx (set_db db c) = fs_step ctx c"
  by (simp add: fs_step_def set_db_def)

lemma fs_step_shape: "fs_step ctx c \<Longrightarrow> \<exists>w db. c = ctx\<lparr>world := w, fs_db := db\<rparr>"
  by (rule exI[of _ "world c"], rule exI[of _ "fs_db c"], cases c, cases ctx) (simp add: fs_step_def)

lemma fs_step_set_db_left [simp]: "fs_step (set_db db c) c' = fs_step c c'"
  by (cases c; cases c') (simp add: fs_step_def set_db_def)

lemma fs_step_storages: "fs_step ctx ctx' \<Longrightarrow> storages ctx' = storages ctx"
  using fs_step_shape[of ctx ctx'] by auto

lemma fs_step_giduid [intro, simp]:
  "fs_step ctx c \<Longrightarrow> fs_step ctx (fst (restore_giduid os c))"
  "fs_step ctx c \<Longrightarrow> fs_step ctx (fst (set_storage_giduid os c sid))"
  using restore_giduid_world[of os c] set_storage_giduid_world[of os c sid] by auto

section \<open>USB end points\<close>

text \<open>A transfer gives the control thread the occasion to set \<open>cancel_req\<close>.\<close>

definition after_transfer :: "'w os \<Rightarrow> 'w \<Rightarrow> 'w mtp_ctx \<Rightarrow> 'w mtp_ctx" where
  "after_transfer os w ctx = ctx\<lparr>world := w, cancel_req := (if os_cancel os w then 2 else cancel_req ctx)\<rparr>"

definition is_usb_up :: "usb_gadget \<Rightarrow> bool" where
  "is_usb_up g \<longleftrightarrow> \<not> stop g"

definition write_usb :: "'w os \<Rightarrow> 'w mtp_ctx \<Rightarrow> nat \<Rightarrow> byte list \<Rightarrow> 'w mtp_ctx \<times> int" where
  "write_usb os ctx channel data =
    (if channel < EP_NB_OF_DESCRIPTORS then
       (if ep_handles (usb_ctx ctx) ! channel \<ge> 0 \<and> cancel_req ctx = 0 then
          (if \<not> is_usb_up (usb_ctx ctx) then (ctx, -1)
           else (case os_ep_write os (world ctx) channel data of
              (w, ret) \<Rightarrow> (after_transfer os w (ctx\<lparr>usb_out := usb_out ctx @ [(channel, data)]\<rparr>), ret)))
        else (ctx, -1))
     else (ctx, -1))"

text \<open>\<open>None\<close> is a negative result; the bytes read are a prefix of the caller's buffer.\<close>

definition read_usb :: "'w os \<Rightarrow> 'w mtp_ctx \<Rightarrow> int \<Rightarrow> 'w mtp_ctx \<times> byte list option" where
  "read_usb os ctx maxsize =
    (if ep_handles (usb_ctx ctx) ! EP_DESCRIPTOR_OUT \<ge> 0 \<and> maxsize \<noteq> 0
     then (case os_ep_read os (world ctx) maxsize of (w, ret) \<Rightarrow> (after_transfer os w ctx, ret))
     else (ctx, None))"

text \<open>The link is there and nobody cancels.\<close>

definition link_up :: "'w os \<Rightarrow> 'w mtp_ctx \<Rightarrow> bool" where
  "link_up os ctx \<longleftrightarrow> (\<forall>w. \<not> os_cancel os w) \<and> cancel_req ctx = 0 \<and> ep_handles (usb_ctx ctx) ! 0 \<ge> 0 \<and> \<not> stop (usb_ctx ctx)"

lemma write_usb_up:
  assumes "link_up os ctx"
  obtains w where "fst (write_usb os ctx 0 data) = ctx\<lparr>world := w, usb_out := usb_out ctx @ [(0, data)]\<rparr>"
proof
  show "fst (write_usb os ctx 0 data) = ctx\<lparr>world := fst (os_ep_write os (world ctx) 0 data), usb_out := usb_out ctx @ [(0, data)]\<rparr>"
    using assms by (cases ctx) (auto simp: write_usb_def link_up_def is_usb_up_def after_transfer_def split: prod.splits)
qed

lemma link_up_fs_step: "fs_step ctx ctx' \<Longrightarrow> link_up os ctx' = link_up os ctx"
  using fs_step_shape[of ctx ctx'] by (auto simp: link_up_def)

section \<open>Watch points\<close>

definition inotify_handler_addwatch :: "'w os \<Rightarrow> 'w mtp_ctx \<Rightarrow> cstr \<Rightarrow> 'w mtp_ctx \<times> int" where
  "inotify_handler_addwatch os ctx path =
    (if inotify_fd ctx \<noteq> -1 then
       (if no_inotify ctx = 0 then
          (case os_add_watch os (world ctx) path of (w, wd) \<Rightarrow> (ctx\<lparr>world := w\<rparr>, wd))
        else (ctx, -1))
     else (ctx, -1))"

definition inotify_handler_rmwatch :: "'w os \<Rightarrow> 'w mtp_ctx \<Rightarrow> int \<Rightarrow> 'w mtp_ctx" where
  "inotify_handler_rmwatch os ctx wd =
    (if inotify_fd ctx \<noteq> -1 \<and> wd \<noteq> -1 then ctx\<lparr>world := os_rm_watch os (world ctx) wd\<rparr> else ctx)"

section \<open>Responses\<close>

text \<open>The container header of inc/mtp.h as it lies in memory: length, type, code, transaction.\<close>

definition header_bytes :: "u32 \<Rightarrow> u16 \<Rightarrow> u16 \<Rightarrow> u32 \<Rightarrow> byte list" where
  "header_bytes len typ code tx_id = le32 len @ le16 typ @ le16 code @ le32 tx_id"

definition hdr_length :: "buffer \<Rightarrow> u32" where "hdr_length p = peek p 0 4"
definition hdr_operation :: "buffer \<Rightarrow> u16" where "hdr_operation p = ucast (peek p 4 2)"
definition hdr_code :: "buffer \<Rightarrow> u16" where "hdr_code p = ucast (peek p 6 2)"
definition hdr_tx_id :: "buffer \<Rightarrow> u32" where "hdr_tx_id p = peek p 8 4"

text \<open>\<open>datain\<close> holds the \<open>size\<close> bytes behind the header.\<close>

definition build_response ::
  "u32 \<Rightarrow> u16 \<Rightarrow> u16 \<Rightarrow> buffer \<Rightarrow> int \<Rightarrow> byte list \<Rightarrow> buffer \<times> int" where
  "build_response tx_id typ status buffer maxsize datain =
    (let tmp_hdr = header_bytes (12 + word_of_nat (length datain)) typ status tx_id;
         (buffer1, ofs) = poke_array buffer 0 maxsize 12 1 tmp_hdr False
     in if datain \<noteq> [] then poke_array buffer1 ofs maxsize (length datain) 1 datain False
        else (buffer1, ofs))"

lemma length_header_bytes [simp]: "length (header_bytes len typ code tx) = 12"
  by (simp add: header_bytes_def le32_def le16_def)

lemma build_response_fits:
  assumes "12 + int (length data) < maxsize" "maxsize \<le> int (length buf)"
  shows "build_response tx typ code buf maxsize data
    = (write_at buf 0 (header_bytes (12 + word_of_nat (length data)) typ code tx @ data), 12 + int (length data))"
proof -
  have l12: "length (header_bytes l typ code tx) = 12" for l by (simp add: header_bytes_def le32_def le16_def)
  have pa: "poke_array b ofs maxsize (length bs) 1 bs False = (write_at b (nat ofs) bs, ofs + int (length bs))"
    if "0 \<le> ofs" "length b = length buf" "ofs + int (length bs) < maxsize" for b ofs bs
    using poke_array_fits[of ofs maxsize b 1 bs False] that assms(2) by (simp add: w_array_def array_enc_def)
  let ?h = "header_bytes (12 + word_of_nat (length data)) typ code tx"
  have h: "poke_array buf 0 maxsize 12 1 ?h False = (write_at buf 0 ?h, 12)"
    using pa[of 0 buf ?h] assms(1) l12 by simp
  have len: "length (write_at buf 0 ?h) = length buf" using assms l12 by simp
  have d: "poke_array (write_at buf 0 ?h) 12 maxsize (length data) 1 data False
      = (write_at (write_at buf 0 ?h) 12 data, 12 + int (length data))"
    using pa[of 12 "write_at buf 0 ?h" data] assms(1) len by simp
  have "write_at (write_at buf 0 ?h) 12 data = write_at buf 0 (?h @ data)"
    using write_at_append[of 0 ?h data buf] assms l12 by simp
  then show ?thesis using h d by (auto simp: build_response_def Let_def)
qed

definition check_and_send_USB_ZLP :: "'w os \<Rightarrow> 'w mtp_ctx \<Rightarrow> int \<Rightarrow> 'w mtp_ctx \<times> int" where
  "check_and_send_USB_ZLP os ctx sz =
    (if word_of_int sz \<ge> max_packet_size ctx \<and> word_of_int sz mod max_packet_size ctx = 0
     then (fst (write_usb os ctx EP_DESCRIPTOR_IN []), 1)
     else (ctx, 0))"

section \<open>Access rights\<close>

text \<open>\<open>None\<close>: access granted, the result 0; \<open>Some\<close>: refused with that response.\<close>

definition check_handle_access ::
  "storages \<Rightarrow> fs_handles_db \<Rightarrow> ptr option \<Rightarrow> u32 \<Rightarrow> bool \<Rightarrow> u16 option" where
  "check_handle_access sts db entry h wraccess =
    (case (case entry of None \<Rightarrow> get_entry_by_handle sts db h | Some p \<Rightarrow> Some p) of
       Some p \<Rightarrow>
         (let storage_flags = mtp_get_storage_flags sts (e_storage (entry_at db p)) in
          if storage_flags = 0xFFFFFFFF then Some MTP_RESPONSE_INVALID_STORAGE_ID
          else if has_flag storage_flags UMTP_STORAGE_LOCKED then Some MTP_RESPONSE_STORE_NOT_AVAILABLE
          else if has_flag storage_flags UMTP_STORAGE_READONLY \<and> wraccess then Some MTP_RESPONSE_STORE_READ_ONLY
          else None)
     | None \<Rightarrow> Some MTP_RESPONSE_INVALID_OBJECT_HANDLE)"

section \<open>A concrete system\<close>

text \<open>
  A system and a context to evaluate the operations on: a file system whose paths are all absolute
  and resolved, files that are never there, and a USB link that takes what it is given. The world
  counts the transfers.
\<close>

definition plain_os :: "nat os" where
  "plain_os = \<lparr>
     os_realpath = (\<lambda>w path. Inr path), os_stat = (\<lambda>w path. None), os_lstat = (\<lambda>w path. None),
     os_readdir = (\<lambda>w path. None), os_remove = (\<lambda>w path. (w, 0)), os_mkdir = (\<lambda>w path. (w, 0)),
     os_open = (\<lambda>w path fl. (w, 5)), os_close = (\<lambda>w fd. w), os_fsync = (\<lambda>w fd. w),
     os_lseek = (\<lambda>w fd ofs wh. (w, ofs)), os_read = (\<lambda>w fd n. (w, Some (replicate (nat n) 0x2A))),
     os_write = (\<lambda>w fd bs. (w, int (length bs))), os_truncate = (\<lambda>w path n. (w, None)),
     os_rename = (\<lambda>w a b. (w, 0)), os_setfsuid = (\<lambda>w u. (w, 0)), os_setfsgid = (\<lambda>w g. (w, 0)),
     os_add_watch = (\<lambda>w path. (w, 1)), os_rm_watch = (\<lambda>w wd. w),
     os_statvfs = (\<lambda>w path. None), os_localtime = (\<lambda>t. \<lparr>tm_year = 70, tm_mon = 0, tm_mday = 1,
       tm_hour = 0, tm_min = 0, tm_sec = 0\<rparr>),
     os_battery = (\<lambda>w path. None), os_ep_write = (\<lambda>w ep bs. (Suc w, int (length bs))),
     os_ep_read = (\<lambda>w n. (w, None)), os_thread_create = (\<lambda>w. (w, 0)), os_thread_stop = (\<lambda>w. w), os_clear_halt = (\<lambda>w fd. w), os_cancel = (\<lambda>w. False), os_lock_fails = (\<lambda>w. False)\<rparr>"

text \<open>One storage at \<open>/r\<close>, and a database with its root and a file \<open>a\<close> of handle 1.\<close>

definition sample_storage :: mtp_storage where
  "sample_storage = \<lparr>root_path = Some [0x2F, 0x72], description = Some [0x73], storage_id = 0xFFFF0001,
     flags = 0, uid = -1, gid = -1\<rparr>"

definition sample_storages :: storages where
  "sample_storages = sample_storage # replicate 15 empty_storage"

definition sample_db :: fs_handles_db where
  "sample_db = fst (alloc_entry (fst (alloc_root_entry init_fs_db 0xFFFF0001))
     \<lparr>isdirectory = False, filename = [0x61], fsize = 3\<rparr> 0 0xFFFF0001)"

definition sample_cfg :: mtp_usb_cfg where
  "sample_cfg = \<lparr>usb_vendor_id = 0x1D6B, usb_product_id = 0x0100, usb_class = 6, usb_subclass = 1,
     usb_protocol = 1, usb_dev_version = 0x3008, usb_max_packet_size = 0x200, usb_functionfs_mode = 1,
     usb_device_path = [], usb_endpoint_in = [], usb_endpoint_out = [], usb_endpoint_intin = [],
     usb_string_manufacturer = [0x76], usb_string_product = [0x70], usb_string_serial = [0x30],
     usb_string_version = [0x31], usb_string_mtp_extensions = [], usb_string_interface = [0x4D],
     synchronization_partner = [], battery_capacity = [], perceived_device_type = 0,
     wait_connection = 0, loop_on_disconnect = 0, show_hidden_files = 1, val_umask = -1\<rparr>"

definition sample_gadget :: usb_gadget where
  "sample_gadget = \<lparr>ep_handles = [3, 4, 5], stop = False, usb_device = 2, usb_config = None, usb_ffs_config = None,
     ep_config = [], ep_path = [], stringtab = [], gadget_wait = 0, thread_not_started = 0\<rparr>"

lemma sample_gadget_simps [simp]: "ep_handles sample_gadget = [3, 4, 5]" "\<not> stop sample_gadget"
  by (simp_all add: sample_gadget_def)

definition sample_ctx :: "nat mtp_ctx" where
  "sample_ctx = \<lparr>session_id = 1, usb_cfg = sample_cfg, usb_ctx = sample_gadget,
     wrbuffer = replicate 64 0, usb_wr_buffer_max_size = 64, rdbuffer = replicate 64 0,
     rdbuffer2 = replicate 64 0, usb_rd_buffer_max_size = 64, read_file_buffer = None,
     read_file_buffer_size = 64, temp_array = [], fs_db = Some sample_db, SendObjInfoHandle = 0xFFFFFFFF,
     SendObjInfoSize = 0, SendObjInfoOffset = 0, SetObjectPropValue_Handle = 0xFFFFFFFF,
     SetObjectPropValue_PropCode = 0, max_packet_size = 512, storages = sample_storages, inotify_fd = -1,
     no_inotify = 0, sync_when_close = 0, ctx_uid = -1, ctx_gid = -1, default_uid = -1, default_gid = -1,
     cancel_req = 0, transferring_file_data = False, inotify_locked = False, usb_out = [], world = 0\<rparr>"

lemma sample_pool:
  "pool sample_db = [root_entry 0xFFFF0001, \<lparr>e_handle = 1, e_parent = 0, e_storage = 0xFFFF0001, e_name = [0x61],
     e_flags = 0, e_size = 3, e_date = 0, e_fd = 0, e_wd = -1\<rparr>]"
  by (simp add: sample_db_def alloc_entry_push alloc_root_entry_push new_entry_def) (simp add: init_fs_db_def)

lemma sample_db_inv: "db_inv sample_db"
  unfolding sample_db_def
  by (intro db_inv_alloc_entry db_inv_alloc_root_entry db_inv_init)
     (simp_all add: db_room_def alloc_root_entry_push init_fs_db_def)

lemma sample_entry: "get_entry_by_handle sample_storages sample_db 1 = Some (Suc 0)"
  using get_entry_by_handle_eq[OF sample_db_inv, of 1 sample_storages 1]
  by (simp add: sample_pool live_def ptrs_def deleted_def has_flag_def mtp_get_storage_root_def
      sample_storages_def sample_storage_def)

lemma sample_ctx_simps [simp]:
  "the_db sample_ctx = sample_db" "storages sample_ctx = sample_storages" "usb_cfg sample_ctx = sample_cfg"
  "world sample_ctx = 0" "sample_ctx\<lparr>world := 0\<rparr> = sample_ctx" "fs_db sample_ctx = Some sample_db"
  by (simp_all add: sample_ctx_def the_db_def)

lemma sample_lookup [simp]:
  "mtp_get_storage_root sample_storages 0xFFFF0001 = Some [0x2F, 0x72]"
  "mtp_get_storage_flags sample_storages 0xFFFF0001 = 0"
  "mtp_get_storage_index_by_id sample_storages 0xFFFF0001 = 0"
  by (simp_all add: mtp_get_storage_root_def mtp_get_storage_flags_def mtp_get_storage_index_by_id_def
      sample_storages_def sample_storage_def)

lemma sample_giduid [simp]:
  "restore_giduid os sample_ctx = (sample_ctx, 0)"
  "set_storage_giduid os sample_ctx 0xFFFF0001 = (sample_ctx, 0)"
proof -
  have "ctx_uid sample_ctx = -1" "ctx_gid sample_ctx = -1" "default_uid sample_ctx = -1" "default_gid sample_ctx = -1"
    "uid (sample_storages ! 0) = -1" "gid (sample_storages ! 0) = -1"
    by (simp_all add: sample_ctx_def sample_storages_def sample_storage_def)
  then show "restore_giduid os sample_ctx = (sample_ctx, 0)"
    "set_storage_giduid os sample_ctx 0xFFFF0001 = (sample_ctx, 0)"
    by (simp_all add: restore_giduid_def set_storage_giduid_def set_giduid_def Let_def)
qed

lemma unset_giduid:
  assumes "ctx_uid c = -1" "ctx_gid c = -1" "default_uid c = -1" "default_gid c = -1"
  shows "restore_giduid os c = (c, 0)"
    "storages c = sample_storages \<Longrightarrow> set_storage_giduid os c 0xFFFF0001 = (c, 0)"
proof -
  have "uid (sample_storages ! 0) = -1" "gid (sample_storages ! 0) = -1"
    by (simp_all add: sample_storages_def sample_storage_def)
  with assms show "restore_giduid os c = (c, 0)"
    "storages c = sample_storages \<Longrightarrow> set_storage_giduid os c 0xFFFF0001 = (c, 0)"
    by (simp_all add: restore_giduid_def set_storage_giduid_def set_giduid_def Let_def)
qed

lemma sample_list: "entry_list sample_db = [Suc 0, 0]"
  by (simp add: sample_db_def alloc_entry_push alloc_root_entry_push) (simp add: init_fs_db_def)

lemma plain_os_simps [simp]:
  "os_realpath plain_os w path = Inr path" "os_stat plain_os w path = None" "os_rename plain_os w path path2 = (w, 0)"
  "os_open plain_os w path fl = (w, 5)" "os_ep_write plain_os w' ep bs = (Suc w', int (length bs))"
  "os_cancel plain_os w = False" "os_lock_fails plain_os w = False" "os_ep_read plain_os w n = (w, None)"
  "os_remove plain_os w path = (w, 0)" "os_close plain_os w fd = w" "os_fsync plain_os w fd = w"
  by (simp_all add: plain_os_def)

end
