(* ===== verification/Paths.thy ===== *)
theory Paths
  imports Ctx
begin

text \<open>
  The file system half of \<open>src/fs_handles_db.c\<close>: the path of an entry, recursive removal,
  directory scans, the file descriptor of an entry, and the closing of the database. A directory
  stream is the list of the names still to come, as they were when the directory was opened.
\<close>

abbreviation (input) SLASH :: byte where "SLASH \<equiv> 0x2F"

section \<open>The path of an entry\<close>

text \<open>
  The loop over the parents, from the entry up. The bound is the number of entries: handles grow
  from a folder to what it holds, so no chain is longer (\<open>parent_chain_enough\<close> below).
\<close>

fun parent_chain :: "nat \<Rightarrow> storages \<Rightarrow> fs_handles_db \<Rightarrow> ptr \<Rightarrow> ptr list" where
  "parent_chain 0 sts db p = [p]"
| "parent_chain (Suc n) sts db p =
     (let par = e_parent (entry_at db p) in
      if par \<noteq> 0 \<and> par \<noteq> 0xFFFFFFFF
      then (case get_entry_by_handle sts db par of
              Some q \<Rightarrow> p # parent_chain n sts db q
            | None \<Rightarrow> [p])
      else [p])"

text \<open>The backward fill of \<open>full_path\<close>: a slash and the name of each entry, topmost first.\<close>

definition full_path_of :: "storages \<Rightarrow> fs_handles_db \<Rightarrow> ptr \<Rightarrow> cstr" where
  "full_path_of sts db p =
    concat (map (\<lambda>q. SLASH # e_name (entry_at db q)) (rev (parent_chain (length (pool db)) sts db p)))"

text \<open>The last object of the path does not exist: its folder is resolved and the name sanitised.\<close>

definition resolve_missing :: "'w os \<Rightarrow> 'w \<Rightarrow> cstr \<Rightarrow> cstr \<Rightarrow> cstr option" where
  "resolve_missing os w full_path nm =
    (let idx = length full_path - length nm in
     case os_realpath os w (take idx full_path) of
       Inl _ \<Rightarrow> None
     | Inr realparentpath \<Rightarrow>
         (case sanitize_name (Some nm) (int (length nm)) of
            (Some t, ret) \<Rightarrow> if ret = 1 then Some (realparentpath @ [SLASH] @ t) else None
          | (None, _) \<Rightarrow> None))"

definition build_full_path ::
  "'w os \<Rightarrow> 'w \<Rightarrow> storages \<Rightarrow> fs_handles_db \<Rightarrow> cstr option \<Rightarrow> ptr option \<Rightarrow> cstr option" where
  "build_full_path os w sts db root entry =
    (case entry of
       None \<Rightarrow> None
     | Some p \<Rightarrow>
       (let path = full_path_of sts db p in
        case root of
          None \<Rightarrow> Some path
        | Some rpath \<Rightarrow>
            (let full_path = rpath @ path;
                 retpath = (case os_realpath os w full_path of
                    Inr r \<Rightarrow> Some r
                  | Inl errno \<Rightarrow> if errno = ENOENT then resolve_missing os w full_path (e_name (entry_at db p))
                                 else None)
             in case retpath of
                  None \<Rightarrow> None
                | Some r \<Rightarrow> if take (length rpath) r \<noteq> rpath then None else Some r)))"

abbreviation path_of :: "'w os \<Rightarrow> 'w mtp_ctx \<Rightarrow> ptr \<Rightarrow> cstr option" where
  "path_of os ctx p \<equiv> build_full_path os (world ctx) (storages ctx) (the_db ctx)
     (mtp_get_storage_root (storages ctx) (e_storage (entry_at (the_db ctx) p))) (Some p)"

section \<open>Removal of a directory tree\<close>

text \<open>
  The recursion of \<open>fs_remove_tree\<close>, its depth bounded; the result is the C result, 1 after any
  failure. A path has at most 4096 bytes, and every level adds two, so 4096 levels are never used up.
\<close>

fun remove_tree :: "'w os \<Rightarrow> nat \<Rightarrow> 'w \<Rightarrow> cstr \<Rightarrow> 'w \<times> int"
  and remove_entries :: "'w os \<Rightarrow> nat \<Rightarrow> 'w \<Rightarrow> cstr \<Rightarrow> cstr list \<Rightarrow> int \<Rightarrow> 'w \<times> int" where
  "remove_tree os 0 w folder = (w, 1)"
| "remove_tree os (Suc n) w folder =
     (case os_readdir os w folder of
        None \<Rightarrow> (w, 1)
      | Some names \<Rightarrow>
          (let (w1, del_fail) = remove_entries os n w folder names 0;
               (w2, r) = os_remove os w1 folder
           in (w2, if r \<noteq> 0 then 1 else del_fail)))"
| "remove_entries os n w folder [] del_fail = (w, del_fail)"
| "remove_entries os n w folder (d_name # names) del_fail =
     (let tmpstr = folder @ [SLASH] @ d_name in
      case os_lstat os w tmpstr of
        None \<Rightarrow> remove_entries os n w folder names del_fail
      | Some st \<Rightarrow>
         (if st_isdir st then
            (if d_name \<noteq> [0x2E, 0x2E] \<and> d_name \<noteq> [0x2E] then
               (let (w1, r) = remove_tree os n w tmpstr in
                remove_entries os n w1 folder names (if r \<noteq> 0 then 1 else del_fail))
             else remove_entries os n w folder names del_fail)
          else
            (let (w1, r) = os_remove os w tmpstr in
             remove_entries os n w1 folder names (if r \<noteq> 0 then 1 else del_fail))))"

definition fs_remove_tree :: "'w os \<Rightarrow> 'w \<Rightarrow> cstr \<Rightarrow> 'w \<times> int" where
  "fs_remove_tree os w folder = remove_tree os 4096 w folder"

section \<open>Directory scans\<close>

text \<open>The loop from the terminating NUL down to the last slash; the first byte is not looked at.\<close>

fun base_index :: "cstr \<Rightarrow> nat \<Rightarrow> nat" where
  "base_index path 0 = 0"
| "base_index path (Suc i) = (if at path (Suc i) = SLASH then Suc (Suc i) else base_index path i)"

text \<open>On a failure the size is 0 and the name empty, the kind is left as it was.\<close>

definition fs_entry_stat :: "'w os \<Rightarrow> 'w \<Rightarrow> cstr \<Rightarrow> filefoundinfo \<Rightarrow> filefoundinfo \<times> int" where
  "fs_entry_stat os w path fileinfo =
    (case os_stat os w path of
       Some st \<Rightarrow> (\<lparr>isdirectory = st_isdir st,
                   filename = take 256 (drop (base_index path (length path)) path),
                   fsize = st_size st\<rparr>, 1)
     | None \<Rightarrow> (fileinfo\<lparr>filename := [], fsize := 0\<rparr>, 0))"

fun fs_find_next_file ::
  "'w os \<Rightarrow> 'w \<Rightarrow> cstr list \<Rightarrow> cstr \<Rightarrow> filefoundinfo \<Rightarrow> cstr list \<times> filefoundinfo \<times> int" where
  "fs_find_next_file os w [] folder fileinfo = ([], fileinfo, 0)"
| "fs_find_next_file os w (d_name # dir) folder fileinfo =
     (case fs_entry_stat os w (folder @ [SLASH] @ d_name) fileinfo of
        (fileinfo', ret) \<Rightarrow> if ret \<noteq> 0 then (dir, fileinfo', 1)
                            else fs_find_next_file os w dir folder fileinfo')"

definition fs_find_first_file ::
  "'w os \<Rightarrow> 'w \<Rightarrow> cstr \<Rightarrow> filefoundinfo \<Rightarrow> (cstr list \<times> filefoundinfo) option" where
  "fs_find_first_file os w folder fileinfo =
    (case os_readdir os w folder of
       None \<Rightarrow> None
     | Some dir \<Rightarrow> (case fs_find_next_file os w dir folder fileinfo of
         (dir', fileinfo', ret) \<Rightarrow> if ret \<noteq> 0 then Some (dir', fileinfo') else None))"

text \<open>The test on a name found: not "..", not ".", and not hidden unless hidden files are shown.\<close>

definition listed :: "'w mtp_ctx \<Rightarrow> filefoundinfo \<Rightarrow> bool" where
  "listed ctx fi \<longleftrightarrow> filename fi \<noteq> [0x2E, 0x2E] \<and> filename fi \<noteq> [0x2E] \<and>
     (show_hidden_files (usb_cfg ctx) \<noteq> 0 \<or> at (filename fi) 0 \<noteq> 0x2E)"

lemma fs_find_next_file_shorter:
  "fs_find_next_file os w dir folder fi = (dir', fi', ret) \<Longrightarrow> ret \<noteq> 0 \<Longrightarrow> length dir' < length dir"
  by (induction os w dir folder fi rule: fs_find_next_file.induct) (auto split: prod.splits if_splits)

text \<open>The do-while loop over the files of the folder; \<open>fileinfo\<close> is the file found last.\<close>

function scan_files ::
  "'w os \<Rightarrow> 'w mtp_ctx \<Rightarrow> cstr list \<Rightarrow> cstr \<Rightarrow> filefoundinfo \<Rightarrow> u32 \<Rightarrow> u32 \<Rightarrow> 'w mtp_ctx" where
  "scan_files os ctx dir base fileinfo par sid =
    (let ctx1 = (if listed ctx fileinfo
                 then set_db (fst (add_entry (the_db ctx) fileinfo par sid)) ctx else ctx)
     in case fs_find_next_file os (world ctx1) dir base fileinfo of
          (dir', fileinfo', ret) \<Rightarrow> if ret \<noteq> 0 then scan_files os ctx1 dir' base fileinfo' par sid else ctx1)"
  by pat_completeness auto
termination
  by (relation "measure (\<lambda>(_, _, dir, _, _, _, _). length dir)") (auto dest: fs_find_next_file_shorter[OF sym])

declare scan_files.simps [simp del]

text \<open>One child of the folder looked up again: marked deleted when it is gone.\<close>

definition refresh_child :: "'w os \<Rightarrow> 'w mtp_ctx \<Rightarrow> ptr \<Rightarrow> 'w mtp_ctx" where
  "refresh_child os ctx p =
    (case path_of os ctx p of
       None \<Rightarrow> ctx
     | Some path \<Rightarrow>
        (case os_stat os (world ctx) path of
           None \<Rightarrow>
             (let ctx1 = set_db (upd_entry p mark_deleted (the_db ctx)) ctx;
                  wd = e_wd (entry_at (the_db ctx1) p)
              in if wd \<noteq> -1
                 then set_db (upd_entry p (\<lambda>e. e\<lparr>e_wd := -1\<rparr>) (the_db ctx1)) (inotify_handler_rmwatch os ctx1 wd)
                 else ctx1)
         | Some st \<Rightarrow> set_db (upd_entry p (\<lambda>e. e\<lparr>e_size := st_size st\<rparr>) (the_db ctx)) ctx))"

lemma refresh_child_cursor [simp]:
  "search_cursor (the_db (refresh_child os ctx p)) = search_cursor (the_db ctx)"
  by (auto simp: refresh_child_def Let_def split: option.split)

lemma next_child_shorter:
  "get_next_child_handle db = (db', Some p) \<Longrightarrow> length (search_cursor db') < length (search_cursor db)"
  by (auto simp: get_next_child_handle_def dest: length_dropWhile_Cons split: list.splits)

function refresh_children :: "'w os \<Rightarrow> 'w mtp_ctx \<Rightarrow> 'w mtp_ctx" where
  "refresh_children os ctx =
    (case get_next_child_handle (the_db ctx) of
       (db', None) \<Rightarrow> set_db db' ctx
     | (db', Some p) \<Rightarrow> refresh_children os (refresh_child os (set_db db' ctx) p))"
  by pat_completeness auto
termination
  by (relation "measure (\<lambda>(_, ctx). length (search_cursor (the_db ctx)))")
     (auto dest!: sym[of _ "get_next_child_handle _"] next_child_shorter)

declare refresh_children.simps [simp del]

definition scan_and_add_folder :: "'w os \<Rightarrow> 'w mtp_ctx \<Rightarrow> cstr \<Rightarrow> u32 \<Rightarrow> u32 \<Rightarrow> 'w mtp_ctx \<times> int" where
  "scan_and_add_folder os ctx base par sid =
    (let blank = \<lparr>isdirectory = False, filename = [], fsize = 0\<rparr>;
         dir = fs_find_first_file os (world ctx) base blank;
         ctx1 = (case dir of Some (rest, fileinfo) \<Rightarrow> scan_files os ctx rest base fileinfo par sid | None \<Rightarrow> ctx);
         ctx2 = refresh_children os (set_db (init_search_handle (the_db ctx1) par sid) ctx1)
     in (ctx2, if dir \<noteq> None then 0 else -1))"

section \<open>The file behind an entry\<close>

text \<open>
  A file descriptor of 0, which is what allocation leaves, is kept when no path can be built, and
  is the result then.
\<close>

definition entry_open :: "'w os \<Rightarrow> 'w mtp_ctx \<Rightarrow> ptr \<Rightarrow> open_flag list \<Rightarrow> 'w mtp_ctx \<times> int" where
  "entry_open os ctx p fl =
    (if e_fd (entry_at (the_db ctx) p) > 0 then (ctx, e_fd (entry_at (the_db ctx) p))
     else (case path_of os ctx p of
        None \<Rightarrow> (ctx, e_fd (entry_at (the_db ctx) p))
      | Some full_path \<Rightarrow>
         (let (ctx1, r) = set_storage_giduid os ctx (e_storage (entry_at (the_db ctx) p));
              ctx2 = (if r = 0 then (case os_open os (world ctx1) full_path fl of
                        (w, fd) \<Rightarrow> set_db (upd_entry p (\<lambda>e. e\<lparr>e_fd := fd\<rparr>) (the_db ctx1)) (ctx1\<lparr>world := w\<rparr>))
                      else ctx1);
              ctx3 = fst (restore_giduid os ctx2)
          in (ctx3, e_fd (entry_at (the_db ctx3) p)))))"

text \<open>\<open>None\<close> is the result -1 of \<open>read\<close>.\<close>

definition entry_read :: "'w os \<Rightarrow> 'w mtp_ctx \<Rightarrow> ptr \<Rightarrow> int \<Rightarrow> int \<Rightarrow> 'w mtp_ctx \<times> byte list option" where
  "entry_read os ctx p offset sz =
    (let fd = e_fd (entry_at (the_db ctx) p) in
     if fd \<noteq> -1 then
       (let w1 = fst (os_lseek os (world ctx) fd offset SEEK_SET);
            (w2, data) = os_read os w1 fd sz
        in (ctx\<lparr>world := w2\<rparr>, data))
     else (ctx, Some []))"

definition entry_close :: "'w os \<Rightarrow> 'w mtp_ctx \<Rightarrow> ptr option \<Rightarrow> 'w mtp_ctx" where
  "entry_close os ctx entry =
    (case entry of
       None \<Rightarrow> ctx
     | Some p \<Rightarrow>
        (let fd = e_fd (entry_at (the_db ctx) p);
             ctx1 = (if fd \<noteq> -1 then
               (let w1 = (if sync_when_close ctx \<noteq> 0 then os_fsync os (world ctx) fd else world ctx)
                in ctx\<lparr>world := os_close os w1 fd\<rparr>) else ctx)
         in set_db (upd_entry p (\<lambda>e. e\<lparr>e_fd := -1\<rparr>) (the_db ctx1)) ctx1))"

text \<open>The watch points of every entry of the name table are released, the newest entry is closed.\<close>

definition deinit_fs_db :: "'w os \<Rightarrow> 'w mtp_ctx \<Rightarrow> 'w mtp_ctx" where
  "deinit_fs_db os ctx =
    (let db = the_db ctx;
         watched = concat (map (\<lambda>i. node_entries (by_name db i)) [0..<1024]);
         ctx1 = fold (\<lambda>p c. if e_wd (entry_at db p) \<noteq> -1
                            then inotify_handler_rmwatch os c (e_wd (entry_at db p)) else c) watched ctx
     in entry_close os ctx1 (case entry_list db of [] \<Rightarrow> None | p # _ \<Rightarrow> Some p))"

section \<open>Paths stay under the root\<close>


text \<open>
  Parents are older than what they hold: handles are given in increasing order, and an entry is
  only ever added under a handle that exists.
\<close>

definition parents_older :: "fs_handles_db \<Rightarrow> bool" where
  "parents_older db \<longleftrightarrow> (\<forall>p \<in> ptrs db. e_parent (entry_at db p) = 0 \<or> e_parent (entry_at db p) = 0xFFFFFFFF \<or>
     e_parent (entry_at db p) < e_handle (entry_at db p))"

definition chain_end :: "storages \<Rightarrow> fs_handles_db \<Rightarrow> ptr \<Rightarrow> bool" where
  "chain_end sts db q \<longleftrightarrow> e_parent (entry_at db q) = 0 \<or> e_parent (entry_at db q) = 0xFFFFFFFF \<or>
     get_entry_by_handle sts db (e_parent (entry_at db q)) = None"

lemma parent_chain_not_Nil [simp]: "parent_chain n sts db p \<noteq> []"
  by (induction n sts db p rule: parent_chain.induct) (auto simp: Let_def split: option.split)

lemma parent_chain_end: "chain_end sts db p \<Longrightarrow> parent_chain n sts db p = [p]"
  by (cases n) (auto simp: chain_end_def Let_def)

declare parent_chain.simps(2) [simp del]

lemma parent_chain_step:
  "\<not> chain_end sts db p \<Longrightarrow> \<exists>q. get_entry_by_handle sts db (e_parent (entry_at db p)) = Some q \<and>
     parent_chain (Suc n) sts db p = p # parent_chain n sts db q"
  by (auto simp: chain_end_def parent_chain.simps(2) Let_def)

lemma parent_chain_fuel:
  assumes "db_inv db" "parents_older db" "p \<in> ptrs db" "unat (e_handle (entry_at db p)) \<le> n"
  shows "chain_end sts db (last (parent_chain n sts db p)) \<and>
    parent_chain (n + k) sts db p = parent_chain n sts db p"
  using assms(3,4)
proof (induction n arbitrary: p)
  case 0
  then have "e_handle (entry_at db p) = 0" by (simp add: unat_eq_0)
  then have "chain_end sts db p" using assms(2) 0(1) by (auto simp: parents_older_def chain_end_def)
  then show ?case by (simp add: parent_chain_end)
next
  case (Suc n)
  show ?case
  proof (cases "chain_end sts db p")
    case True
    then show ?thesis by (simp add: parent_chain_end)
  next
    case False
    let ?h = "e_parent (entry_at db p)"
    have h: "?h \<noteq> 0" "?h < e_handle (entry_at db p)"
      using False assms(2) Suc.prems by (auto simp: chain_end_def parents_older_def)
    obtain q where q: "get_entry_by_handle sts db ?h = Some q"
      using parent_chain_step[OF False] by blast
    then have qp: "q \<in> ptrs db" and hq: "e_handle (entry_at db q) = ?h"
      using get_entry_by_handle_eq[OF assms(1) h(1)] by (auto simp: live_def)
    have "unat (e_handle (entry_at db q)) \<le> n"
      using h(2) Suc.prems(2) hq by (simp add: word_less_nat_alt)
    then have ih: "chain_end sts db (last (parent_chain n sts db q)) \<and>
        parent_chain (n + k) sts db q = parent_chain n sts db q"
      by (rule Suc.IH[OF qp])
    have step: "parent_chain (Suc m) sts db p = p # parent_chain m sts db q" for m
      using parent_chain_step[OF False, of m] unfolding q by blast
    show ?thesis using ih by (simp only: add_Suc step last.simps parent_chain_not_Nil if_False simp_thms)
  qed
qed

lemma handle_le_pool:
  assumes "db_inv db" "p \<in> ptrs db"
  shows "unat (e_handle (entry_at db p)) \<le> length (pool db)"
proof -
  have "e_handle (entry_at db p) < next_handle db" "unat (next_handle db) \<le> length (pool db) + 1"
    using assms by (auto simp: db_inv_def handles_ok_def)
  then show ?thesis by (simp add: word_less_nat_alt)
qed

lemma parents_older_alloc_entry:
  assumes "db_inv db" "parents_older db" "par < next_handle db \<or> par = 0xFFFFFFFF"
  shows "parents_older (fst (alloc_entry db fi par sid))"
  using assms by (auto simp: parents_older_def alloc_entry_push ptrs_def new_entry_def nth_append less_Suc_eq)

lemma resolve_missing_Some:
  assumes "resolve_missing os w full nm = Some r"
  shows "\<exists>par t. os_realpath os w (take (length full - length nm) full) = Inr par \<and> r = par @ [SLASH] @ t \<and>
    t \<noteq> [] \<and> SLASH \<notin> set t \<and> \<not> strstr_dotdot t"
proof -
  obtain par t where par: "os_realpath os w (take (length full - length nm) full) = Inr par"
    and t: "sanitize_name (Some nm) (int (length nm)) = (Some t, 1)" and r: "r = par @ [SLASH] @ t"
    using assms by (auto simp: resolve_missing_def Let_def split: sum.splits prod.splits option.splits if_splits)
  have "is_forbidden_ascii 0x2F" by (simp add: is_forbidden_ascii_def)
  then have "t \<noteq> [] \<and> SLASH \<notin> set t \<and> \<not> strstr_dotdot t"
    using sanitize_name_post[OF t] by (force simp: list_all_iff)
  then show ?thesis using par r by blast
qed

lemma sample_path:
  "e_parent (entry_at db p) = 0 \<Longrightarrow> os_realpath os = os_realpath plain_os \<Longrightarrow>
   build_full_path os w sts db (Some root) (Some p) = Some (root @ SLASH # e_name (entry_at db p))"
  by (simp add: build_full_path_def full_path_of_def parent_chain_end chain_end_def)

section \<open>Properties\<close>

text \<open>The walk from an entry to the top of its storage ends, within as many steps as the
  database has entries, at an entry without a parent or whose parent is gone; a larger bound gives
  the same chain.\<close>

theorem parent_chain_complete:
  assumes "db_inv db" "parents_older db" "p \<in> ptrs db"
  shows "chain_end sts db (last (parent_chain (length (pool db)) sts db p)) \<and>
    parent_chain (length (pool db) + k) sts db p = parent_chain (length (pool db)) sts db p"
  using parent_chain_fuel[OF assms handle_le_pool[OF assms(1,3)]] by blast

theorem parent_chain_complete_witness:
  "let db = fst (alloc_entry init_fs_db \<lparr>isdirectory = False, filename = [0x61], fsize = 3\<rparr> 0 5)
   in parent_chain 7 init_storages db 0 = parent_chain 1 init_storages db 0"
proof -
  let ?db = "fst (alloc_entry init_fs_db \<lparr>isdirectory = False, filename = [0x61], fsize = 3\<rparr> 0 5)"
  have "db_inv ?db" by (intro db_inv_alloc_entry db_inv_init) (simp add: db_room_def init_fs_db_def)
  moreover have "parents_older ?db"
    by (intro parents_older_alloc_entry db_inv_init) (simp_all add: parents_older_def ptrs_def init_fs_db_def)
  moreover have "length (pool ?db) = 1" "0 \<in> ptrs ?db"
    by (simp_all add: alloc_entry_push ptrs_def) (simp_all add: init_fs_db_def)
  ultimately show ?thesis using parent_chain_complete[of ?db 0 init_storages 6] by simp
qed

text \<open>C6. A path built for an object on a storage starts with the bytes of the storage's root, and is
  either what the system resolves the joined path to, or, where that does not exist yet, its
  resolved folder followed by one sanitised name without a slash or two dots in a row.\<close>

theorem build_full_path_confined:
  assumes "build_full_path os w sts db (Some root) (Some p) = Some r"
  shows "prefix root r \<and>
    (let full = root @ full_path_of sts db p in
       os_realpath os w full = Inr r \<or>
       os_realpath os w full = Inl ENOENT \<and>
       (\<exists>par t. os_realpath os w (take (length full - length (e_name (entry_at db p))) full) = Inr par \<and>
          r = par @ [SLASH] @ t \<and> t \<noteq> [] \<and> SLASH \<notin> set t \<and> \<not> strstr_dotdot t))"
proof -
  let ?full = "root @ full_path_of sts db p"
  have pre: "take (length root) r = root" and
    res: "os_realpath os w ?full = Inr r \<or>
      os_realpath os w ?full = Inl ENOENT \<and> resolve_missing os w ?full (e_name (entry_at db p)) = Some r"
    using assms by (auto simp: build_full_path_def Let_def split: sum.splits if_splits option.splits)
  from pre have "prefix root r" by (metis take_is_prefix)
  then show ?thesis
    using res resolve_missing_Some[of os w ?full "e_name (entry_at db p)" r] unfolding Let_def by blast
qed

theorem build_full_path_confined_witness:
  "let db = fst (alloc_entry init_fs_db \<lparr>isdirectory = False, filename = [0x61], fsize = 3\<rparr> 0 5)
   in build_full_path plain_os 0 init_storages db (Some [0x2F, 0x72]) (Some 0) = Some [0x2F, 0x72, 0x2F, 0x61] \<and>
      prefix [0x2F, 0x72] [0x2F, 0x72, 0x2F, 0x61 :: byte]"
proof -
  let ?db = "fst (alloc_entry init_fs_db \<lparr>isdirectory = False, filename = [0x61], fsize = 3\<rparr> 0 5)"
  have pool: "pool ?db = [new_entry init_fs_db \<lparr>isdirectory = False, filename = [0x61], fsize = 3\<rparr> 0 5]"
    by (simp add: alloc_entry_push) (simp add: init_fs_db_def)
  have "build_full_path plain_os 0 init_storages ?db (Some [0x2F, 0x72]) (Some 0) = Some [0x2F, 0x72, 0x2F, 0x61]"
    by (simp add: build_full_path_def full_path_of_def pool new_entry_def plain_os_def
        parent_chain_end[of _ ?db 0] chain_end_def)
  then show ?thesis using build_full_path_confined by fastforce
qed

text \<open>The check of the root compares bytes, not components: whatever bytes follow those of the
  root in the resolved path, a sibling folder \<open>root2\<close> of a root \<open>root\<close> included, the path is
  accepted.\<close>

theorem build_full_path_sibling:
  assumes "os_realpath os w (root @ full_path_of sts db p) = Inr (root @ rest)"
  shows "build_full_path os w sts db (Some root) (Some p) = Some (root @ rest)"
  using assms by (simp add: build_full_path_def)

theorem build_full_path_sibling_witness:
  "let db = fst (alloc_entry init_fs_db \<lparr>isdirectory = False, filename = [0x61], fsize = 3\<rparr> 0 5);
       os = plain_os\<lparr>os_realpath := (\<lambda>w path. Inr [0x2F, 0x72, 0x32, 0x2F, 0x78])\<rparr>
   in build_full_path os 0 init_storages db (Some [0x2F, 0x72]) (Some 0) = Some [0x2F, 0x72, 0x32, 0x2F, 0x78]"
  using build_full_path_sibling[of "plain_os\<lparr>os_realpath := (\<lambda>w path. Inr [0x2F, 0x72, 0x32, 0x2F, 0x78])\<rparr>"
      0 "[0x2F, 0x72]" init_storages _ 0 "[0x32, 0x2F, 0x78]"]
  by simp

end
