(* ===== verification/Properties.thy ===== *)
theory Properties
  imports Paths Unicode
begin

text \<open>
  Object and device properties: \<open>src/mtp_properties.c\<close>. The tables keep their closing entry, whose
  code is 0xFFFF, because the code can match it. The dataset builders are chains of the writers of
  \<open>Codec\<close>; the C result is the length of the dataset, negative when it did not fit.
\<close>

section \<open>Printing\<close>

text \<open>The two \<open>snprintf\<close> formats of the sources: \<open>%.<prec>d\<close> and \<open>%.8X\<close>.\<close>

fun decimal :: "nat \<Rightarrow> cstr" where
  "decimal n = (if n < 10 then [0x30 + word_of_nat n] else decimal (n div 10) @ [0x30 + word_of_nat (n mod 10)])"

declare decimal.simps [simp del]

definition print_d :: "nat \<Rightarrow> int \<Rightarrow> cstr" where
  "print_d prec i =
    (let digits = decimal (nat \<bar>i\<bar>) in
     (if i < 0 then [0x2D] else []) @ replicate (prec - length digits) 0x30 @ digits)"

definition hex_digit :: "u32 \<Rightarrow> byte" where
  "hex_digit d = (if d < 10 then 0x30 + ucast d else 0x37 + ucast d)"

definition print_08X :: "u32 \<Rightarrow> cstr" where
  "print_08X v = map (\<lambda>k. hex_digit (drop_bit (28 - 4 * k) v AND 0xF)) [0..<8]"

text \<open>"%.4d%.2d%.2dT%.2d%.2d%.2d" into \<open>char timestr[32]\<close>.\<close>

definition timestr :: "tm_info \<Rightarrow> cstr" where
  "timestr lt = take 31 (print_d 4 (1900 + tm_year lt) @ print_d 2 (tm_mon lt + 1) @ print_d 2 (tm_mday lt)
     @ [0x54] @ print_d 2 (tm_hour lt) @ print_d 2 (tm_min lt) @ print_d 2 (tm_sec lt))"

section \<open>Tables\<close>

record profile_property =
  pp_prop_code :: u16
  pp_data_type :: u16
  pp_getset :: u8
  pp_default_value :: u64
  pp_group_code :: u32
  pp_form_flag :: u8
  pp_format_id :: u16

definition pprop :: "u16 \<Rightarrow> u16 \<Rightarrow> u8 \<Rightarrow> u64 \<Rightarrow> u32 \<Rightarrow> u8 \<Rightarrow> u16 \<Rightarrow> profile_property" where
  "pprop c t g v gc ff f = \<lparr>pp_prop_code = c, pp_data_type = t, pp_getset = g, pp_default_value = v,
     pp_group_code = gc, pp_form_flag = ff, pp_format_id = f\<rparr>"

lemma pprop_simps [simp]:
  "pp_prop_code (pprop c t g v gc ff f) = c" "pp_data_type (pprop c t g v gc ff f) = t"
  "pp_getset (pprop c t g v gc ff f) = g" "pp_default_value (pprop c t g v gc ff f) = v"
  "pp_group_code (pprop c t g v gc ff f) = gc" "pp_form_flag (pprop c t g v gc ff f) = ff"
  "pp_format_id (pprop c t g v gc ff f) = f"
  by (simp_all add: pprop_def)

definition fmt_properties :: "(u16 \<times> u16 list) list" where
  "fmt_properties =
    [(MTP_FORMAT_UNDEFINED,
       [MTP_PROPERTY_STORAGE_ID, MTP_PROPERTY_OBJECT_FORMAT,
        MTP_PROPERTY_PROTECTION_STATUS, MTP_PROPERTY_OBJECT_SIZE,
        MTP_PROPERTY_OBJECT_FILE_NAME, MTP_PROPERTY_DATE_MODIFIED,
        MTP_PROPERTY_PARENT_OBJECT, MTP_PROPERTY_PERSISTENT_UID, MTP_PROPERTY_NAME,
        MTP_PROPERTY_DISPLAY_NAME, MTP_PROPERTY_DATE_CREATED, 0xFFFF]),
     (MTP_FORMAT_ASSOCIATION,
       [MTP_PROPERTY_STORAGE_ID, MTP_PROPERTY_OBJECT_FORMAT,
        MTP_PROPERTY_PROTECTION_STATUS, MTP_PROPERTY_OBJECT_SIZE,
        MTP_PROPERTY_OBJECT_FILE_NAME, MTP_PROPERTY_DATE_MODIFIED,
        MTP_PROPERTY_PARENT_OBJECT, MTP_PROPERTY_PERSISTENT_UID, MTP_PROPERTY_NAME,
        MTP_PROPERTY_DISPLAY_NAME, MTP_PROPERTY_DATE_CREATED, 0xFFFF]),
     (0xFFFF,
       [0xFFFF])]"

definition properties :: "profile_property list" where
  "properties =
    [pprop MTP_PROPERTY_STORAGE_ID MTP_TYPE_UINT32 0 0 1 0 0xFFFF,
     pprop MTP_PROPERTY_OBJECT_FORMAT MTP_TYPE_UINT16 0 MTP_FORMAT_UNDEFINED 0 0 MTP_FORMAT_UNDEFINED,
     pprop MTP_PROPERTY_OBJECT_FORMAT MTP_TYPE_UINT16 0 MTP_FORMAT_ASSOCIATION 0 0 MTP_FORMAT_ASSOCIATION,
     pprop MTP_PROPERTY_OBJECT_FORMAT MTP_TYPE_UINT16 0 MTP_FORMAT_TEXT 0 0 MTP_FORMAT_TEXT,
     pprop MTP_PROPERTY_OBJECT_FORMAT MTP_TYPE_UINT16 0 MTP_FORMAT_HTML 0 0 MTP_FORMAT_HTML,
     pprop MTP_PROPERTY_OBJECT_FORMAT MTP_TYPE_UINT16 0 MTP_FORMAT_WAV 0 0 MTP_FORMAT_WAV,
     pprop MTP_PROPERTY_OBJECT_FORMAT MTP_TYPE_UINT16 0 MTP_FORMAT_MP3 0 0 MTP_FORMAT_MP3,
     pprop MTP_PROPERTY_OBJECT_FORMAT MTP_TYPE_UINT16 0 MTP_FORMAT_MPEG 0 0 MTP_FORMAT_MPEG,
     pprop MTP_PROPERTY_OBJECT_FORMAT MTP_TYPE_UINT16 0 MTP_FORMAT_EXIF_JPEG 0 0 MTP_FORMAT_EXIF_JPEG,
     pprop MTP_PROPERTY_OBJECT_FORMAT MTP_TYPE_UINT16 0 MTP_FORMAT_BMP 0 0 MTP_FORMAT_BMP,
     pprop MTP_PROPERTY_OBJECT_FORMAT MTP_TYPE_UINT16 0 MTP_FORMAT_AIFF 0 0 MTP_FORMAT_AIFF,
     pprop MTP_PROPERTY_OBJECT_FORMAT MTP_TYPE_UINT16 0 MTP_FORMAT_MPEG 0 0 MTP_FORMAT_MPEG,
     pprop MTP_PROPERTY_OBJECT_FORMAT MTP_TYPE_UINT16 0 MTP_FORMAT_WMA 0 0 MTP_FORMAT_WMA,
     pprop MTP_PROPERTY_OBJECT_FORMAT MTP_TYPE_UINT16 0 MTP_FORMAT_OGG 0 0 MTP_FORMAT_OGG,
     pprop MTP_PROPERTY_OBJECT_FORMAT MTP_TYPE_UINT16 0 MTP_FORMAT_AAC 0 0 MTP_FORMAT_AAC,
     pprop MTP_PROPERTY_OBJECT_FORMAT MTP_TYPE_UINT16 0 MTP_FORMAT_MP4_CONTAINER 0 0 MTP_FORMAT_MP4_CONTAINER,
     pprop MTP_PROPERTY_OBJECT_FORMAT MTP_TYPE_UINT16 0 MTP_FORMAT_3GP_CONTAINER 0 0 MTP_FORMAT_3GP_CONTAINER,
     pprop MTP_PROPERTY_OBJECT_FORMAT MTP_TYPE_UINT16 0 MTP_FORMAT_ABSTRACT_AV_PLAYLIST 0 0 MTP_FORMAT_ABSTRACT_AV_PLAYLIST,
     pprop MTP_PROPERTY_OBJECT_FORMAT MTP_TYPE_UINT16 0 MTP_FORMAT_WPL_PLAYLIST 0 0 MTP_FORMAT_WPL_PLAYLIST,
     pprop MTP_PROPERTY_OBJECT_FORMAT MTP_TYPE_UINT16 0 MTP_FORMAT_M3U_PLAYLIST 0 0 MTP_FORMAT_M3U_PLAYLIST,
     pprop MTP_PROPERTY_OBJECT_FORMAT MTP_TYPE_UINT16 0 MTP_FORMAT_PLS_PLAYLIST 0 0 MTP_FORMAT_PLS_PLAYLIST,
     pprop MTP_PROPERTY_OBJECT_FORMAT MTP_TYPE_UINT16 0 MTP_FORMAT_XML_DOCUMENT 0 0 MTP_FORMAT_XML_DOCUMENT,
     pprop MTP_PROPERTY_OBJECT_FORMAT MTP_TYPE_UINT16 0 MTP_FORMAT_FLAC 0 0 MTP_FORMAT_FLAC,
     pprop MTP_PROPERTY_OBJECT_FORMAT MTP_TYPE_UINT16 0 MTP_FORMAT_AVI 0 0 MTP_FORMAT_AVI,
     pprop MTP_PROPERTY_OBJECT_FORMAT MTP_TYPE_UINT16 0 MTP_FORMAT_ASF 0 0 MTP_FORMAT_ASF,
     pprop MTP_PROPERTY_OBJECT_FORMAT MTP_TYPE_UINT16 0 MTP_FORMAT_MS_WORD_DOCUMENT 0 0 MTP_FORMAT_MS_WORD_DOCUMENT,
     pprop MTP_PROPERTY_OBJECT_FORMAT MTP_TYPE_UINT16 0 MTP_FORMAT_MS_EXCEL_SPREADSHEET 0 0 MTP_FORMAT_MS_EXCEL_SPREADSHEET,
     pprop MTP_PROPERTY_OBJECT_FORMAT MTP_TYPE_UINT16 0 MTP_FORMAT_MS_POWERPOINT_PRESENTATION 0 0 MTP_FORMAT_MS_POWERPOINT_PRESENTATION,
     pprop MTP_PROPERTY_OBJECT_SIZE MTP_TYPE_UINT64 0 0 0 0 MTP_FORMAT_ASSOCIATION,
     pprop MTP_PROPERTY_STORAGE_ID MTP_TYPE_UINT32 0 0 0 0 MTP_FORMAT_ASSOCIATION,
     pprop MTP_PROPERTY_PROTECTION_STATUS MTP_TYPE_UINT16 0 0 0 0 MTP_FORMAT_ASSOCIATION,
     pprop MTP_PROPERTY_DISPLAY_NAME MTP_TYPE_STR 0 0 0 0 MTP_FORMAT_ASSOCIATION,
     pprop MTP_PROPERTY_OBJECT_FILE_NAME MTP_TYPE_STR 0x1 0 0 0 MTP_FORMAT_ASSOCIATION,
     pprop MTP_PROPERTY_DATE_CREATED MTP_TYPE_STR 0 0 0 0 MTP_FORMAT_ASSOCIATION,
     pprop MTP_PROPERTY_DATE_MODIFIED MTP_TYPE_STR 0 0 0 0 MTP_FORMAT_ASSOCIATION,
     pprop MTP_PROPERTY_PARENT_OBJECT MTP_TYPE_UINT32 0 0 0 0 MTP_FORMAT_ASSOCIATION,
     pprop MTP_PROPERTY_PERSISTENT_UID MTP_TYPE_UINT128 0 0 0 0 MTP_FORMAT_ASSOCIATION,
     pprop MTP_PROPERTY_NAME MTP_TYPE_STR 0 0 0 0 MTP_FORMAT_ASSOCIATION,
     pprop MTP_PROPERTY_OBJECT_SIZE MTP_TYPE_UINT64 0 0 0 0 MTP_FORMAT_UNDEFINED,
     pprop MTP_PROPERTY_STORAGE_ID MTP_TYPE_UINT32 0 0 0 0 MTP_FORMAT_UNDEFINED,
     pprop MTP_PROPERTY_PROTECTION_STATUS MTP_TYPE_UINT16 0 0 0 0 MTP_FORMAT_UNDEFINED,
     pprop MTP_PROPERTY_DISPLAY_NAME MTP_TYPE_STR 0 0 0 0 MTP_FORMAT_UNDEFINED,
     pprop MTP_PROPERTY_OBJECT_FILE_NAME MTP_TYPE_STR 0x1 0 0 0 MTP_FORMAT_UNDEFINED,
     pprop MTP_PROPERTY_DATE_CREATED MTP_TYPE_STR 0 0 0 0 MTP_FORMAT_UNDEFINED,
     pprop MTP_PROPERTY_DATE_MODIFIED MTP_TYPE_STR 0 0 0 0 MTP_FORMAT_UNDEFINED,
     pprop MTP_PROPERTY_PARENT_OBJECT MTP_TYPE_UINT32 0 0 0 0 MTP_FORMAT_UNDEFINED,
     pprop MTP_PROPERTY_PERSISTENT_UID MTP_TYPE_UINT128 0 0 0 0 MTP_FORMAT_UNDEFINED,
     pprop MTP_PROPERTY_NAME MTP_TYPE_STR 0 0 0 0 MTP_FORMAT_UNDEFINED,
     pprop MTP_PROPERTY_ASSOCIATION_DESC MTP_TYPE_UINT32 0 0 0 0 0xFFFF,
     pprop MTP_PROPERTY_PROTECTION_STATUS MTP_TYPE_UINT16 0 0 0 0 0xFFFF,
     pprop MTP_PROPERTY_HIDDEN MTP_TYPE_UINT16 0 0 0 0 0xFFFF,
     pprop 0xFFFF MTP_TYPE_UINT32 0 0 0 0 0]"

definition dev_properties :: "profile_property list" where
  "dev_properties =
    [pprop MTP_DEVICE_PROPERTY_SYNCHRONIZATION_PARTNER MTP_TYPE_STR 0 0 0 0 0,
     pprop MTP_DEVICE_PROPERTY_BATTERY_LEVEL MTP_TYPE_UINT8 0 0 0 1 0,
     pprop MTP_DEVICE_PROPERTY_DEVICE_FRIENDLY_NAME MTP_TYPE_STR 0 0 0 0 0,
     pprop MTP_DEVICE_PROPERTY_PERCEIVED_DEVICE_TYPE MTP_TYPE_UINT32 0 0 0 0 0,
     pprop 0xFFFF MTP_TYPE_UINT32 0 0 0 0 0]"

text \<open>The scans of the tables: up to the closing entry, or the first that satisfies the test.\<close>

definition closing :: profile_property where
  "closing = pprop 0xFFFF MTP_TYPE_UINT32 0 0 0 0 0"

fun scan_props :: "(profile_property \<Rightarrow> bool) \<Rightarrow> profile_property list \<Rightarrow> profile_property" where
  "scan_props P [] = closing"
| "scan_props P (p # ps) = (if pp_prop_code p = 0xFFFF \<or> P p then p else scan_props P ps)"

definition before_closing :: "u16 list \<Rightarrow> u16 list" where
  "before_closing ps = takeWhile (\<lambda>c. c \<noteq> 0xFFFF) ps"

section \<open>Descriptions\<close>

definition is_device_property_supported :: "'w mtp_ctx \<Rightarrow> u32 \<Rightarrow> bool" where
  "is_device_property_supported ctx prop_code =
    (if prop_code = MTP_DEVICE_PROPERTY_BATTERY_LEVEL then battery_capacity (usb_cfg ctx) \<noteq> []
     else if prop_code = MTP_DEVICE_PROPERTY_PERCEIVED_DEVICE_TYPE then perceived_device_type (usb_cfg ctx) \<noteq> 0
     else True)"

text \<open>\<open>os_battery\<close> is the number read from the file, \<open>None\<close> when it cannot be opened or parsed.\<close>

definition get_battery_level :: "'w os \<Rightarrow> 'w mtp_ctx \<Rightarrow> u8" where
  "get_battery_level os ctx =
    (let level = (case os_battery os (world ctx) (battery_capacity (usb_cfg ctx)) of Some l \<Rightarrow> l | None \<Rightarrow> 0);
         level1 = (if level < 0 then 0 else level);
         level2 = (if level1 > 100 then 100 else level1)
     in word_of_int level2)"

definition find_property :: "u32 \<Rightarrow> u32 \<Rightarrow> profile_property" where
  "find_property property_id format_id =
    (let p = scan_props (\<lambda>p. ucast (pp_prop_code p) = property_id \<and> ucast (pp_format_id p) = format_id) properties in
     if pp_prop_code p = 0xFFFF
     then scan_props (\<lambda>p. ucast (pp_prop_code p) = property_id \<and> pp_format_id p = 0xFFFF) properties
     else p)"

definition default_fields :: "profile_property \<Rightarrow> writer list" where
  "default_fields p =
    (if pp_data_type p = MTP_TYPE_STR \<or> pp_data_type p = MTP_TYPE_UINT8 then [w08 (ucast (pp_default_value p))]
     else if pp_data_type p = MTP_TYPE_UINT16 then [w16 (ucast (pp_default_value p))]
     else if pp_data_type p = MTP_TYPE_UINT32 then [w32 (ucast (pp_default_value p))]
     else if pp_data_type p = MTP_TYPE_UINT64
       then [w32 (ucast (pp_default_value p AND 0xFFFFFFFF)), w32 (ucast (drop_bit 32 (pp_default_value p)))]
     else if pp_data_type p = MTP_TYPE_UINT128 then replicate 4 (w32 (ucast (pp_default_value p)))
     else [])"

definition build_properties_dataset :: "buffer \<Rightarrow> int \<Rightarrow> u32 \<Rightarrow> u32 \<Rightarrow> buffer \<times> int" where
  "build_properties_dataset buffer maxsize property_id format_id =
    (let p = find_property property_id format_id in
     if ucast (pp_prop_code p) = property_id
     then poke_seq ([w16 (pp_prop_code p), w16 (pp_data_type p), w08 (pp_getset p)] @ default_fields p
            @ [w32 (pp_group_code p), w08 (pp_form_flag p)]) buffer 0 maxsize
     else (buffer, 0))"

text \<open>The default and the current value; \<open>None\<close> is the early return on an unsupported type.\<close>

definition device_value_fields :: "'w os \<Rightarrow> 'w mtp_ctx \<Rightarrow> u32 \<Rightarrow> profile_property \<Rightarrow> writer list option" where
  "device_value_fields os ctx property_id p =
    (let v = pp_default_value p in
     if pp_data_type p = MTP_TYPE_STR then Some [w08 (ucast v), w08 (ucast v)]
     else if pp_data_type p = MTP_TYPE_UINT8 then
       Some [w08 (ucast v), w08 (if property_id = MTP_DEVICE_PROPERTY_BATTERY_LEVEL
                                 then get_battery_level os ctx else ucast v)]
     else if pp_data_type p = MTP_TYPE_UINT16 then Some [w16 (ucast v), w16 (ucast v)]
     else if pp_data_type p = MTP_TYPE_UINT32 then
       Some [w32 (ucast v), w32 (if property_id = MTP_DEVICE_PROPERTY_PERCEIVED_DEVICE_TYPE
                                 then perceived_device_type (usb_cfg ctx) else ucast v)]
     else if pp_data_type p = MTP_TYPE_UINT64 then
       Some [w32 (ucast (v AND 0xFFFFFFFF)), w32 (ucast (drop_bit 32 v)),
             w32 (ucast (v AND 0xFFFFFFFF)), w32 (ucast (drop_bit 32 v))]
     else None)"

definition build_device_properties_dataset ::
  "'w os \<Rightarrow> 'w mtp_ctx \<Rightarrow> buffer \<Rightarrow> int \<Rightarrow> u32 \<Rightarrow> buffer \<times> int" where
  "build_device_properties_dataset os ctx buffer maxsize property_id =
    (let p = scan_props (\<lambda>p. ucast (pp_prop_code p) = property_id) dev_properties;
         front = [w16 (pp_prop_code p), w16 (pp_data_type p), w08 (pp_getset p)] in
     if ucast (pp_prop_code p) = property_id \<and> is_device_property_supported ctx property_id
     then (case device_value_fields os ctx property_id p of
             None \<Rightarrow> (fst (poke_seq front buffer 0 maxsize), 0)
           | Some values \<Rightarrow>
               poke_seq (front @ values @ [w08 (pp_form_flag p)] @
                 (if property_id = MTP_DEVICE_PROPERTY_BATTERY_LEVEL then [w08 0, w08 100, w08 1] else []))
                 buffer 0 maxsize)
     else (buffer, 0))"

fun scan_formats :: "u32 \<Rightarrow> (u16 \<times> u16 list) list \<Rightarrow> u16 \<times> u16 list" where
  "scan_formats format_id [] = (0xFFFF, [0xFFFF])"
| "scan_formats format_id ((f, ps) # fs) =
     (if f = 0xFFFF \<or> ucast f = format_id then (f, ps) else scan_formats format_id fs)"

definition build_properties_supported_dataset :: "buffer \<Rightarrow> int \<Rightarrow> u32 \<Rightarrow> buffer \<times> int" where
  "build_properties_supported_dataset buffer maxsize format_id =
    (case scan_formats format_id fmt_properties of
       (f, ps) \<Rightarrow>
         (if f = 0xFFFF then (buffer, 0)
          else poke_seq (w32 (word_of_nat (length (before_closing ps))) # map w16 (before_closing ps)) buffer 0 maxsize))"

section \<open>Values\<close>

text \<open>The name field of a packet: \<open>None\<close> is NULL, or a read beyond the packet buffer.\<close>

definition getObjectPropFilename :: "buffer \<Rightarrow> cstr option" where
  "getObjectPropFilename packet =
    (case unicode2charstring (drop 13 packet) 257 of
       None \<Rightarrow> None
     | Some (nm, _) \<Rightarrow>
         (case sanitize_name (Some nm) 257 of
            (Some nm', ret) \<Rightarrow> if ret = 1 then Some nm' else None
          | (None, _) \<Rightarrow> None))"

definition with_name :: "ptr \<Rightarrow> cstr \<Rightarrow> 'w mtp_ctx \<Rightarrow> 'w mtp_ctx" where
  "with_name p nm ctx = set_db (upd_entry p (\<lambda>e. e\<lparr>e_name := nm\<rparr>) (the_db ctx)) ctx"

text \<open>The rename on disk and, when it succeeds, in the database.\<close>

definition rename_object ::
  "'w os \<Rightarrow> 'w mtp_ctx \<Rightarrow> ptr \<Rightarrow> cstr \<Rightarrow> cstr \<Rightarrow> cstr \<Rightarrow> 'w mtp_ctx \<times> u16" where
  "rename_object os ctx p path path2 new_filename =
    (let (ctx1, r) = set_storage_giduid os ctx (e_storage (entry_at (the_db ctx) p));
         (ctx2, ret) = (if r = 0 then (case os_rename os (world ctx1) path path2 of
                           (w, ret) \<Rightarrow> (ctx1\<lparr>world := w\<rparr>, ret)) else (ctx1, -1));
         ctx3 = fst (restore_giduid os ctx2)
     in if ret \<noteq> 0 then (ctx3, MTP_RESPONSE_GENERAL_ERROR)
        else (set_db (rename_entry (the_db ctx3) p new_filename) ctx3, MTP_RESPONSE_OK))"

definition setObjectPropValue :: "'w os \<Rightarrow> 'w mtp_ctx \<Rightarrow> buffer \<Rightarrow> u32 \<Rightarrow> u32 \<Rightarrow> 'w mtp_ctx \<times> u16" where
  "setObjectPropValue os ctx packet handle prop_code =
    (if handle = 0xFFFFFFFF then (ctx, MTP_RESPONSE_INVALID_OBJECT_HANDLE)
     else if prop_code \<noteq> MTP_PROPERTY_OBJECT_FILE_NAME then (ctx, MTP_RESPONSE_INVALID_OBJECT_PROP_CODE)
     else (case get_entry_by_handle (storages ctx) (the_db ctx) handle of
       None \<Rightarrow> (ctx, MTP_RESPONSE_GENERAL_ERROR)
     | Some p \<Rightarrow>
       (case check_handle_access (storages ctx) (the_db ctx) (Some p) 0 True of
          Some response_code \<Rightarrow> (ctx, response_code)
        | None \<Rightarrow>
       (case path_of os ctx p of
          None \<Rightarrow> (ctx, MTP_RESPONSE_GENERAL_ERROR)
        | Some path \<Rightarrow>
       (case getObjectPropFilename packet of
          None \<Rightarrow> (ctx, MTP_RESPONSE_GENERAL_ERROR)
        | Some new_filename \<Rightarrow>
       (case path_of os (with_name p new_filename ctx) p of
          None \<Rightarrow> (ctx, MTP_RESPONSE_GENERAL_ERROR)
        | Some path2 \<Rightarrow>
           rename_object os ctx p path path2 new_filename))))))"

definition object_value_fields :: "fs_entry \<Rightarrow> u32 \<Rightarrow> writer list option" where
  "object_value_fields e prop_code =
    (if prop_code = MTP_PROPERTY_OBJECT_FORMAT
       then Some [w16 (if has_flag (e_flags e) ENTRY_IS_DIR then MTP_FORMAT_ASSOCIATION else MTP_FORMAT_UNDEFINED)]
     else if prop_code = MTP_PROPERTY_OBJECT_SIZE
       then Some [w32 (word_of_int (e_size e AND 0xFFFFFFFF)), w32 (word_of_int (drop_bit 32 (e_size e)))]
     else if prop_code = MTP_PROPERTY_DISPLAY_NAME then Some [w08 0]
     else if prop_code = MTP_PROPERTY_NAME \<or> prop_code = MTP_PROPERTY_OBJECT_FILE_NAME
       then Some [w_string (e_name e)]
     else if prop_code = MTP_PROPERTY_STORAGE_ID then Some [w32 (e_storage e)]
     else if prop_code = MTP_PROPERTY_PARENT_OBJECT then Some [w32 (e_parent e)]
     else if prop_code = MTP_PROPERTY_HIDDEN then Some [w16 0]
     else if prop_code = MTP_PROPERTY_SYSTEM_OBJECT then Some [w16 0]
     else if prop_code = MTP_PROPERTY_PROTECTION_STATUS then Some [w16 0]
     else if prop_code = MTP_PROPERTY_ASSOCIATION_TYPE
       then Some [w16 (if has_flag (e_flags e) ENTRY_IS_DIR then 1 else 0)]
     else if prop_code = MTP_PROPERTY_ASSOCIATION_DESC then Some [w32 0]
     else if prop_code = MTP_PROPERTY_DATE_CREATED \<or> prop_code = MTP_PROPERTY_DATE_MODIFIED
       then Some [w_string (timestr \<lparr>tm_year = 110, tm_mon = 0, tm_mday = 2, tm_hour = 10, tm_min = 11, tm_sec = 12\<rparr>)]
     else if prop_code = MTP_PROPERTY_PERSISTENT_UID
       then Some [w32 (e_handle e), w32 (e_parent e), w32 (e_storage e), w32 0]
     else None)"

definition build_ObjectPropValue_dataset ::
  "storages \<Rightarrow> fs_handles_db \<Rightarrow> buffer \<Rightarrow> int \<Rightarrow> u32 \<Rightarrow> u32 \<Rightarrow> buffer \<times> int" where
  "build_ObjectPropValue_dataset sts db buffer maxsize handle prop_code =
    (case get_entry_by_handle sts db handle of
       None \<Rightarrow> (buffer, 0)
     | Some p \<Rightarrow> (case object_value_fields (entry_at db p) prop_code of
         None \<Rightarrow> (buffer, 0)
       | Some flds \<Rightarrow> poke_seq flds buffer 0 maxsize))"

definition build_DevicePropValue_dataset ::
  "'w os \<Rightarrow> 'w mtp_ctx \<Rightarrow> buffer \<Rightarrow> int \<Rightarrow> u32 \<Rightarrow> buffer \<times> int" where
  "build_DevicePropValue_dataset os ctx buffer maxsize prop_code =
    (if prop_code = MTP_DEVICE_PROPERTY_BATTERY_LEVEL then
       (if \<not> is_device_property_supported ctx prop_code then (buffer, 0)
        else w08 (get_battery_level os ctx) buffer 0 maxsize)
     else if prop_code = MTP_DEVICE_PROPERTY_PERCEIVED_DEVICE_TYPE then
       (if \<not> is_device_property_supported ctx prop_code then (buffer, 0)
        else w32 (perceived_device_type (usb_cfg ctx)) buffer 0 maxsize)
     else if prop_code = MTP_DEVICE_PROPERTY_DEVICE_FRIENDLY_NAME then
       w_string (usb_string_product (usb_cfg ctx)) buffer 0 maxsize
     else if prop_code = MTP_DEVICE_PROPERTY_SYNCHRONIZATION_PARTNER then
       w_string (synchronization_partner (usb_cfg ctx)) buffer 0 maxsize
     else (buffer, 0))"

section \<open>Property lists\<close>

text \<open>
  \<open>data\<close> is the memory behind the pointer the caller gives, \<open>None\<close> for NULL, in which case the 16
  zero bytes of \<open>tmp_data\<close> stand in. The 128-bit case reads the first word and adds \<open>i\<close> to it.
\<close>

definition element_value :: "u16 \<Rightarrow> byte list \<Rightarrow> writer list" where
  "element_value data_type tmp =
    (if data_type = MTP_TYPE_STR then [w_string (takeWhile (\<lambda>c. c \<noteq> 0) tmp)]
     else if data_type = MTP_TYPE_UINT8 then [w08 (ucast (peek tmp 0 1))]
     else if data_type = MTP_TYPE_UINT16 then [w16 (ucast (peek tmp 0 2))]
     else if data_type = MTP_TYPE_UINT32 then [w32 (peek tmp 0 4)]
     else if data_type = MTP_TYPE_UINT64
       then [w32 (ucast (peek64 tmp 0 8 AND 0xFFFFFFFF)), w32 (ucast (drop_bit 32 (peek64 tmp 0 8)))]
     else if data_type = MTP_TYPE_UINT128 then map (\<lambda>i. w32 (peek tmp 0 4 + word_of_nat i)) [0..<4]
     else [])"

definition objectproplist_element ::
  "buffer \<Rightarrow> int \<Rightarrow> int \<Rightarrow> u16 \<Rightarrow> u32 \<Rightarrow> byte list option \<Rightarrow> u32 \<Rightarrow> buffer \<times> int \<times> u32" where
  "objectproplist_element buffer ofs maxsize prop_code handle data prop_code_param =
    (let tmp = (case data of Some d \<Rightarrow> d | None \<Rightarrow> replicate 16 0) in
     if ucast prop_code \<noteq> prop_code_param \<and> prop_code_param \<noteq> 0xFFFFFFFF then (buffer, ofs, 0)
     else (let p = scan_props (\<lambda>p. pp_prop_code p = prop_code) properties in
       if pp_prop_code p = prop_code
       then (case poke_seq ([w32 handle, w16 (pp_prop_code p), w16 (pp_data_type p)] @ element_value (pp_data_type p) tmp)
               buffer ofs maxsize of (buffer', ofs') \<Rightarrow> (buffer', ofs', 1))
       else (buffer, ofs, 0)))"

fun proplist_elements ::
  "(u16 \<times> byte list option) list \<Rightarrow> u32 \<Rightarrow> u32 \<Rightarrow> int \<Rightarrow> buffer \<Rightarrow> int \<Rightarrow> u32 \<Rightarrow> buffer \<times> int \<times> u32" where
  "proplist_elements [] handle prop_code maxsize buffer ofs n = (buffer, ofs, n)"
| "proplist_elements ((code, data) # es) handle prop_code maxsize buffer ofs n =
     (case objectproplist_element buffer ofs maxsize code handle data prop_code of
        (buffer', ofs', k) \<Rightarrow> proplist_elements es handle prop_code maxsize buffer' ofs' (n + k))"

text \<open>The calls of \<open>build_objectproplist_dataset\<close>, in order; \<open>tmp_dword\<close> is followed by its canary.\<close>

definition proplist_calls :: "fs_entry \<Rightarrow> cstr \<Rightarrow> (u16 \<times> byte list option) list" where
  "proplist_calls e date =
    (let canary = le32 0xDEADBEEF; dir = has_flag (e_flags e) ENTRY_IS_DIR in
     [(MTP_PROPERTY_STORAGE_ID, Some (le32 (e_storage e))),
      (MTP_PROPERTY_OBJECT_FORMAT, Some (le32 (if dir then MTP_FORMAT_ASSOCIATION else MTP_FORMAT_UNDEFINED) @ canary)),
      (MTP_PROPERTY_ASSOCIATION_TYPE, Some (le32 (if dir then MTP_ASSOCIATION_TYPE_GENERIC_FOLDER else 0) @ canary)),
      (MTP_PROPERTY_PARENT_OBJECT, Some (le32 (e_parent e))),
      (MTP_PROPERTY_OBJECT_SIZE, Some (le64 (word_of_int (e_size e)))),
      (MTP_PROPERTY_PROTECTION_STATUS, Some (le32 0 @ canary)),
      (MTP_PROPERTY_OBJECT_FILE_NAME, Some (e_name e @ [0])),
      (MTP_PROPERTY_NAME, Some (e_name e @ [0])),
      (MTP_PROPERTY_DISPLAY_NAME, None),
      (MTP_PROPERTY_DATE_CREATED, Some (date @ [0])),
      (MTP_PROPERTY_DATE_MODIFIED, Some (date @ [0])),
      (MTP_PROPERTY_PERSISTENT_UID, Some (le32 (e_handle e) @ le32 (e_parent e) @ le32 (e_storage e) @ le32 0))])"

definition build_objectproplist_dataset ::
  "'w os \<Rightarrow> 'w mtp_ctx \<Rightarrow> buffer \<Rightarrow> int \<Rightarrow> ptr \<Rightarrow> u32 \<Rightarrow> u32 \<Rightarrow> 'w mtp_ctx \<times> buffer \<times> int" where
  "build_objectproplist_dataset os ctx buffer maxsize p handle prop_code =
    (case Option.bind (path_of os ctx p) (os_stat os (world ctx)) of
       None \<Rightarrow> (ctx, buffer, 0)
     | Some entrystat \<Rightarrow>
        (let ctx1 = set_db (upd_entry p (\<lambda>e. e\<lparr>e_size := st_size entrystat\<rparr>) (the_db ctx)) ctx;
             e = entry_at (the_db ctx1) p;
             (buf1, ofs1) = poke32 buffer 0 maxsize 0;
             (buf2, ofs2, n) = proplist_elements (proplist_calls e (timestr (os_localtime os (st_mtime entrystat))))
                handle prop_code maxsize buf1 ofs1 0;
             buf3 = fst (poke32 buf2 0 maxsize n)
         in (ctx1, buf3, ofs2)))"


section \<open>Property lists as encodings\<close>

definition value_enc :: "u16 \<Rightarrow> byte list \<Rightarrow> byte list" where
  "value_enc data_type tmp =
    (if data_type = MTP_TYPE_STR then string_enc (takeWhile (\<lambda>c. c \<noteq> 0) tmp)
     else if data_type = MTP_TYPE_UINT8 then [ucast (peek tmp 0 1)]
     else if data_type = MTP_TYPE_UINT16 then le16 (ucast (peek tmp 0 2))
     else if data_type = MTP_TYPE_UINT32 then le32 (peek tmp 0 4)
     else if data_type = MTP_TYPE_UINT64
       then le32 (ucast (peek64 tmp 0 8 AND 0xFFFFFFFF)) @ le32 (ucast (drop_bit 32 (peek64 tmp 0 8)))
     else if data_type = MTP_TYPE_UINT128 then concat (map (\<lambda>i. le32 (peek tmp 0 4 + word_of_nat i)) [0..<4])
     else [])"

definition table_type :: "u16 \<Rightarrow> u16" where
  "table_type code = pp_data_type (scan_props (\<lambda>p. pp_prop_code p = code) properties)"

definition in_table :: "u16 \<Rightarrow> bool" where
  "in_table code \<longleftrightarrow> pp_prop_code (scan_props (\<lambda>p. pp_prop_code p = code) properties) = code"

definition selected :: "u32 \<Rightarrow> u16 \<times> byte list option \<Rightarrow> bool" where
  "selected prop_code el \<longleftrightarrow> (ucast (fst el) = prop_code \<or> prop_code = 0xFFFFFFFF) \<and> in_table (fst el)"

definition element_data :: "byte list option \<Rightarrow> byte list" where
  "element_data data = (case data of Some d \<Rightarrow> d | None \<Rightarrow> replicate 16 0)"

definition element_writers :: "u32 \<Rightarrow> u16 \<times> byte list option \<Rightarrow> writer list" where
  "element_writers handle el = [w32 handle, w16 (fst el), w16 (table_type (fst el))]
     @ element_value (table_type (fst el)) (element_data (snd el))"

definition element_enc :: "u32 \<Rightarrow> u16 \<times> byte list option \<Rightarrow> byte list" where
  "element_enc handle el = le32 handle @ le16 (fst el) @ le16 (table_type (fst el))
     @ value_enc (table_type (fst el)) (element_data (snd el))"

lemma objectproplist_element_eq:
  "objectproplist_element buffer ofs maxsize code handle data prop_code =
    (if selected prop_code (code, data)
     then (case poke_seq (element_writers handle (code, data)) buffer ofs maxsize of (b, i) \<Rightarrow> (b, i, 1))
     else (buffer, ofs, 0))"
  by (auto simp: objectproplist_element_def selected_def in_table_def table_type_def element_writers_def
      element_data_def Let_def)

lemma proplist_elements_eq:
  "proplist_elements es handle prop_code maxsize buf ofs n =
    (case poke_seq (concat (map (element_writers handle) (filter (selected prop_code) es))) buf ofs maxsize of
       (b, i) \<Rightarrow> (b, i, n + word_of_nat (length (filter (selected prop_code) es))))"
proof (induction es arbitrary: buf ofs n)
  case (Cons el es)
  obtain code data where el: "el = (code, data)" by (cases el)
  show ?case
    by (cases "selected prop_code el")
       (simp_all add: el objectproplist_element_eq Cons.IH poke_seq_append split: prod.split)
qed simp

lemma encodes_element_value: "encodes (element_value t tmp) (value_enc t tmp)"
  unfolding element_value_def value_enc_def
  by (auto intro!: encodes_intros encodes_map w32.field_writer_axioms)

lemma encodes_element: "encodes (element_writers handle el) (element_enc handle el)"
  unfolding element_writers_def element_enc_def
  by (auto intro!: encodes_intros encodes_element_value)

definition proplist_enc :: "u32 \<Rightarrow> (u16 \<times> byte list option) list \<Rightarrow> byte list" where
  "proplist_enc handle els = le32 (word_of_nat (length els)) @ concat (map (element_enc handle) els)"

lemma encodes_proplist:
  "encodes (w32 0 # concat (map (element_writers handle) els)) (le32 0 @ concat (map (element_enc handle) els))"
  by (intro encodes_intros encodes_concat encodes_element)

lemma poke32_over_head:
  assumes "maxsize \<le> int (length buf)" "int (4 + length bs) < maxsize"
  shows "fst (poke32 (write_at buf 0 (le32 a @ bs)) 0 maxsize b) = write_at buf 0 (le32 b @ bs)"
proof -
  have len: "length (write_at buf 0 (le32 a @ bs)) = length buf" using assms by simp
  have "w32 b (write_at buf 0 (le32 a @ bs)) 0 maxsize
      = (write_at (write_at buf 0 (le32 a @ bs)) (nat 0) (le32 b), 0 + int (length (le32 b)))"
    using assms len by (intro w32.fits) simp_all
  moreover have "write_at (write_at buf 0 (le32 a @ bs)) 0 (le32 b) = write_at buf 0 (le32 b @ bs)"
    using assms by (simp add: write_at_def)
  ultimately show ?thesis by (simp add: w32_def)
qed

section \<open>Dates\<close>

lemma decimal_two: "n < 100 \<Longrightarrow> 10 \<le> n \<Longrightarrow> decimal n = [0x30 + word_of_nat (n div 10), 0x30 + word_of_nat (n mod 10)]"
  by (subst decimal.simps) (simp add: decimal.simps[of "n div 10"])

definition digits2 :: "int \<Rightarrow> cstr" where
  "digits2 i = [0x30 + word_of_int (i div 10), 0x30 + word_of_int (i mod 10)]"

lemma print_d_2:
  assumes "0 \<le> i" "i < 100"
  shows "print_d 2 i = digits2 i"
proof (cases "i < 10")
  case True
  then have "decimal (nat i) = [0x30 + word_of_nat (nat i)]" using assms by (subst decimal.simps) (simp add: nat_less_iff)
  then show ?thesis
    using assms True by (simp add: print_d_def digits2_def)
next
  case False
  have "decimal (nat i) = [0x30 + word_of_nat (nat i div 10), 0x30 + word_of_nat (nat i mod 10)]"
    using False assms by (intro decimal_two) simp_all
  moreover have "nat i div 10 = nat (i div 10)" "nat i mod 10 = nat (i mod 10)"
    using assms by (simp_all add: nat_div_distrib nat_mod_distrib)
  ultimately show ?thesis
    using assms by (simp add: print_d_def digits2_def)
qed

lemma decimal_four:
  assumes "1000 \<le> n" "n < 10000"
  shows "decimal n = map (\<lambda>d. 0x30 + word_of_nat d) [n div 1000, n div 100 mod 10, n div 10 mod 10, n mod 10]"
proof -
  have d: "n div 10 div 10 = n div 100" "n div 100 div 10 = n div 1000" by (simp_all add: div_mult2_eq[symmetric])
  have a: "decimal (n div 1000) = [0x30 + word_of_nat (n div 1000)]"
    using assms by (subst decimal.simps) simp
  have b: "decimal (n div 100) = decimal (n div 1000) @ [0x30 + word_of_nat (n div 100 mod 10)]"
    using assms by (subst decimal.simps) (simp add: d)
  have c: "decimal (n div 10) = decimal (n div 100) @ [0x30 + word_of_nat (n div 10 mod 10)]"
    using assms by (subst decimal.simps) (simp add: d)
  have e: "decimal n = decimal (n div 10) @ [0x30 + word_of_nat (n mod 10)]"
    using assms by (subst decimal.simps) simp
  show ?thesis by (simp add: e c b a)
qed

lemma digits2_int: "digits2 (int m) = [0x30 + word_of_nat (m div 10), 0x30 + word_of_nat (m mod 10)]"
proof -
  have "int m div 10 = int (m div 10)" "int m mod 10 = int (m mod 10)"
    by (simp_all only: of_nat_div of_nat_mod of_nat_numeral)
  then show ?thesis unfolding digits2_def by (simp only: of_int_of_nat_eq)
qed

lemma print_d_4:
  assumes "1000 \<le> i" "i < 10000"
  shows "print_d 4 i = digits2 (i div 100) @ digits2 (i mod 100)"
proof -
  obtain n where n: "i = int n" using assms(1) by (intro that[of "nat i"]) simp
  have dec: "decimal n = map (\<lambda>d. 0x30 + word_of_nat d) [n div 1000, n div 100 mod 10, n div 10 mod 10, n mod 10]"
    using assms n by (intro decimal_four) simp_all
  have div: "n div 100 div 10 = n div 1000" by (simp add: div_mult2_eq[symmetric])
  have mod: "n mod 100 div 10 = n div 10 mod 10" "n mod 100 mod 10 = n mod 10"
    using mod_mult2_eq[of n 10 10] by simp_all
  have "i div 100 = int (n div 100)" "i mod 100 = int (n mod 100)"
    by (simp_all only: n of_nat_div of_nat_mod of_nat_numeral)
  then have d: "digits2 (i div 100) @ digits2 (i mod 100) = decimal n"
    by (simp only: digits2_int div mod dec list.map append.simps)
  have "length (decimal n) = 4" by (simp only: dec list.map list.size)
  moreover have "nat \<bar>i\<bar> = n" "\<not> i < 0" by (simp_all add: n)
  ultimately show ?thesis by (simp only: d print_d_def Let_def if_False append_Nil diff_self_eq_0 replicate_0)
qed

section \<open>Descriptions as encodings\<close>

lemma announced_all:
  "list_all (\<lambda>(f, ps). f = 0xFFFF \<or> list_all (\<lambda>c. pp_prop_code (find_property (ucast c) (ucast f)) = c) (before_closing ps)) fmt_properties"
  by (simp add: fmt_properties_def before_closing_def find_property_def properties_def)

definition default_enc :: "profile_property \<Rightarrow> byte list" where
  "default_enc p =
    (if pp_data_type p = MTP_TYPE_STR \<or> pp_data_type p = MTP_TYPE_UINT8 then [ucast (pp_default_value p)]
     else if pp_data_type p = MTP_TYPE_UINT16 then le16 (ucast (pp_default_value p))
     else if pp_data_type p = MTP_TYPE_UINT32 then le32 (ucast (pp_default_value p))
     else if pp_data_type p = MTP_TYPE_UINT64
       then le32 (ucast (pp_default_value p AND 0xFFFFFFFF)) @ le32 (ucast (drop_bit 32 (pp_default_value p)))
     else if pp_data_type p = MTP_TYPE_UINT128 then concat (replicate 4 (le32 (ucast (pp_default_value p))))
     else [])"

definition description_enc :: "profile_property \<Rightarrow> byte list" where
  "description_enc p = le16 (pp_prop_code p) @ le16 (pp_data_type p) @ pp_getset p # default_enc p
     @ le32 (pp_group_code p) @ [pp_form_flag p]"

lemma encodes_default: "encodes (default_fields p) (default_enc p)"
  unfolding default_fields_def default_enc_def
  by (auto simp: numeral_eq_Suc intro!: encodes_intros)

lemma encodes_description:
  "encodes ([w16 (pp_prop_code p), w16 (pp_data_type p), w08 (pp_getset p)] @ default_fields p
     @ [w32 (pp_group_code p), w08 (pp_form_flag p)]) (description_enc p)"
  unfolding description_enc_def append_Cons append_Nil
  by (intro encodes_intros encodes_append encodes_default)

lemma description_length: "length (description_enc p) \<le> 26"
  by (auto simp: description_enc_def default_enc_def numeral_eq_Suc)

lemma find_uid: "scan_props (\<lambda>p. pp_prop_code p = MTP_PROPERTY_PERSISTENT_UID) properties
   = pprop MTP_PROPERTY_PERSISTENT_UID MTP_TYPE_UINT128 0 0 0 0 MTP_FORMAT_ASSOCIATION"
  by (simp add: properties_def)

lemma peek_le32_append: "peek (le32 w @ bs) 0 4 = w"
  by (rule peek_le32) (simp_all only: nth_append length_le add_0, simp_all)

section \<open>Renaming an object\<close>

lemma check_handle_access_not_ok: "check_handle_access sts db entry h wr \<noteq> Some MTP_RESPONSE_OK"
  by (auto simp: check_handle_access_def Let_def split: option.split)

lemma rename_object_db:
  assumes "rename_object os ctx p path path2 nm = (ctx', r)"
  shows "the_db ctx' = (if r = MTP_RESPONSE_OK then rename_entry (the_db ctx) p nm else the_db ctx)"
proof -
  obtain c1 r1 where c1: "set_storage_giduid os ctx (e_storage (entry_at (the_db ctx) p)) = (c1, r1)"
    by (cases "set_storage_giduid os ctx (e_storage (entry_at (the_db ctx) p))")
  then have "the_db c1 = the_db ctx"
    using giduid_frame(4)[of os ctx "e_storage (entry_at (the_db ctx) p)"] by simp
  then show ?thesis
    using assms by (auto simp: rename_object_def c1 Let_def split: prod.splits if_splits)
qed

lemma setObjectPropValue_cases:
  assumes "setObjectPropValue os ctx packet handle pc = (ctx', r)"
  shows "r \<noteq> MTP_RESPONSE_OK \<and> the_db ctx' = the_db ctx \<or>
    (\<exists>p nm. r = MTP_RESPONSE_OK \<and> get_entry_by_handle (storages ctx) (the_db ctx) handle = Some p \<and>
      getObjectPropFilename packet = Some nm \<and>
      check_handle_access (storages ctx) (the_db ctx) (Some p) 0 True = None \<and>
      the_db ctx' = rename_entry (the_db ctx) p nm)"
proof (cases "\<exists>p path nm path2. get_entry_by_handle (storages ctx) (the_db ctx) handle = Some p \<and>
    check_handle_access (storages ctx) (the_db ctx) (Some p) 0 True = None \<and> getObjectPropFilename packet = Some nm \<and>
    rename_object os ctx p path path2 nm = (ctx', r)")
  case True
  then show ?thesis using rename_object_db by metis
next
  case False
  then show ?thesis
    using assms check_handle_access_not_ok unfolding setObjectPropValue_def
    by (fastforce split: if_splits option.splits)
qed

section \<open>Properties\<close>

text \<open>C20. Setting the file name of an object either answers with an error and leaves the database as
  it was, or renames the object the handle stands for, on a storage that may be written, to the
  sanitised name of the packet; the database stays consistent and only that name changes.\<close>

theorem setObjectPropValue_spec:
  assumes "setObjectPropValue os ctx packet h pc = (ctx', r)" "db_inv (the_db ctx)"
    "length (pool (the_db ctx)) \<le> 0x10000000" "h \<noteq> 0"
  shows "db_inv (the_db ctx') \<and>
    (if r = MTP_RESPONSE_OK
     then \<exists>e nm. handle_map (the_db ctx) h = Some e \<and> getObjectPropFilename packet = Some nm \<and>
            handle_map (the_db ctx') = (handle_map (the_db ctx))(h \<mapsto> e\<lparr>e_name := nm\<rparr>) \<and>
            \<not> has_flag (mtp_get_storage_flags (storages ctx) (e_storage e)) UMTP_STORAGE_READONLY
     else the_db ctx' = the_db ctx)"
proof (cases "r = MTP_RESPONSE_OK")
  case False
  then show ?thesis using setObjectPropValue_cases[OF assms(1)] assms(2) by auto
next
  case True
  then obtain p nm where 2: "r = MTP_RESPONSE_OK" "get_entry_by_handle (storages ctx) (the_db ctx) h = Some p"
    "getObjectPropFilename packet = Some nm"
    "check_handle_access (storages ctx) (the_db ctx) (Some p) 0 True = None"
    "the_db ctx' = rename_entry (the_db ctx) p nm"
    using setObjectPropValue_cases[OF assms(1)] by blast
  let ?db = "the_db ctx"
  have p: "live ?db p" "e_handle (entry_at ?db p) = h"
    using get_entry_by_handle_Some[OF assms(2) 2(2)] by auto
  have "handle_map ?db h = Some (entry_at ?db p)"
    using handle_map_Some[OF assms(2)] p assms(4) by blast
  moreover have "db_inv (the_db ctx')"
    using db_inv_rename_entry[OF assms(2) _ assms(3)] p(1) 2(5) by (simp add: live_def)
  moreover have "handle_map (the_db ctx') = (handle_map ?db)(h \<mapsto> (entry_at ?db p)\<lparr>e_name := nm\<rparr>)"
    using handle_map_rename[OF assms(2) p(1) _ assms(3)] p(2) assms(4) 2(5) by simp
  moreover have "\<not> has_flag (mtp_get_storage_flags (storages ctx) (e_storage (entry_at ?db p))) UMTP_STORAGE_READONLY"
    using 2(4) by (auto simp: check_handle_access_def Let_def split: if_splits)
  ultimately show ?thesis using 2(1,3) by auto
qed

theorem setObjectPropValue_spec_witness:
  "let (ctx', r) = setObjectPropValue plain_os sample_ctx
     [16, 0, 0, 0, 2, 0, 4, 0x98, 7, 0, 0, 0, 2, 0x62, 0, 0, 0] 1 MTP_PROPERTY_OBJECT_FILE_NAME
   in r = MTP_RESPONSE_OK \<and> map_option e_name (handle_map (the_db ctx') 1) = Some [0x62]"
proof -
  let ?packet = "[16, 0, 0, 0, 2, 0, 4, 0x98, 7, 0, 0, 0, 2, 0x62, 0, 0, 0] :: buffer"
  have nm: "getObjectPropFilename ?packet = Some [0x62]"
    by (simp add: getObjectPropFilename_def unicode2charstring_def utf8_encode_def sanitize_example2)
  obtain ctx' r where res: "setObjectPropValue plain_os sample_ctx ?packet 1 MTP_PROPERTY_OBJECT_FILE_NAME = (ctx', r)"
    by (cases "setObjectPropValue plain_os sample_ctx ?packet 1 MTP_PROPERTY_OBJECT_FILE_NAME")
  have "r = MTP_RESPONSE_OK" using res
    by (simp add: setObjectPropValue_def sample_entry nm sample_path with_name_def sample_pool entry_at_upd ptrs_def
        check_handle_access_def has_flag_def rename_object_def)
  then show ?thesis
    using setObjectPropValue_spec[OF res] sample_db_inv res nm by (auto simp: sample_pool)
qed


text \<open>C31. The property list of an object, where it fits, is the number of the properties selected,
  then each of them as handle, code, type and value in the order of the source; where it does not
  fit the result is -1.\<close>

theorem proplist_dataset:
  assumes "maxsize \<le> int (length buf)" "path_of os ctx p = Some path" "os_stat os (world ctx) path = Some st"
    "p < length (pool (the_db ctx))"
  shows "let e = (entry_at (the_db ctx) p)\<lparr>e_size := st_size st\<rparr>;
             els = filter (selected prop_code) (proplist_calls e (timestr (os_localtime os (st_mtime st))));
             enc = proplist_enc handle els
         in (if int (length enc) < maxsize
             then snd (build_objectproplist_dataset os ctx buf maxsize p handle prop_code)
               = (write_at buf 0 enc, int (length enc))
             else snd (snd (build_objectproplist_dataset os ctx buf maxsize p handle prop_code)) = -1)"
proof -
  define e where "e = (entry_at (the_db ctx) p)\<lparr>e_size := st_size st\<rparr>"
  define els where "els = filter (selected prop_code) (proplist_calls e (timestr (os_localtime os (st_mtime st))))"
  let ?ws = "w32 0 # concat (map (element_writers handle) els)"
  let ?bs = "concat (map (element_enc handle) els)"
  note W = encodes_proplist[of handle els]
  have ent: "entry_at (upd_entry p (e_size_update (\<lambda>_. st_size st)) (the_db ctx)) p = e"
    using assms(4) by (simp add: upd_entry_def e_def)
  have res: "snd (build_objectproplist_dataset os ctx buf maxsize p handle prop_code)
    = (case poke_seq ?ws buf 0 maxsize of
        (b, i) \<Rightarrow> (fst (poke32 b 0 maxsize (word_of_nat (length els))), i))"
    using assms(2,3)
    by (simp add: build_objectproplist_dataset_def ent Let_def proplist_elements_eq w32_def els_def split: prod.split)
  show ?thesis
  proof (cases "int (4 + length ?bs) < maxsize")
    case True
    then have "poke_seq ?ws buf 0 maxsize = (write_at buf 0 (le32 0 @ ?bs), int (4 + length ?bs))"
      using dataset_fits[OF W _ assms(1)] by simp
    then show ?thesis
      using True res poke32_over_head[OF assms(1) True]
      by (simp add: e_def[symmetric] els_def[symmetric] proplist_enc_def Let_def)
  next
    case False
    then have "snd (poke_seq ?ws buf 0 maxsize) = -1"
      using dataset_refuses[OF W _ assms(1)] by simp
    then show ?thesis
      using False res
      by (cases "poke_seq ?ws buf 0 maxsize")
         (simp add: e_def[symmetric] els_def[symmetric] proplist_enc_def Let_def del: poke_seq.simps)
  qed
qed

theorem proplist_dataset_witness:
  "snd (snd (build_objectproplist_dataset (plain_os\<lparr>os_stat := (\<lambda>w path. Some \<lparr>st_isdir = False, st_size = 9, st_mtime = 0\<rparr>)\<rparr>)
     sample_ctx (replicate 64 0) 3 1 1 MTP_PROPERTY_STORAGE_ID)) = -1"
  using proplist_dataset[of 3 "replicate 64 0" "plain_os\<lparr>os_stat := (\<lambda>w path. Some \<lparr>st_isdir = False, st_size = 9, st_mtime = 0\<rparr>)\<rparr>"
      sample_ctx 1 _ "\<lparr>st_isdir = False, st_size = 9, st_mtime = 0\<rparr>" MTP_PROPERTY_STORAGE_ID 1]
  by (simp add: sample_path sample_pool Let_def proplist_enc_def)


text \<open>Every object property a format announces has a description, and with room for 26 bytes it is
  built whole.\<close>

theorem announced_properties_described:
  assumes "(f, ps) \<in> set fmt_properties" "f \<noteq> 0xFFFF" "c \<in> set (before_closing ps)"
    "26 < maxsize" "maxsize \<le> int (length buf)"
  shows "pp_prop_code (find_property (ucast c) (ucast f)) = c \<and>
    build_properties_dataset buf maxsize (ucast c) (ucast f)
      = (write_at buf 0 (description_enc (find_property (ucast c) (ucast f))),
         int (length (description_enc (find_property (ucast c) (ucast f)))))"
proof -
  let ?p = "find_property (ucast c) (ucast f)"
  have c: "pp_prop_code ?p = c"
    using announced_all assms(1-3) by (auto simp: list_all_iff)
  have "int (length (description_enc ?p)) < maxsize"
    using description_length[of ?p] assms(4) by linarith
  then show ?thesis
    using dataset_fits[OF encodes_description _ assms(5), of ?p] c
    by (simp only: build_properties_dataset_def Let_def if_True refl simp_thms) simp
qed

theorem announced_properties_described_witness:
  "pp_prop_code (find_property MTP_PROPERTY_OBJECT_SIZE MTP_FORMAT_UNDEFINED) = MTP_PROPERTY_OBJECT_SIZE"
  using announced_properties_described[of MTP_FORMAT_UNDEFINED _ MTP_PROPERTY_OBJECT_SIZE 27 "replicate 27 0"]
  by (simp add: fmt_properties_def before_closing_def)


text \<open>The 128-bit identifier of an object in a property list holds the handle and its three
  successors, where the same property read alone holds handle, parent, storage and zero.\<close>

theorem persistent_uid_element:
  "concat (map (element_enc h) (filter (selected MTP_PROPERTY_PERSISTENT_UID) (proplist_calls e date)))
    = le32 h @ le16 MTP_PROPERTY_PERSISTENT_UID @ le16 MTP_TYPE_UINT128
      @ le32 (e_handle e) @ le32 (e_handle e + 1) @ le32 (e_handle e + 2) @ le32 (e_handle e + 3) \<and>
   object_value_fields e MTP_PROPERTY_PERSISTENT_UID
    = Some [w32 (e_handle e), w32 (e_parent e), w32 (e_storage e), w32 0]"
proof -
  have sel: "filter (selected MTP_PROPERTY_PERSISTENT_UID) (proplist_calls e date)
    = [(MTP_PROPERTY_PERSISTENT_UID, Some (le32 (e_handle e) @ le32 (e_parent e) @ le32 (e_storage e) @ le32 0))]"
    by (simp add: proplist_calls_def Let_def selected_def in_table_def find_uid)
  have four: "[0..<4] = [0, 1, 2, 3]" by (simp add: upt_rec)
  show ?thesis
    by (simp add: sel element_enc_def table_type_def find_uid value_enc_def element_data_def peek_le32_append four
        object_value_fields_def)
qed

text \<open>For calendar dates of four-digit years the date string has the form YYYYMMDDThhmmss.\<close>

theorem timestr_format:
  assumes "1000 \<le> 1900 + tm_year lt" "1900 + tm_year lt \<le> 9999" "0 \<le> tm_mon lt" "tm_mon lt < 12"
    "1 \<le> tm_mday lt" "tm_mday lt \<le> 31" "0 \<le> tm_hour lt" "tm_hour lt < 24"
    "0 \<le> tm_min lt" "tm_min lt < 60" "0 \<le> tm_sec lt" "tm_sec lt \<le> 60"
  shows "timestr lt = digits2 ((1900 + tm_year lt) div 100) @ digits2 ((1900 + tm_year lt) mod 100)
    @ digits2 (tm_mon lt + 1) @ digits2 (tm_mday lt) @ [0x54]
    @ digits2 (tm_hour lt) @ digits2 (tm_min lt) @ digits2 (tm_sec lt)"
proof -
  have "length (digits2 i) = 2" for i by (simp add: digits2_def)
  then show ?thesis
    using assms by (simp add: timestr_def print_d_2 print_d_4)
qed

theorem timestr_format_witness:
  "timestr \<lparr>tm_year = 124, tm_mon = 1, tm_mday = 29, tm_hour = 9, tm_min = 5, tm_sec = 0\<rparr>
    = [0x32, 0x30, 0x32, 0x34, 0x30, 0x32, 0x32, 0x39, 0x54, 0x30, 0x39, 0x30, 0x35, 0x30, 0x30]"
  using timestr_format[of "\<lparr>tm_year = 124, tm_mon = 1, tm_mday = 29, tm_hour = 9, tm_min = 5, tm_sec = 0\<rparr>"]
  by (simp add: digits2_def)


end
