(* ===== verification/Datasets.thy ===== *)
theory Datasets
  imports Properties
begin

text \<open>
  The datasets of \<open>src/mtp_datasets.c\<close> and the operations and events of \<open>src/mtp_support_def.c\<close>.
  Each builder is a chain of writers from index 0; the result is the length, negative when the
  dataset did not fit, and 0 when there is nothing to describe.
\<close>

section \<open>Operations and events supported\<close>

definition supported_op :: "u16 list" where
  "supported_op =
    [MTP_OPERATION_GET_DEVICE_INFO, MTP_OPERATION_OPEN_SESSION, MTP_OPERATION_CLOSE_SESSION,
     MTP_OPERATION_GET_STORAGE_IDS, MTP_OPERATION_GET_STORAGE_INFO, MTP_OPERATION_GET_OBJECT_HANDLES,
     MTP_OPERATION_GET_OBJECT_INFO, MTP_OPERATION_GET_OBJECT, MTP_OPERATION_DELETE_OBJECT,
     MTP_OPERATION_SEND_OBJECT_INFO, MTP_OPERATION_SEND_OBJECT, MTP_OPERATION_GET_DEVICE_PROP_DESC,
     MTP_OPERATION_GET_DEVICE_PROP_VALUE, MTP_OPERATION_SET_DEVICE_PROP_VALUE,
     MTP_OPERATION_GET_PARTIAL_OBJECT, MTP_OPERATION_GET_OBJECT_PROPS_SUPPORTED,
     MTP_OPERATION_GET_OBJECT_PROP_DESC, MTP_OPERATION_GET_OBJECT_PROP_VALUE,
     MTP_OPERATION_SET_OBJECT_PROP_VALUE, MTP_OPERATION_GET_OBJECT_PROP_LIST,
     MTP_OPERATION_GET_PARTIAL_OBJECT_64, MTP_OPERATION_SEND_PARTIAL_OBJECT,
     MTP_OPERATION_TRUNCATE_OBJECT, MTP_OPERATION_BEGIN_EDIT_OBJECT, MTP_OPERATION_END_EDIT_OBJECT]"

definition supported_event :: "u16 list" where
  "supported_event =
    [MTP_EVENT_OBJECT_ADDED, MTP_EVENT_OBJECT_REMOVED, MTP_EVENT_STORE_ADDED, MTP_EVENT_STORE_REMOVED,
     MTP_EVENT_STORAGE_INFO_CHANGED, MTP_EVENT_OBJECT_INFO_CHANGED, MTP_EVENT_DEVICE_PROP_CHANGED,
     MTP_EVENT_OBJECT_PROP_CHANGED]"

definition u16_array :: "u16 list \<Rightarrow> byte list" where
  "u16_array xs = concat (map le16 xs)"

section \<open>Device\<close>

abbreviation (input) MTP_VERSION :: u16 where "MTP_VERSION \<equiv> 100"

text \<open>The loop over \<open>dev_properties\<close>, up to its closing entry.\<close>

definition supported_dev_props :: "'w mtp_ctx \<Rightarrow> u16 list" where
  "supported_dev_props ctx =
    filter (\<lambda>c. is_device_property_supported ctx (ucast c))
      (map pp_prop_code (takeWhile (\<lambda>p. pp_prop_code p \<noteq> 0xFFFF) dev_properties))"

definition playback_formats :: "u16 list" where
  "playback_formats = map fst (takeWhile (\<lambda>(f, ps). f \<noteq> 0xFFFF) fmt_properties)"

definition deviceinfo_fields :: "'w mtp_ctx \<Rightarrow> writer list" where
  "deviceinfo_fields ctx =
    [w16 MTP_VERSION, w32 6, w16 MTP_VERSION, w_string (usb_string_mtp_extensions (usb_cfg ctx)), w16 0,
     w_array 2 (u16_array supported_op) True, w_array 2 (u16_array supported_event) True]
    @ [w32 (word_of_nat (length (supported_dev_props ctx)))] @ map w16 (supported_dev_props ctx)
    @ [w32 0]
    @ [w32 (word_of_nat (length playback_formats))] @ map w16 playback_formats
    @ [w_string (usb_string_manufacturer (usb_cfg ctx)), w_string (usb_string_product (usb_cfg ctx)),
       w_string (usb_string_version (usb_cfg ctx)), w_string (usb_string_serial (usb_cfg ctx))]"

definition build_deviceinfo_dataset :: "'w mtp_ctx \<Rightarrow> buffer \<Rightarrow> int \<Rightarrow> buffer \<times> int" where
  "build_deviceinfo_dataset ctx buffer maxsize = poke_seq (deviceinfo_fields ctx) buffer 0 maxsize"

section \<open>Storage\<close>

definition storageinfo_fields :: "u32 \<Rightarrow> u64 \<Rightarrow> u64 \<Rightarrow> cstr \<Rightarrow> u32 \<Rightarrow> writer list" where
  "storageinfo_fields storage_flags totalspace freespace storage_description storageid =
    [w16 (if has_flag storage_flags UMTP_STORAGE_REMOVABLE then MTP_STORAGE_REMOVABLE_RAM else MTP_STORAGE_FIXED_RAM),
     w16 MTP_STORAGE_FILESYSTEM_HIERARCHICAL,
     w16 (if has_flag storage_flags UMTP_STORAGE_READONLY then MTP_STORAGE_READ_ONLY_WITHOUT_DELETE
          else MTP_STORAGE_READ_WRITE),
     w32 (ucast (totalspace AND 0xFFFFFFFF)), w32 (ucast (drop_bit 32 totalspace)),
     w32 (ucast (freespace AND 0xFFFFFFFF)), w32 (ucast (drop_bit 32 freespace)),
     w32 0x40000000, w_string storage_description,
     w_string (take 15 (bytes_of ''UMTPRD_'' @ print_08X storageid))]"

definition build_storageinfo_dataset :: "'w os \<Rightarrow> 'w mtp_ctx \<Rightarrow> buffer \<Rightarrow> int \<Rightarrow> u32 \<Rightarrow> buffer \<times> int" where
  "build_storageinfo_dataset os ctx buffer maxsize storageid =
    (case (mtp_get_storage_description (storages ctx) storageid, mtp_get_storage_root (storages ctx) storageid) of
       (Some storage_description, Some storage_path) \<Rightarrow>
         (let (totalspace, freespace) = (case os_statvfs os (world ctx) storage_path of
                 Some (f_bsize, f_blocks, f_bavail) \<Rightarrow> (f_bsize * f_blocks, f_bsize * f_bavail)
               | None \<Rightarrow> (0x8000000000000000, 0x4000000000000000))
          in poke_seq (storageinfo_fields (mtp_get_storage_flags (storages ctx) storageid) totalspace freespace
               storage_description storageid) buffer 0 maxsize)
     | _ \<Rightarrow> (buffer, 0))"

section \<open>Object\<close>

definition objectinfo_fields :: "fs_entry \<Rightarrow> cstr \<Rightarrow> writer list" where
  "objectinfo_fields e date =
    [w32 (e_storage e),
     w16 (if has_flag (e_flags e) ENTRY_IS_DIR then MTP_FORMAT_ASSOCIATION else MTP_FORMAT_UNDEFINED),
     w16 0,
     w32 (if e_size e \<ge> 0x100000000 then 0xFFFFFFFF else word_of_int (e_size e)),
     w16 0, w32 0, w32 0, w32 0, w32 0, w32 0, w32 0,
     w32 (e_parent e),
     w16 (if has_flag (e_flags e) 1 then MTP_ASSOCIATION_TYPE_GENERIC_FOLDER else 0),
     w32 0, w32 0, w_string (e_name e), w_string date, w_string date, w08 0]"

text \<open>The size of the file is read again, and kept in the entry.\<close>

definition build_objectinfo_dataset :: "'w os \<Rightarrow> 'w mtp_ctx \<Rightarrow> buffer \<Rightarrow> int \<Rightarrow> ptr \<Rightarrow> 'w mtp_ctx \<times> buffer \<times> int" where
  "build_objectinfo_dataset os ctx buffer maxsize p =
    (case Option.bind (path_of os ctx p) (os_stat os (world ctx)) of
       None \<Rightarrow> (ctx, buffer, 0)
     | Some entrystat \<Rightarrow>
        (let ctx1 = set_db (upd_entry p (\<lambda>e. e\<lparr>e_size := st_size entrystat\<rparr>) (the_db ctx)) ctx
         in (ctx1, poke_seq (objectinfo_fields (entry_at (the_db ctx1) p)
                     (timestr (os_localtime os (st_mtime entrystat)))) buffer 0 maxsize)))"

section \<open>Event\<close>

text \<open>The size field is written last; its own result is not looked at.\<close>

definition build_event_dataset :: "'w mtp_ctx \<Rightarrow> buffer \<Rightarrow> int \<Rightarrow> u16 \<Rightarrow> u32 list \<Rightarrow> buffer \<times> int" where
  "build_event_dataset ctx buffer maxsize event parameters =
    (case poke_seq ([w32 0, w16 MTP_CONTAINER_TYPE_EVENT, w16 event, w32 (session_id ctx)] @ map w32 parameters)
            buffer 0 maxsize of
       (buf1, ofs) \<Rightarrow> (if ofs \<ge> 0 then (fst (poke32 buf1 0 maxsize (word_of_int ofs)), ofs) else (buf1, ofs)))"

section \<open>Encodings\<close>

definition deviceinfo_enc :: "'w mtp_ctx \<Rightarrow> byte list" where
  "deviceinfo_enc ctx =
    le16 100 @ le32 6 @ le16 100 @ string_enc (usb_string_mtp_extensions (usb_cfg ctx)) @ le16 0
    @ le32 (word_of_nat (length supported_op)) @ u16_array supported_op
    @ le32 (word_of_nat (length supported_event)) @ u16_array supported_event
    @ le32 (word_of_nat (length (supported_dev_props ctx))) @ u16_array (supported_dev_props ctx)
    @ le32 0
    @ le32 (word_of_nat (length playback_formats)) @ u16_array playback_formats
    @ string_enc (usb_string_manufacturer (usb_cfg ctx)) @ string_enc (usb_string_product (usb_cfg ctx))
    @ string_enc (usb_string_version (usb_cfg ctx)) @ string_enc (usb_string_serial (usb_cfg ctx))"

lemma length_u16_array [simp]: "length (u16_array xs) = 2 * length xs"
  by (induction xs) (simp_all add: u16_array_def)

lemma array_enc_u16: "array_enc 2 (u16_array xs) True = le32 (word_of_nat (length xs)) @ u16_array xs"
  by (simp add: array_enc_def)

lemma encodes_u16s: "encodes (map w16 xs) (u16_array xs)"
  unfolding u16_array_def by (intro encodes_map w16.field_writer_axioms)

lemma encodes_deviceinfo: "encodes (deviceinfo_fields ctx) (deviceinfo_enc ctx)"
proof -
  have "encodes (deviceinfo_fields ctx)
    ((le16 100 @ le32 6 @ le16 100 @ string_enc (usb_string_mtp_extensions (usb_cfg ctx)) @ le16 0
      @ array_enc 2 (u16_array supported_op) True @ array_enc 2 (u16_array supported_event) True @ [])
    @ le32 (word_of_nat (length (supported_dev_props ctx))) @ u16_array (supported_dev_props ctx)
    @ le32 0
    @ le32 (word_of_nat (length playback_formats)) @ u16_array playback_formats
    @ string_enc (usb_string_manufacturer (usb_cfg ctx)) @ string_enc (usb_string_product (usb_cfg ctx))
    @ string_enc (usb_string_version (usb_cfg ctx)) @ string_enc (usb_string_serial (usb_cfg ctx)))"
    unfolding deviceinfo_fields_def
    by (intro encodes_append encodes_u16s encodes_intros)
  then show ?thesis
    by (simp add: deviceinfo_enc_def array_enc_u16)
qed

definition objectinfo_head :: "fs_entry \<Rightarrow> byte list" where
  "objectinfo_head e =
    le32 (e_storage e)
    @ le16 (if has_flag (e_flags e) ENTRY_IS_DIR then MTP_FORMAT_ASSOCIATION else MTP_FORMAT_UNDEFINED) @ le16 0
    @ le32 (if e_size e \<ge> 0x100000000 then 0xFFFFFFFF else word_of_int (e_size e)) @ le16 0
    @ le32 0 @ le32 0 @ le32 0 @ le32 0 @ le32 0 @ le32 0 @ le32 (e_parent e)
    @ le16 (if has_flag (e_flags e) 1 then MTP_ASSOCIATION_TYPE_GENERIC_FOLDER else 0) @ le32 0 @ le32 0"

lemma encodes_objectinfo:
  "encodes (objectinfo_fields e date)
     (objectinfo_head e @ string_enc (e_name e) @ string_enc date @ string_enc date @ [0])"
  unfolding objectinfo_fields_def objectinfo_head_def append_assoc
  by (intro encodes_intros)

lemma length_objectinfo_head [simp]: "length (objectinfo_head e) = 52"
  by (simp add: objectinfo_head_def)

text \<open>A 32-bit field of a dataset is read back at its offset.\<close>

lemma peek_in_enc:
  assumes "length enc \<le> length buf" "take (length as) enc = as" "drop (length as) enc = le32 v @ bs"
  shows "peek (write_at buf 0 enc) (length as) 4 = v"
proof -
  have enc: "enc = as @ le32 v @ bs"
    using assms(2,3) by (metis append_take_drop_id)
  then have "write_at buf 0 enc = write_at buf 0 (as @ le32 v @ bs)" by simp
  moreover have k: "write_at buf 0 (as @ le32 v @ bs) ! (length as + k) = le32 v ! k" if "k < 4" for k
    using that by (simp add: write_at_def nth_append)
  ultimately show ?thesis
    using k[of 0] k[of 1] k[of 2] k[of 3] by (intro peek_le32) simp_all
qed

lemma peek_dataset:
  "length (as @ le32 v @ bs) \<le> length buf \<Longrightarrow> peek (write_at buf 0 (as @ le32 v @ bs)) (length as) 4 = v"
  by (rule peek_in_enc) simp_all

section \<open>Properties\<close>

text \<open>C32. The device description is written whole or refused with -1; written, it lists exactly the
  operations, the events, the supported device properties and the formats of the tables, each list
  behind its count, and the configured strings.\<close>

theorem deviceinfo_dataset:
  assumes "maxsize \<le> int (length buf)"
  shows "if int (length (deviceinfo_enc ctx)) < maxsize
    then build_deviceinfo_dataset ctx buf maxsize
      = (write_at buf 0 (deviceinfo_enc ctx), int (length (deviceinfo_enc ctx)))
    else snd (build_deviceinfo_dataset ctx buf maxsize) = -1"
proof -
  have ne: "deviceinfo_fields ctx \<noteq> []" by (simp add: deviceinfo_fields_def)
  show ?thesis
    using dataset_fits[OF encodes_deviceinfo ne assms] dataset_refuses[OF encodes_deviceinfo ne assms]
    by (simp add: build_deviceinfo_dataset_def)
qed

theorem deviceinfo_dataset_witness:
  "snd (build_deviceinfo_dataset sample_ctx [0, 0, 0] 3) = -1"
  using deviceinfo_dataset[of 3 "[0, 0, 0]" sample_ctx] by (simp add: deviceinfo_enc_def)

text \<open>The description of an object that fits holds the storage at offset 0, the size of the file,
  clamped to 32 bits, at 8 and the parent at 38, and its name and twice its date as strings from 52
  on; nothing behind the dataset changes.\<close>

theorem objectinfo_dataset:
  assumes "maxsize \<le> int (length buf)" "path_of os ctx p = Some path" "os_stat os (world ctx) path = Some st"
    "p < length (pool (the_db ctx))" "build_objectinfo_dataset os ctx buf maxsize p = (ctx', buf', n)" "0 \<le> n"
  shows "let e = entry_at (the_db ctx) p; date = string_enc (timestr (os_localtime os (st_mtime st))) in
    entry_at (the_db ctx') p = e\<lparr>e_size := st_size st\<rparr> \<and>
    peek buf' 0 4 = e_storage e \<and> peek buf' 38 4 = e_parent e \<and>
    peek buf' 8 4 = (if st_size st \<ge> 0x100000000 then 0xFFFFFFFF else word_of_int (st_size st)) \<and>
    drop 52 (take (nat n) buf') = string_enc (e_name e) @ date @ date @ [0] \<and>
    drop (nat n) buf' = drop (nat n) buf"
proof -
  define e where "e = (entry_at (the_db ctx) p)\<lparr>e_size := st_size st\<rparr>"
  define date where "date = timestr (os_localtime os (st_mtime st))"
  let ?enc = "objectinfo_head e @ string_enc (e_name e) @ string_enc date @ string_enc date @ [0]"
  have ent: "entry_at (upd_entry p (e_size_update (\<lambda>_. st_size st)) (the_db ctx)) p = e"
    using assms(4) by (simp add: upd_entry_def e_def)
  have res: "ctx' = set_db (upd_entry p (\<lambda>e. e\<lparr>e_size := st_size st\<rparr>) (the_db ctx)) ctx"
    "poke_seq (objectinfo_fields e date) buf 0 maxsize = (buf', n)"
    using assms(2,3,5) by (simp_all add: build_objectinfo_dataset_def ent date_def Let_def)
  have ne: "objectinfo_fields e date \<noteq> []" by (simp add: objectinfo_fields_def)
  have fits: "int (length ?enc) < maxsize"
    using dataset_refuses[OF encodes_objectinfo ne assms(1)] res(2) assms(6) by fastforce
  then have buf': "buf' = write_at buf 0 ?enc" "n = int (length ?enc)"
    using dataset_fits[OF encodes_objectinfo ne assms(1)] res(2) by simp_all
  have len: "length ?enc \<le> length buf" using fits assms(1) by linarith
  have nn: "nat n = length ?enc" using buf'(2) by simp
  have "peek buf' 0 4 = e_storage e"
    using peek_dataset[of "[]" "e_storage e" _ buf] len
    by (simp add: buf'(1) objectinfo_head_def)
  moreover have "peek buf' 8 4 = (if e_size e \<ge> 0x100000000 then 0xFFFFFFFF else word_of_int (e_size e))"
    using peek_dataset[of "le32 (e_storage e)
      @ le16 (if has_flag (e_flags e) ENTRY_IS_DIR then MTP_FORMAT_ASSOCIATION else MTP_FORMAT_UNDEFINED) @ le16 0"
      "if e_size e \<ge> 0x100000000 then 0xFFFFFFFF else word_of_int (e_size e)" _ buf] len
    by (simp add: buf'(1) objectinfo_head_def)
  moreover have "peek buf' 38 4 = e_parent e"
    using peek_dataset[of "le32 (e_storage e)
      @ le16 (if has_flag (e_flags e) ENTRY_IS_DIR then MTP_FORMAT_ASSOCIATION else MTP_FORMAT_UNDEFINED) @ le16 0
      @ le32 (if e_size e \<ge> 0x100000000 then 0xFFFFFFFF else word_of_int (e_size e)) @ le16 0
      @ le32 0 @ le32 0 @ le32 0 @ le32 0 @ le32 0 @ le32 0" "e_parent e" _ buf] len
    by (simp add: buf'(1) objectinfo_head_def)
  moreover have "take (nat n) buf' = ?enc" "drop (nat n) buf' = drop (nat n) buf"
    using len unfolding nn buf'(1) by (simp_all add: write_at_def)
  moreover have "e_storage e = e_storage (entry_at (the_db ctx) p)" "e_parent e = e_parent (entry_at (the_db ctx) p)"
    "e_name e = e_name (entry_at (the_db ctx) p)" "e_size e = st_size st"
    by (simp_all add: e_def)
  moreover have "entry_at (the_db ctx') p = e" using res(1) ent by simp
  ultimately show ?thesis
    by (simp add: Let_def e_def date_def)
qed

theorem objectinfo_dataset_witness:
  "let os = plain_os\<lparr>os_stat := (\<lambda>w path. Some \<lparr>st_isdir = False, st_size = 0x100000001, st_mtime = 0\<rparr>)\<rparr>;
       (ctx', buf', n) = build_objectinfo_dataset os sample_ctx (replicate 2000 0) 2000 (Suc 0)
   in peek buf' 0 4 = 0xFFFF0001 \<and> peek buf' 8 4 = 0xFFFFFFFF"
proof -
  let ?st = "\<lparr>st_isdir = False, st_size = 0x100000001, st_mtime = 0\<rparr>"
  let ?os = "plain_os\<lparr>os_stat := (\<lambda>w path. Some ?st)\<rparr>"
  obtain ctx' buf' n where r: "build_objectinfo_dataset ?os sample_ctx (replicate 2000 0) 2000 (Suc 0) = (ctx', buf', n)"
    by (cases "build_objectinfo_dataset ?os sample_ctx (replicate 2000 0) 2000 (Suc 0)") auto
  have path: "path_of ?os sample_ctx (Suc 0) = Some [0x2F, 0x72, 0x2F, 0x61]"
    by (simp add: sample_path sample_pool)
  have fit: "0 \<le> snd (poke_seq (objectinfo_fields e d) (replicate 2000 0) 0 2000)" for e d
  proof -
    have "int (length (objectinfo_head e @ string_enc (e_name e) @ string_enc d @ string_enc d @ [0])) < 2000"
      using length_string_enc_le[of "e_name e"] length_string_enc_le[of d] by simp
    then show ?thesis
      using dataset_fits[OF encodes_objectinfo[of e d], of 2000 "replicate 2000 0"]
      by (simp only: length_replicate) (simp add: objectinfo_fields_def)
  qed
  have n: "n = snd (snd (build_objectinfo_dataset ?os sample_ctx (replicate 2000 0) 2000 (Suc 0)))" by (simp add: r)
  have "0 \<le> n"
    unfolding n using fit path by (simp add: build_objectinfo_dataset_def Let_def)
  then show ?thesis
    using objectinfo_dataset[of 2000 "replicate 2000 0" ?os sample_ctx "Suc 0", OF _ path _ _ r] r
    by (simp add: sample_pool Let_def)
qed

lemma event_dataset_bytes:
  assumes "maxsize \<le> int (length buf)" "int (12 + 4 * length params) < maxsize" "length params \<le> 5"
  shows "build_event_dataset ctx buf maxsize event params
    = (write_at buf 0 (header_bytes (word_of_nat (12 + 4 * length params)) MTP_CONTAINER_TYPE_EVENT event (session_id ctx)
         @ concat (map le32 params)), int (12 + 4 * length params))"
proof -
  let ?bs = "le16 4 @ le16 event @ le32 (session_id ctx) @ concat (map le32 params)"
  let ?ws = "[w32 0, w16 4, w16 event, w32 (session_id ctx)] @ map w32 params"
  have len: "length (concat (map le32 params)) = 4 * length params" by (induction params) simp_all
  have "encodes (map w32 params) (concat (map le32 params))"
    by (intro encodes_map w32.field_writer_axioms)
  then have "encodes ?ws (le32 0 @ ?bs)"
    unfolding append_Cons append_Nil by (intro encodes_intros)
  then have "poke_seq ?ws buf 0 maxsize = (write_at buf 0 (le32 0 @ ?bs), int (12 + 4 * length params))"
    using dataset_fits[of ?ws "le32 0 @ ?bs" maxsize buf] assms(1,2) len by simp
  moreover have "fst (poke32 (write_at buf 0 (le32 0 @ ?bs)) 0 maxsize v) = write_at buf 0 (le32 v @ ?bs)" for v
    using assms(1,2) len by (intro poke32_over_head) simp_all
  ultimately show ?thesis
    by (simp only: build_event_dataset_def prod.case header_bytes_def) (simp add: header_bytes_def)
qed

text \<open>An event that fits is a container of its own length, of type event, with the event code, the
  session identifier in the place of the transaction, and the parameters.\<close>

theorem event_dataset:
  assumes "maxsize \<le> int (length buf)" "int (12 + 4 * length params) < maxsize" "length params \<le> 5"
  shows "build_event_dataset ctx buf maxsize event params
    = (write_at buf 0 (header_bytes (word_of_nat (12 + 4 * length params)) MTP_CONTAINER_TYPE_EVENT event (session_id ctx)
         @ concat (map le32 params)), int (12 + 4 * length params))"
  using assms by (rule event_dataset_bytes)

theorem event_dataset_witness:
  "build_event_dataset sample_ctx (replicate 20 0) 20 0x4002 [7]
    = ([16, 0, 0, 0, 4, 0, 2, 0x40, 1, 0, 0, 0, 7, 0, 0, 0] @ replicate 4 0, 16)"
proof -
  have "session_id sample_ctx = 1" by (simp add: sample_ctx_def)
  then show ?thesis
    using event_dataset[of 20 "replicate 20 0" "[7]" sample_ctx "0x4002"]
    by (simp add: header_bytes_def le32_def le16_def write_at_def)
qed

end
