(* ===== verification/FileTransfer.thy ===== *)
theory FileTransfer
  imports Datasets
begin

text \<open>
  File contents over USB: \<open>send_file_data\<close> of \<open>src/mtp_operations/mtp_ops_helpers.c\<close>, which streams
  a file through a page buffer into USB packets, and the receiving half of
  \<open>src/mtp_operations/mtp_op_sendobject.c\<close>. A result \<open>None\<close> is a call that does not return: an
  access outside a buffer, or a transfer the host never ends.
\<close>

section \<open>Sending\<close>

text \<open>One page of the file into \<open>read_file_buffer\<close>, behind it what the buffer held before.\<close>

definition page_buffer :: "'w mtp_ctx \<Rightarrow> buffer" where
  "page_buffer ctx = (case read_file_buffer ctx of Some b \<Rightarrow> b | None \<Rightarrow> [])"

definition load_page :: "'w os \<Rightarrow> 'w mtp_ctx \<Rightarrow> ptr \<Rightarrow> int \<Rightarrow> 'w mtp_ctx \<times> bool" where
  "load_page os ctx p index =
    (case entry_read os ctx p index (read_file_buffer_size ctx) of
       (ctx1, None) \<Rightarrow> (ctx1, False)
     | (ctx1, Some data) \<Rightarrow> (ctx1\<lparr>read_file_buffer := Some (data @ drop (length data) (page_buffer ctx1))\<rparr>, True))"

definition send_packet :: "'w os \<Rightarrow> 'w mtp_ctx \<Rightarrow> byte list \<Rightarrow> 'w mtp_ctx" where
  "send_packet os ctx data =
    (if cancel_req ctx = 0 then fst (write_usb os ctx EP_DESCRIPTOR_IN data) else ctx)"

text \<open>
  One round of the loop: the block goes out behind the \<open>ofs\<close> bytes of header already in \<open>wrbuffer\<close>.
  \<open>Inl\<close> is the return after a failed read, \<open>Inr\<close> the new \<open>j\<close> and \<open>buf_index\<close>; \<open>None\<close> is the copy
  of a block of negative length, or of more than the second page when the write buffer is longer than two pages.
\<close>

definition send_block ::
  "'w os \<Rightarrow> 'w mtp_ctx \<Rightarrow> ptr \<Rightarrow> int \<Rightarrow> int \<Rightarrow> int \<Rightarrow> int \<Rightarrow> int \<Rightarrow> ('w mtp_ctx \<times> (unit + int \<times> int)) option" where
  "send_block os ctx p offset actualsize j ofs buf_index =
    (let wrmax = usb_wr_buffer_max_size ctx;
         rfsize = read_file_buffer_size ctx;
         blocksize = (if j + (wrmax - ofs) < actualsize then wrmax - ofs else actualsize - j);
         page = (offset + j) AND NOT (rfsize - 1);
         (ctx1, loaded) = (if buf_index \<noteq> page then load_page os ctx p page else (ctx, True))
     in if \<not> loaded then Some (entry_close os ctx1 (Some p), Inl ())
        else (let io_buffer_index = (offset + j) AND (rfsize - 1) in
          if blocksize < 0 then None
          else if io_buffer_index + blocksize < rfsize then
            (let part = take (nat blocksize) (drop (nat io_buffer_index) (page_buffer ctx1)) in
             if ofs = 0 then Some (send_packet os ctx1 part, Inr (j + blocksize, page))
             else (let ctx2 = ctx1\<lparr>wrbuffer := write_at (wrbuffer ctx1) (nat ofs) part\<rparr> in
                   Some (send_packet os ctx2 (take (nat (ofs + blocksize)) (wrbuffer ctx2)), Inr (j + blocksize, page))))
          else
            (let first_part_size = blocksize - ((io_buffer_index + blocksize) - rfsize);
                 ctx2 = ctx1\<lparr>wrbuffer := write_at (wrbuffer ctx1) (nat ofs)
                   (take (nat first_part_size) (drop (nat io_buffer_index) (page_buffer ctx1)))\<rparr>;
                 (ctx3, loaded2) = load_page os ctx2 p (page + rfsize)
             in if \<not> loaded2 then Some (entry_close os ctx3 (Some p), Inl ())
                else if blocksize - first_part_size > rfsize then None
                else (let ctx4 = ctx3\<lparr>wrbuffer := write_at (wrbuffer ctx3) (nat (ofs + first_part_size))
                        (take (nat (blocksize - first_part_size)) (page_buffer ctx3))\<rparr> in
                      Some (send_packet os ctx4 (take (nat (ofs + blocksize)) (wrbuffer ctx4)),
                            Inr (j + blocksize, page + rfsize))))))"

text \<open>
  The do-while loop; the second component is \<open>False\<close> after a failed read. Every round but the first
  sends at least a byte, so \<open>actualsize + 1\<close> rounds are enough (\<open>send_file_data_payload\<close>).
\<close>

fun send_loop ::
  "'w os \<Rightarrow> nat \<Rightarrow> 'w mtp_ctx \<Rightarrow> ptr \<Rightarrow> int \<Rightarrow> int \<Rightarrow> int \<Rightarrow> int \<Rightarrow> int \<Rightarrow> ('w mtp_ctx \<times> bool) option" where
  "send_loop os 0 ctx p offset actualsize j ofs buf_index = None"
| "send_loop os (Suc n) ctx p offset actualsize j ofs buf_index =
     (case send_block os ctx p offset actualsize j ofs buf_index of
        None \<Rightarrow> None
      | Some (ctx1, Inl _) \<Rightarrow> Some (ctx1, False)
      | Some (ctx1, Inr (j1, buf_index1)) \<Rightarrow>
          (if j1 < actualsize \<and> cancel_req ctx1 = 0
           then send_loop os n ctx1 p offset actualsize j1 0 buf_index1 else Some (ctx1, True)))"

definition actual_size :: "int \<Rightarrow> int \<Rightarrow> int \<Rightarrow> int" where
  "actual_size sz offset maxsize =
    (if offset \<ge> sz then 0 else if offset + maxsize > sz then sz - offset else maxsize)"

text \<open>\<open>sizeof(..) + actualsize\<close> is a 64-bit unsigned sum.\<close>

definition container_length :: "int \<Rightarrow> u32" where
  "container_length actualsize =
    (if (12 + word_of_int actualsize :: u64) \<ge> 0x100000000 then 0xFFFFFFFF else 12 + word_of_int actualsize)"

text \<open>The page buffer allocated on first use, and the length of the container in the header.\<close>

definition send_header :: "'w mtp_ctx \<Rightarrow> int \<Rightarrow> 'w mtp_ctx" where
  "send_header ctx actualsize =
    (let ctx0 = (if read_file_buffer ctx = None
                 then ctx\<lparr>read_file_buffer := Some (replicate (nat (read_file_buffer_size ctx)) 0)\<rparr> else ctx)
     in ctx0\<lparr>wrbuffer := fst (poke32 (wrbuffer ctx0) 0 (usb_wr_buffer_max_size ctx0) (container_length actualsize))\<rparr>)"

text \<open>The end of a transfer: cancelled, which the code answers with -2, or complete.\<close>

definition send_end :: "'w os \<Rightarrow> 'w mtp_ctx \<Rightarrow> ptr \<Rightarrow> int \<Rightarrow> 'w mtp_ctx \<times> int" where
  "send_end os ctx p actualsize =
    (let ctx1 = entry_close os (ctx\<lparr>transferring_file_data := False\<rparr>) (Some p) in
     if cancel_req ctx1 \<noteq> 0 then (ctx1\<lparr>cancel_req := 0\<rparr>, -2)
     else (fst (check_and_send_USB_ZLP os ctx1 (12 + actualsize)), actualsize))"

definition send_file_data :: "'w os \<Rightarrow> 'w mtp_ctx \<Rightarrow> ptr \<Rightarrow> int \<Rightarrow> int \<Rightarrow> ('w mtp_ctx \<times> int) option" where
  "send_file_data os ctx p offset maxsize =
    (let actualsize = actual_size (e_size (entry_at (the_db ctx) p)) offset maxsize;
         (ctx1, file) = entry_open os (send_header ctx actualsize) p [O_RDONLY, O_LARGEFILE]
     in if file = -1 then Some (ctx1, -1)
        else (case send_loop os (nat actualsize + 1) (ctx1\<lparr>transferring_file_data := True\<rparr>) p offset actualsize 0 12 (-1) of
            None \<Rightarrow> None
          | Some (ctx2, False) \<Rightarrow> Some (ctx2, -1)
          | Some (ctx2, True) \<Rightarrow> Some (send_end os ctx2 p actualsize)))"

section \<open>Receiving\<close>

definition write_data :: "'w os \<Rightarrow> 'w mtp_ctx \<Rightarrow> int \<Rightarrow> byte list \<Rightarrow> 'w mtp_ctx" where
  "write_data os ctx file data =
    ctx\<lparr>world := fst (os_write os (world ctx) file data),
        SendObjInfoSize := SendObjInfoSize ctx - int (length data)\<rparr>"

text \<open>The bytes received replace the front of \<open>rdbuffer2\<close>.\<close>

definition read_block :: "'w os \<Rightarrow> 'w mtp_ctx \<Rightarrow> 'w mtp_ctx \<times> byte list option" where
  "read_block os ctx =
    (case read_usb os ctx (usb_rd_buffer_max_size ctx) of
       (ctx1, None) \<Rightarrow> (ctx1, None)
     | (ctx1, Some data) \<Rightarrow> (ctx1\<lparr>rdbuffer2 := data @ drop (length data) (rdbuffer2 ctx1)\<rparr>, Some data))"

text \<open>The loop over full packets: it goes on as long as the host sends them.\<close>

partial_function (option) receive_loop :: "'w os \<Rightarrow> 'w mtp_ctx \<Rightarrow> int \<Rightarrow> int \<Rightarrow> 'w mtp_ctx option" where
  "receive_loop os ctx file sz =
    (if sz = usb_rd_buffer_max_size ctx \<and> cancel_req ctx = 0 \<and> sz \<ge> 0
     then (case read_block os ctx of
             (ctx1, None) \<Rightarrow> receive_loop os ctx1 file (-1)
           | (ctx1, Some data) \<Rightarrow> receive_loop os (write_data os ctx1 file data) file (int (length data)))
     else Some ctx)"

definition receive_first :: "'w os \<Rightarrow> 'w mtp_ctx \<Rightarrow> int \<Rightarrow> buffer \<Rightarrow> int \<Rightarrow> bool \<Rightarrow> 'w mtp_ctx \<times> int" where
  "receive_first os ctx file packet sz partial =
    (let ctx1 = (if sz > 0 then write_data os ctx file (take (nat sz) (drop 12 packet)) else ctx);
         sz1 = (if sz = usb_rd_buffer_max_size ctx1 - 12 then usb_rd_buffer_max_size ctx1 else sz);
         sz2 = (if partial \<and> SendObjInfoSize ctx1 \<noteq> 0 then usb_rd_buffer_max_size ctx1 else sz1)
     in (ctx1, sz2))"

text \<open>The data phase once the file is open; the result is the response code.\<close>

definition receive_object :: "'w os \<Rightarrow> 'w mtp_ctx \<Rightarrow> ptr \<Rightarrow> int \<Rightarrow> buffer \<Rightarrow> int \<Rightarrow> bool \<Rightarrow> ('w mtp_ctx \<times> u16) option" where
  "receive_object os ctx p file packet rawsize partial =
    (let ctx1 = ctx\<lparr>transferring_file_data := True,
                    world := fst (os_lseek os (world ctx) file (SendObjInfoOffset ctx) SEEK_SET)\<rparr>;
         (ctx2, sz) = receive_first os ctx1 file packet (rawsize - 12) partial
     in (case receive_loop os ctx2 file sz of
           None \<Rightarrow> None
         | Some ctx3 \<Rightarrow>
            (let (w, end_pos) = os_lseek os (world ctx3) file 0 SEEK_END;
                 ctx4 = set_db (upd_entry p (\<lambda>e. e\<lparr>e_size := end_pos\<rparr>) (the_db ctx3))
                          (ctx3\<lparr>world := w, transferring_file_data := False\<rparr>);
                 ctx5 = (if \<not> partial then entry_close os ctx4 (Some p) else ctx4)
             in if cancel_req ctx5 \<noteq> 0 then Some (ctx5\<lparr>cancel_req := 0\<rparr>, MTP_RESPONSE_NO_RESPONSE)
                else Some (ctx5, MTP_RESPONSE_OK))))"

lemma fs_step_open: "fs_step ctx (fst (entry_open os ctx p fl))"
proof -
  have "fs_step ctx c1" if "set_storage_giduid os ctx sid = (c1, r)" for c1 r sid
    using fs_step_giduid(2)[OF fs_step_refl, of ctx os sid] that by simp
  then show ?thesis by (auto simp: entry_open_def Let_def split: option.splits prod.splits)
qed

lemma entry_open_fd:
  assumes "entry_open os ctx p fl = (c, fd)"
  shows "e_fd (entry_at (the_db c) p) = fd"
  using assms by (auto simp: entry_open_def Let_def split: if_splits option.splits prod.splits)

section \<open>A file read through a descriptor\<close>

text \<open>
  What the sending side relies on, in the worlds of a set \<open>I\<close> that reading and sending do not leave: seeking to
  an offset and reading gives the bytes there, as many as there are; nobody cancels.
\<close>

definition file_content :: "'w os \<Rightarrow> ('w \<Rightarrow> bool) \<Rightarrow> int \<Rightarrow> byte list \<Rightarrow> bool" where
  "file_content os I fd content \<longleftrightarrow>
    (\<forall>w ofs n. I w \<longrightarrow> 0 \<le> ofs \<longrightarrow>
       snd (os_read os (fst (os_lseek os w fd ofs SEEK_SET)) fd n) = Some (take (nat n) (drop (nat ofs) content)) \<and>
       I (fst (os_read os (fst (os_lseek os w fd ofs SEEK_SET)) fd n))) \<and>
    (\<forall>w ep bs. I w \<longrightarrow> I (fst (os_ep_write os w ep bs)))"

definition sending :: "'w os \<Rightarrow> ('w \<Rightarrow> bool) \<Rightarrow> 'w mtp_ctx \<Rightarrow> ptr \<Rightarrow> byte list \<Rightarrow> nat \<Rightarrow> bool" where
  "sending os I ctx p content k \<longleftrightarrow>
     (\<forall>w. \<not> os_cancel os w) \<and> cancel_req ctx = 0 \<and> ep_handles (usb_ctx ctx) ! 0 \<ge> 0 \<and> \<not> stop (usb_ctx ctx) \<and>
     e_fd (entry_at (the_db ctx) p) \<noteq> -1 \<and> file_content os I (e_fd (entry_at (the_db ctx) p)) content \<and> I (world ctx) \<and>
     read_file_buffer_size ctx = 2 ^ k \<and> 12 < usb_wr_buffer_max_size ctx \<and> usb_wr_buffer_max_size ctx \<le> 2 ^ k \<and>
     usb_wr_buffer_max_size ctx \<le> int (length (wrbuffer ctx)) \<and> length (page_buffer ctx) = 2 ^ k"

definition page_loaded :: "'w mtp_ctx \<Rightarrow> byte list \<Rightarrow> nat \<Rightarrow> int \<Rightarrow> bool" where
  "page_loaded ctx content k index \<longleftrightarrow> 0 \<le> index \<and>
     (\<exists>rest. page_buffer ctx = take (2 ^ k) (drop (nat index) content) @ rest)"

lemma and_not_mask: "(x::int) AND NOT (2 ^ k - 1) = x - x mod 2 ^ k"
proof -
  have "x AND NOT (2 ^ k - 1) = x AND NOT (mask k)" by (simp add: mask_eq_exp_minus_1)
  also have "\<dots> = push_bit k (drop_bit k x)"
    by (rule bit_eqI) (auto simp: bit_simps)
  also have "\<dots> = x div 2 ^ k * 2 ^ k" by (simp add: push_bit_eq_mult drop_bit_eq_div)
  also have "\<dots> = x - x mod 2 ^ k" by (simp add: minus_mod_eq_div_mult)
  finally show ?thesis .
qed

lemma and_mask_mod: "(x::int) AND (2 ^ k - 1) = x mod 2 ^ k"
  by (simp add: mask_eq_exp_minus_1[symmetric] take_bit_eq_mask[symmetric] take_bit_eq_mod)

text \<open>What a round leaves alone, beside the link.\<close>

definition same_link :: "'w mtp_ctx \<Rightarrow> 'w mtp_ctx \<Rightarrow> bool" where
  "same_link ctx ctx' \<longleftrightarrow> usb_wr_buffer_max_size ctx' = usb_wr_buffer_max_size ctx \<and> max_packet_size ctx' = max_packet_size ctx"

lemma same_link_refl [simp]: "same_link ctx ctx"
  by (simp add: same_link_def)

lemma same_link_upd [simp]: "same_link ctx (c\<lparr>wrbuffer := b\<rparr>) = same_link ctx c" "same_link (c\<lparr>wrbuffer := b\<rparr>) ctx = same_link c ctx"
  by (simp_all add: same_link_def)

lemma same_link_trans [trans]: "same_link a b \<Longrightarrow> same_link b c \<Longrightarrow> same_link a c"
  by (simp add: same_link_def)

lemma load_page_ok:
  assumes "sending os I ctx p content k" "0 \<le> index"
  shows "\<exists>ctx'. load_page os ctx p index = (ctx', True) \<and> sending os I ctx' p content k \<and>
    page_loaded ctx' content k index \<and> wrbuffer ctx' = wrbuffer ctx \<and> usb_out ctx' = usb_out ctx \<and> same_link ctx ctx'"
proof -
  let ?fd = "e_fd (entry_at (the_db ctx) p)"
  let ?d = "take (2 ^ k) (drop (nat index) content)"
  define w where "w = fst (os_read os (fst (os_lseek os (world ctx) ?fd index SEEK_SET)) ?fd (2 ^ k))"
  have I: "I (world ctx)" "file_content os I ?fd content" using assms(1) by (simp_all add: sending_def)
  have Iw: "I w" using I assms(2) unfolding w_def file_content_def by blast
  have "nat (2 ^ k) = 2 ^ k" by (simp add: nat_power_eq)
  then have "snd (os_read os (fst (os_lseek os (world ctx) ?fd index SEEK_SET)) ?fd (2 ^ k)) = Some ?d"
    using I assms(2) unfolding file_content_def by metis
  then have rd: "os_read os (fst (os_lseek os (world ctx) ?fd index SEEK_SET)) ?fd (2 ^ k) = (w, Some ?d)"
    by (simp add: w_def prod_eq_iff)
  have "entry_read os ctx p index (2 ^ k) = (ctx\<lparr>world := w\<rparr>, Some ?d)"
    using assms(1) rd by (simp add: entry_read_def sending_def Let_def)
  then have lp: "load_page os ctx p index
      = (ctx\<lparr>world := w, read_file_buffer := Some (?d @ drop (length ?d) (page_buffer ctx))\<rparr>, True)"
    using assms(1) by (simp add: load_page_def sending_def page_buffer_def)
  have len: "length (page_buffer ctx) = 2 ^ k" using assms(1) by (simp add: sending_def)
  then have "length (?d @ drop (length ?d) (page_buffer ctx)) = 2 ^ k" by simp
  then show ?thesis
    unfolding lp using assms Iw
    by (auto simp: sending_def page_loaded_def page_buffer_def the_db_def same_link_def split: option.splits)
qed

lemma page_part:
  assumes "page_loaded ctx content k index" "io + bs \<le> 2 ^ k" "nat index + io + bs \<le> length content"
  shows "take bs (drop io (page_buffer ctx)) = take bs (drop (nat index + io) content)"
proof -
  obtain rest where "page_buffer ctx = take (2 ^ k) (drop (nat index) content) @ rest"
    using assms(1) by (auto simp: page_loaded_def)
  moreover have "io + bs \<le> length (take (2 ^ k) (drop (nat index) content))" using assms(2,3) by simp
  ultimately show ?thesis
    using assms(2) by (simp add: take_drop min_def add.commute)
qed

lemma file_content_ep_write:
  "file_content os I fd content \<Longrightarrow> I w \<Longrightarrow> os_ep_write os w ep bs = (w', ret) \<Longrightarrow> I w'"
  unfolding file_content_def by (metis fst_conv)

lemma send_packet_ok:
  assumes "sending os I ctx p content k"
  shows "sending os I (send_packet os ctx data) p content k \<and> usb_out (send_packet os ctx data) = usb_out ctx @ [(0, data)] \<and>
    page_buffer (send_packet os ctx data) = page_buffer ctx \<and> same_link ctx (send_packet os ctx data)"
  using assms
  by (auto simp: send_packet_def write_usb_def is_usb_up_def after_transfer_def sending_def the_db_def page_buffer_def same_link_def
      split: prod.split dest: file_content_ep_write)

text \<open>The bytes of one round: what of the header is still to go, then the block.\<close>

definition block_bytes :: "'w mtp_ctx \<Rightarrow> byte list \<Rightarrow> int \<Rightarrow> int \<Rightarrow> int \<Rightarrow> int \<Rightarrow> byte list" where
  "block_bytes ctx content offset j ofs bs =
    take (nat ofs) (wrbuffer ctx) @ take (nat bs) (drop (nat (offset + j)) content)"

lemma take_write_at_two:
  assumes "i + length as + length bs \<le> length buf"
  shows "take (i + length as + length bs) (write_at (write_at buf i as) (i + length as) bs) = take i buf @ as @ bs"
proof -
  have "write_at (write_at buf i as) (i + length as) bs = write_at buf i (as @ bs)"
    using assms by (rule write_at_append)
  then show ?thesis
    using take_write_at_end[of i "as @ bs" buf] assms by (simp add: add.assoc)
qed

lemma wrbuffer_upd: "wrbuffer (ctx\<lparr>wrbuffer := b\<rparr>) = b"
  by simp

lemma wrbuffer_frame [simp]:
  "page_buffer (ctx\<lparr>wrbuffer := b\<rparr>) = page_buffer ctx" "the_db (ctx\<lparr>wrbuffer := b\<rparr>) = the_db ctx"
  by (simp_all add: page_buffer_def the_db_def)

lemma sending_wrbuffer:
  "sending os I ctx p content k \<Longrightarrow> length b = length (wrbuffer ctx) \<Longrightarrow> sending os I (ctx\<lparr>wrbuffer := b\<rparr>) p content k"
  by (simp add: sending_def)

lemma send_block_ok:
  assumes snd: "sending os I ctx p content k" and j: "0 \<le> j" "j \<le> actualsize" "0 \<le> offset"
    "offset + actualsize \<le> int (length content)" and ofs: "0 \<le> ofs" "ofs < usb_wr_buffer_max_size ctx"
    and page: "buf_index = -1 \<or> page_loaded ctx content k buf_index"
    and bs: "bs = min (usb_wr_buffer_max_size ctx - ofs) (actualsize - j)"
  shows "\<exists>ctx' b'. send_block os ctx p offset actualsize j ofs buf_index = Some (ctx', Inr (j + bs, b')) \<and>
    sending os I ctx' p content k \<and> page_loaded ctx' content k b' \<and>
    same_link ctx ctx' \<and> usb_out ctx' = usb_out ctx @ [(0, block_bytes ctx content offset j ofs bs)]"
proof -
  let ?S = "2 ^ k :: int"
  define pg where "pg = (offset + j) AND NOT (?S - 1)"
  define io where "io = (offset + j) AND (?S - 1)"
  have pg_io: "offset + j = pg + io" "0 \<le> io" "io < ?S" "0 \<le> pg"
    using j by (simp_all add: pg_def io_def and_not_mask and_mask_mod)
       (metis add_nonneg_nonneg mod_le_divisor zero_less_numeral zero_less_power zmod_le_nonneg_dividend diff_ge_0_iff_ge)
  have rf: "read_file_buffer_size ctx = ?S" using snd by (simp add: sending_def)
  have bs0: "0 \<le> bs" "bs \<le> usb_wr_buffer_max_size ctx - ofs" "bs \<le> actualsize - j" using bs j ofs by auto
  have wr: "usb_wr_buffer_max_size ctx \<le> ?S" "usb_wr_buffer_max_size ctx \<le> int (length (wrbuffer ctx))"
    using snd by (simp_all add: sending_def)
  obtain ctx1 where c1: "(if buf_index \<noteq> pg then load_page os ctx p pg else (ctx, True)) = (ctx1, True)"
    "sending os I ctx1 p content k" "page_loaded ctx1 content k pg" "wrbuffer ctx1 = wrbuffer ctx"
    "usb_out ctx1 = usb_out ctx" "same_link ctx ctx1"
  proof (cases "buf_index = pg")
    case True
    then have "page_loaded ctx content k pg" using page pg_io(4) by auto
    then show ?thesis using that[of ctx] True snd by simp
  next
    case False
    then show ?thesis using load_page_ok[OF snd pg_io(4)] that by auto
  qed
  have blk: "(if j + (usb_wr_buffer_max_size ctx - ofs) < actualsize then usb_wr_buffer_max_size ctx - ofs else actualsize - j) = bs"
    using bs by auto
  have fit: "nat pg + nat io + nat bs \<le> length content" using pg_io bs0 j by linarith
  have pos: "nat (offset + j) = nat pg + nat io" using pg_io by simp
  show ?thesis
  proof (cases "io + bs < ?S")
    case True
    have part: "take (nat bs) (drop (nat io) (page_buffer ctx1)) = take (nat bs) (drop (nat (offset + j)) content)"
      unfolding pos using True pg_io fit bs0
      by (intro page_part[OF c1(3)]) (auto simp: nat_less_iff zless_nat_eq_int_zless[symmetric] nat_add_distrib[symmetric] intro!: nat_le_iff[THEN iffD2])
    let ?part = "take (nat bs) (drop (nat (offset + j)) content)"
    have lp: "length ?part = nat bs" by (rule length_take_drop) (use fit pos in linarith)
    show ?thesis
    proof (cases "ofs = 0")
      case zero: True
      have "send_block os ctx p offset actualsize j ofs buf_index = Some (send_packet os ctx1 ?part, Inr (j + bs, pg))"
        unfolding send_block_def Let_def rf blk pg_def[symmetric] io_def[symmetric] c1(1) prod.case
        using True bs0 part zero by simp
      moreover have "block_bytes ctx content offset j ofs bs = ?part" using zero by (simp add: block_bytes_def)
      ultimately show ?thesis
        using send_packet_ok[OF c1(2), of ?part] c1(3,5,6) by (auto simp: page_loaded_def intro: same_link_trans)
    next
      case False
      let ?ctx2 = "ctx1\<lparr>wrbuffer := write_at (wrbuffer ctx1) (nat ofs) ?part\<rparr>"
      have room: "nat ofs + nat bs \<le> length (wrbuffer ctx1)" using wr bs0 ofs unfolding c1(4) by linarith
      have s2: "sending os I ?ctx2 p content k"
        using c1(2) by (rule sending_wrbuffer) (use room lp in simp)
      have "nat (ofs + bs) = nat ofs + length ?part" using ofs bs0 lp by linarith
      then have out: "take (nat (ofs + bs)) (wrbuffer ?ctx2) = block_bytes ctx content offset j ofs bs"
        using take_write_at_end[of "nat ofs" ?part "wrbuffer ctx1"] room lp c1(4) by (simp add: block_bytes_def)
      have "send_block os ctx p offset actualsize j ofs buf_index
          = Some (send_packet os ?ctx2 (block_bytes ctx content offset j ofs bs), Inr (j + bs, pg))"
        unfolding send_block_def Let_def rf blk pg_def[symmetric] io_def[symmetric] c1(1) prod.case part out
        using True bs0 False by simp
      then show ?thesis
        using send_packet_ok[OF s2, of "block_bytes ctx content offset j ofs bs"] c1(3,5,6) by (auto simp: page_loaded_def intro: same_link_trans)
    qed
  next
    case False
    define first where "first = bs - ((io + bs) - ?S)"
    have first: "first = ?S - io" "0 \<le> first" "first \<le> bs" using False pg_io by (auto simp: first_def)
    have short: "bs - first \<le> ?S" using first(2) bs0(2) wr(1) ofs(1) by linarith
    let ?a = "take (nat first) (drop (nat (offset + j)) content)"
    have a: "take (nat first) (drop (nat io) (page_buffer ctx1)) = ?a"
      unfolding pos using first pg_io fit bs0
      by (intro page_part[OF c1(3)]) (auto simp: nat_add_distrib[symmetric] intro!: nat_le_iff[THEN iffD2])
    have la: "length ?a = nat first" by (rule length_take_drop) (use fit pos first in linarith)
    let ?ctx2 = "ctx1\<lparr>wrbuffer := write_at (wrbuffer ctx1) (nat ofs) ?a\<rparr>"
    have room: "nat ofs + nat bs \<le> length (wrbuffer ctx1)" using wr bs0 ofs unfolding c1(4) by linarith
    have s2: "sending os I ?ctx2 p content k"
      using c1(2) room la first by (intro sending_wrbuffer) simp_all
    obtain ctx3 where c3: "load_page os ?ctx2 p (pg + ?S) = (ctx3, True)" "sending os I ctx3 p content k"
      "page_loaded ctx3 content k (pg + ?S)" "wrbuffer ctx3 = wrbuffer ?ctx2" "usb_out ctx3 = usb_out ?ctx2"
      "same_link ?ctx2 ctx3"
      using load_page_ok[OF s2, of "pg + ?S"] pg_io by auto
    let ?b = "take (nat (bs - first)) (drop (nat (pg + ?S)) content)"
    have b: "take (nat (bs - first)) (page_buffer ctx3) = ?b"
      using page_part[OF c3(3), of 0 "nat (bs - first)"] first pg_io fit bs0 wr ofs
      by (simp add: nat_add_distrib nat_le_iff)
    have nx: "nat (pg + ?S) = nat (offset + j) + nat first" using first pg_io by simp
    have ab: "?a @ ?b = take (nat bs) (drop (nat (offset + j)) content)"
    proof -
      have "nat bs = nat first + nat (bs - first)" using first by simp
      then show ?thesis by (simp add: nx take_add add.commute)
    qed
    have lb: "length ?b = nat (bs - first)" by (rule length_take_drop) (use fit pos first nx in linarith)
    let ?ctx4 = "ctx3\<lparr>wrbuffer := write_at (wrbuffer ctx3) (nat (ofs + first)) ?b\<rparr>"
    have l3: "length (wrbuffer ctx3) = length (wrbuffer ctx1)" using c3(4) room la first by simp
    have s4: "sending os I ?ctx4 p content k"
      using c3(2) room lb l3 first ofs by (intro sending_wrbuffer) simp_all
    have idx: "nat (ofs + first) = nat ofs + length ?a" "nat (ofs + bs) = nat ofs + length ?a + length ?b"
      unfolding la lb using ofs bs0(1) first(2,3) by (simp_all add: nat_add_distrib[symmetric])
    have "nat ofs + length ?a + length ?b \<le> length (wrbuffer ctx1)"
      unfolding la lb using room first(2,3) by linarith
    from take_write_at_two[OF this]
    have out: "take (nat (ofs + bs)) (wrbuffer ?ctx4) = block_bytes ctx content offset j ofs bs"
      unfolding idx block_bytes_def ab[symmetric] c1(4)[symmetric]
      by (simp only: c3(4) wrbuffer_upd)
    have "send_block os ctx p offset actualsize j ofs buf_index
        = Some (send_packet os ?ctx4 (block_bytes ctx content offset j ofs bs), Inr (j + bs, pg + ?S))"
      unfolding send_block_def Let_def rf blk pg_def[symmetric] io_def[symmetric] c1(1) prod.case
        first_def[symmetric] a c3(1) b out
      using False bs0 short by simp
    then show ?thesis
      using send_packet_ok[OF s4, of "block_bytes ctx content offset j ofs bs"] c1(5,6) c3(3,5,6)
      by (auto simp: page_loaded_def intro: same_link_trans)
  qed
qed

lemma send_loop_ok:
  assumes "sending os I ctx p content k" "0 \<le> j" "j \<le> actualsize" "0 \<le> offset"
    "offset + actualsize \<le> int (length content)" "0 \<le> ofs" "ofs < usb_wr_buffer_max_size ctx"
    "buf_index = -1 \<or> page_loaded ctx content k buf_index" "nat (actualsize - j) < n"
  shows "\<exists>ctx'. send_loop os n ctx p offset actualsize j ofs buf_index = Some (ctx', True) \<and>
    sending os I ctx' p content k \<and> same_link ctx ctx' \<and>
    usb_out ctx' = usb_out ctx @ map (Pair 0) (chunks (nat (usb_wr_buffer_max_size ctx))
      (take (nat ofs) (wrbuffer ctx) @ take (nat (actualsize - j)) (drop (nat (offset + j)) content)))"
  using assms
proof (induction n arbitrary: ctx j ofs buf_index)
  case 0 then show ?case by simp
next
  case (Suc n)
  let ?wr = "usb_wr_buffer_max_size ctx"
  define bs where "bs = min (?wr - ofs) (actualsize - j)"
  obtain ctx1 b1 where r: "send_block os ctx p offset actualsize j ofs buf_index = Some (ctx1, Inr (j + bs, b1))"
    "sending os I ctx1 p content k" "page_loaded ctx1 content k b1" "same_link ctx ctx1"
    "usb_out ctx1 = usb_out ctx @ [(0, block_bytes ctx content offset j ofs bs)]"
    using send_block_ok[OF Suc.prems(1-8) bs_def] by blast
  have nc: "cancel_req ctx1 = 0" using r(2) by (simp add: sending_def)
  have wl: "ofs \<le> int (length (wrbuffer ctx))" using Suc.prems(1,7) by (simp add: sending_def)
  have room: "nat (offset + j) + nat (actualsize - j) \<le> length content" using Suc.prems(2-5) by linarith
  show ?case
  proof (cases "j + bs < actualsize")
    case True
    then have bs: "bs = ?wr - ofs" "0 < bs" using Suc.prems by (auto simp: bs_def)
    have "same_link ctx1 ctx1" by simp
    have step: "\<exists>ctx'. send_loop os n ctx1 p offset actualsize (j + bs) 0 b1 = Some (ctx', True) \<and>
      sending os I ctx' p content k \<and> same_link ctx1 ctx' \<and>
      usb_out ctx' = usb_out ctx1 @ map (Pair 0) (chunks (nat (usb_wr_buffer_max_size ctx1))
        (take (nat 0) (wrbuffer ctx1) @ take (nat (actualsize - (j + bs))) (drop (nat (offset + (j + bs))) content)))"
    proof (rule Suc.IH)
      show "sending os I ctx1 p content k" by (rule r(2))
      show "b1 = -1 \<or> page_loaded ctx1 content k b1" using r(3) by simp
      show "0 < usb_wr_buffer_max_size ctx1" using r(4) Suc.prems by (simp add: same_link_def)
    qed (use True bs Suc.prems in auto)
    let ?rest = "take (nat (actualsize - (j + bs))) (drop (nat (offset + (j + bs))) content)"
    have "length ?rest = nat (actualsize - (j + bs))" 
      by (rule length_take_drop) (use room bs True Suc.prems in linarith)
    then have ne: "?rest \<noteq> []" using True by auto
    have "length (take (nat ofs) (wrbuffer ctx)) = nat ofs" using wl by simp
    moreover have "length (take (nat bs) (drop (nat (offset + j)) content)) = nat bs"
      by (rule length_take_drop) (use room bs True Suc.prems in linarith)
    ultimately have lb: "length (block_bytes ctx content offset j ofs bs) = nat ?wr"
      unfolding block_bytes_def length_append using bs Suc.prems(6) by linarith
    have nd: "nat (actualsize - j) = nat bs + nat (actualsize - (j + bs))"
      "nat (offset + (j + bs)) = nat bs + nat (offset + j)" using True bs Suc.prems by linarith+
    have "take (nat ofs) (wrbuffer ctx) @ take (nat (actualsize - j)) (drop (nat (offset + j)) content)
        = block_bytes ctx content offset j ofs bs @ ?rest"
      by (simp add: block_bytes_def nd take_add)
    then have ch: "chunks (nat ?wr) (take (nat ofs) (wrbuffer ctx) @ take (nat (actualsize - j)) (drop (nat (offset + j)) content))
        = block_bytes ctx content offset j ofs bs # chunks (nat ?wr) ?rest"
      using chunks_Cons[OF lb _ ne] Suc.prems(6,7) by simp
    have "usb_wr_buffer_max_size ctx1 = ?wr" using r(4) by (simp add: same_link_def)
    with step ch r nc True show ?thesis by (auto intro: same_link_trans)
  next
    case False
    then have bs: "bs = actualsize - j" "actualsize - j \<le> ?wr - ofs" by (auto simp: bs_def)
    have "length (take (nat ofs) (wrbuffer ctx) @ take (nat (actualsize - j)) (drop (nat (offset + j)) content)) \<le> nat ?wr"
      unfolding length_append length_take_drop[OF room] using bs(2) Suc.prems(3,6) wl by simp
    then show ?thesis
      using r nc False bs(1) by (auto simp: chunks_short block_bytes_def)
  qed
qed

text \<open>The link and the buffers before the transfer.\<close>

definition link_ready :: "'w os \<Rightarrow> 'w mtp_ctx \<Rightarrow> nat \<Rightarrow> bool" where
  "link_ready os ctx k \<longleftrightarrow>
     (\<forall>w. \<not> os_cancel os w) \<and> cancel_req ctx = 0 \<and> ep_handles (usb_ctx ctx) ! 0 \<ge> 0 \<and> \<not> stop (usb_ctx ctx) \<and>
     read_file_buffer_size ctx = 2 ^ k \<and> 12 < usb_wr_buffer_max_size ctx \<and> usb_wr_buffer_max_size ctx \<le> 2 ^ k \<and>
     usb_wr_buffer_max_size ctx \<le> int (length (wrbuffer ctx)) \<and>
     (case read_file_buffer ctx of None \<Rightarrow> True | Some b \<Rightarrow> length b = 2 ^ k)"

text \<open>The container of a data phase, and the empty packet after it.\<close>

definition data_container :: "'w mtp_ctx \<Rightarrow> byte list \<Rightarrow> byte list" where
  "data_container ctx payload =
    le32 (container_length (int (length payload))) @ take 8 (drop 4 (wrbuffer ctx)) @ payload"

definition zlp :: "'w mtp_ctx \<Rightarrow> int \<Rightarrow> byte list list" where
  "zlp ctx sz = (if word_of_int sz \<ge> max_packet_size ctx \<and> word_of_int sz mod max_packet_size ctx = 0 then [[]] else [])"

lemma poke32_front:
  assumes "4 < maxsize" "maxsize \<le> int (length buf)"
  shows "fst (poke32 buf 0 maxsize w) = le32 w @ drop 4 buf"
  using w32.fits[of 0 maxsize buf w] assms by (simp add: w32_def write_at_def)

lemma send_header_ok:
  assumes "link_ready os ctx k"
  shows "\<exists>b. send_header ctx n = ctx\<lparr>read_file_buffer := Some b, wrbuffer := le32 (container_length n) @ drop 4 (wrbuffer ctx)\<rparr>
    \<and> length b = 2 ^ k"
proof -
  have "\<exists>b. (if read_file_buffer ctx = None
      then ctx\<lparr>read_file_buffer := Some (replicate (nat (read_file_buffer_size ctx)) 0)\<rparr> else ctx) = ctx\<lparr>read_file_buffer := Some b\<rparr>
      \<and> length b = 2 ^ k"
  proof (cases "read_file_buffer ctx")
    case None
    then show ?thesis using assms by (intro exI[of _ "replicate (2 ^ k) 0"]) (simp add: link_ready_def nat_power_eq)
  next
    case (Some b)
    then show ?thesis using assms by (intro exI[of _ b]) (simp add: link_ready_def)
  qed
  then obtain b where b: "(if read_file_buffer ctx = None
      then ctx\<lparr>read_file_buffer := Some (replicate (nat (read_file_buffer_size ctx)) 0)\<rparr> else ctx) = ctx\<lparr>read_file_buffer := Some b\<rparr>"
    "length b = 2 ^ k" by blast
  have "fst (poke32 (wrbuffer ctx) 0 (usb_wr_buffer_max_size ctx) (container_length n))
      = le32 (container_length n) @ drop 4 (wrbuffer ctx)"
    using assms by (intro poke32_front) (auto simp: link_ready_def)
  then show ?thesis
    unfolding send_header_def Let_def b(1) using b(2) by (intro exI[of _ b]) simp
qed

text \<open>A response can be sent.\<close>

definition response_ready :: "'w os \<Rightarrow> 'w mtp_ctx \<Rightarrow> bool" where
  "response_ready os ctx \<longleftrightarrow> link_up os ctx \<and> 12 < usb_wr_buffer_max_size ctx \<and> usb_wr_buffer_max_size ctx \<le> int (length (wrbuffer ctx))"

lemma send_end_ok:
  assumes "sending os I ctx p content k" "0 \<le> n"
  shows "\<exists>ctx'. send_end os ctx p n = (ctx', n) \<and> usb_out ctx' = usb_out ctx @ map (Pair 0) (zlp ctx (12 + n)) \<and>
    response_ready os ctx'"
  using assms
  by (auto simp: response_ready_def link_up_def send_end_def Let_def entry_close_def check_and_send_USB_ZLP_def zlp_def sending_def set_db_def write_usb_def
      is_usb_up_def after_transfer_def split: prod.splits)

lemma send_file_data_sent:
  assumes ready: "link_ready os ctx k" and sz: "e_size (entry_at (the_db ctx) p) = int (length content)"
    and range: "0 \<le> offset" "offset \<le> int (length content)" "0 \<le> maxsize"
    and opened: "entry_open os (send_header ctx (actual_size (int (length content)) offset maxsize)) p
      [O_RDONLY, O_LARGEFILE] = (ctx2, fd)" "fd \<noteq> -1"
    and reads: "file_content os I fd content" "I (world ctx2)"
  shows "\<exists>ctx'. send_file_data os ctx p offset maxsize
        = Some (ctx', int (length (take (nat maxsize) (drop (nat offset) content)))) \<and>
     usb_out ctx' = usb_out ctx @ map (Pair 0)
       (chunks (nat (usb_wr_buffer_max_size ctx)) (data_container ctx (take (nat maxsize) (drop (nat offset) content)))
        @ zlp ctx (12 + int (length (take (nat maxsize) (drop (nat offset) content))))) \<and> response_ready os ctx'"
proof -
  let ?n = "actual_size (int (length content)) offset maxsize"
  let ?pay = "take (nat maxsize) (drop (nat offset) content)"
  have n: "int (length ?pay) = ?n" "0 \<le> ?n" using range by (auto simp: actual_size_def min_def)
  have pay: "?pay = take (nat ?n) (drop (nat offset) content)"
    using range by (auto simp: actual_size_def)
  obtain b where b: "send_header ctx ?n = ctx\<lparr>read_file_buffer := Some b,
      wrbuffer := le32 (container_length ?n) @ drop 4 (wrbuffer ctx)\<rparr>" "length b = 2 ^ k"
    using send_header_ok[OF ready] by blast
  obtain w db where c2: "ctx2 = send_header ctx ?n\<lparr>world := w, fs_db := db\<rparr>" "fd = e_fd (entry_at (the_db ctx2) p)"
    using fs_step_open[of "send_header ctx ?n" os p "[O_RDONLY, O_LARGEFILE]"] entry_open_fd[OF opened(1)] opened(1)
    by (metis fst_conv fs_step_shape)
  let ?c3 = "ctx2\<lparr>transferring_file_data := True\<rparr>"
  have len: "12 < length (wrbuffer ctx)" using ready by (auto simp: link_ready_def)
  have snd: "sending os I ?c3 p content k"
    using ready c2 b opened(2) reads len by (auto simp: sending_def link_ready_def the_db_def page_buffer_def)
  have fields: "usb_wr_buffer_max_size ?c3 = usb_wr_buffer_max_size ctx" "max_packet_size ?c3 = max_packet_size ctx"
    "usb_out ?c3 = usb_out ctx" "take 12 (wrbuffer ?c3) = le32 (container_length ?n) @ take 8 (drop 4 (wrbuffer ctx))"
    using c2(1) b by simp_all
  have top: "offset + ?n \<le> int (length content)" using range by (auto simp: actual_size_def)
  have big: "nat (?n - 0) < nat ?n + 1" "12 < usb_wr_buffer_max_size ?c3" "(-1::int) = -1 \<or> page_loaded ?c3 content k (-1)"
    "(0::int) \<le> 0" "(0::int) \<le> 12"
    using ready fields(1) by (simp_all add: link_ready_def)
  obtain ctx4 where c4: "send_loop os (nat ?n + 1) ?c3 p offset ?n 0 12 (-1) = Some (ctx4, True)"
    "sending os I ctx4 p content k" "same_link ?c3 ctx4"
    "usb_out ctx4 = usb_out ?c3 @ map (Pair 0) (chunks (nat (usb_wr_buffer_max_size ?c3))
      (take (nat 12) (wrbuffer ?c3) @ take (nat (?n - 0)) (drop (nat (offset + 0)) content)))"
    using send_loop_ok[OF snd big(4) n(2) range(1) top big(5,2,3,1)] by blast
  obtain ctx5 where c5: "send_end os ctx4 p ?n = (ctx5, ?n)" "usb_out ctx5 = usb_out ctx4 @ map (Pair 0) (zlp ctx4 (12 + ?n))" "response_ready os ctx5"
    using send_end_ok[OF c4(2) n(2)] by blast
  have z: "zlp ctx4 = zlp ctx" using c4(3) fields(2) by (simp add: zlp_def same_link_def fun_eq_iff)
  have "send_file_data os ctx p offset maxsize = Some (ctx5, ?n)"
    unfolding send_file_data_def Let_def sz opened(1) using opened(2) c4(1) c5(1) by simp
  moreover have "usb_out ctx5 = usb_out ctx @ map (Pair 0)
       (chunks (nat (usb_wr_buffer_max_size ctx)) (data_container ctx ?pay) @ zlp ctx (12 + ?n))"
  proof -
    have "take (nat 12) (wrbuffer ?c3) @ take (nat (?n - 0)) (drop (nat (offset + 0)) content) = data_container ctx ?pay"
      unfolding data_container_def n(1) using fields(4) pay by simp
    then show ?thesis unfolding c5(2) c4(4) z fields by simp
  qed
  ultimately show ?thesis using c5(3) unfolding n(1) by blast
qed

lemma send_loop_negative:
  assumes "load_page os ctx p (offset AND NOT (read_file_buffer_size ctx - 1)) = (ctx1, True)" "maxsize < 0"
    "12 < usb_wr_buffer_max_size ctx" "offset AND NOT (read_file_buffer_size ctx - 1) \<noteq> -1"
  shows "send_loop os (Suc n) ctx p offset maxsize 0 12 (-1) = None"
  using assms by (simp add: send_block_def Let_def)


section \<open>Sending, the properties\<close>

lemma sending_opened:
  assumes ready: "link_ready os ctx k" and opened: "entry_open os (send_header ctx n) p fl = (ctx2, fd)" "fd \<noteq> -1"
    and reads: "file_content os I fd content" "I (world ctx2)"
  shows "sending os I (ctx2\<lparr>transferring_file_data := True\<rparr>) p content k"
proof -
  obtain b where b: "send_header ctx n = ctx\<lparr>read_file_buffer := Some b,
      wrbuffer := le32 (container_length n) @ drop 4 (wrbuffer ctx)\<rparr>" "length b = 2 ^ k"
    using send_header_ok[OF ready] by blast
  obtain w db where c2: "ctx2 = send_header ctx n\<lparr>world := w, fs_db := db\<rparr>" "fd = e_fd (entry_at (the_db ctx2) p)"
    using fs_step_open[of "send_header ctx n" os p fl] entry_open_fd[OF opened(1)] opened(1)
    by (metis fst_conv fs_step_shape)
  have len: "12 < length (wrbuffer ctx)" using ready by (auto simp: link_ready_def)
  show ?thesis
    using ready c2 b opened(2) reads len by (auto simp: sending_def link_ready_def the_db_def page_buffer_def)
qed

text \<open>A file of three bytes, and a system whose world is the position in it.\<close>

definition file_os :: "nat os" where
  "file_os = plain_os\<lparr>os_lseek := (\<lambda>w fd ofs wh. (nat ofs, ofs)),
     os_read := (\<lambda>w fd n. (w, Some (take (nat n) (drop w [1, 2, 3]))))\<rparr>"

lemma file_os_content: "file_content file_os (\<lambda>_. True) fd [1, 2, 3]"
  by (simp add: file_content_def file_os_def)

lemma file_os_simps [simp]:
  "os_open file_os w path fl = (w, 5)" "os_ep_write file_os w' ep bs = (Suc w', int (length bs))"
  "os_cancel file_os w = False" "os_realpath file_os w path = Inr path"
  by (simp_all add: file_os_def)

lemma sample_ready: "link_ready file_os sample_ctx 6"
  by (simp add: link_ready_def sample_ctx_def)

text \<open>C10. Sending a file. When the link is up, nobody cancels and the file reads as \<open>content\<close>, a request for
  \<open>maxsize\<close> bytes from \<open>offset\<close> answers with the number of bytes there are, and the packets put on the
  link are, cut at the size of the write buffer, the container header followed by exactly those
  bytes of the file, then an empty packet when the length is a multiple of the packet size.\<close>

theorem send_file_data_payload:
  assumes "link_ready os ctx k" "e_size (entry_at (the_db ctx) p) = int (length content)"
    "0 \<le> offset" "offset \<le> int (length content)" "0 \<le> maxsize"
    "entry_open os (send_header ctx (actual_size (int (length content)) offset maxsize)) p
      [O_RDONLY, O_LARGEFILE] = (ctx2, fd)" "fd \<noteq> -1"
    "file_content os I fd content" "I (world ctx2)"
  shows "\<exists>ctx'. send_file_data os ctx p offset maxsize
        = Some (ctx', int (length (take (nat maxsize) (drop (nat offset) content)))) \<and>
     usb_out ctx' = usb_out ctx @ map (Pair 0)
       (chunks (nat (usb_wr_buffer_max_size ctx)) (data_container ctx (take (nat maxsize) (drop (nat offset) content)))
        @ zlp ctx (12 + int (length (take (nat maxsize) (drop (nat offset) content)))))"
  using send_file_data_sent[OF assms] by blast

lemma send_header_frame [simp]:
  "fs_db (send_header ctx n) = fs_db ctx" "the_db (send_header ctx n) = the_db ctx"
  "world (send_header ctx n) = world ctx" "storages (send_header ctx n) = storages ctx"
  by (simp_all add: send_header_def the_db_def Let_def)

lemma sample_open:
  "\<exists>ctx2. entry_open file_os (send_header sample_ctx n) (Suc 0) fl = (ctx2, 5)"
proof -
  let ?c = "send_header sample_ctx n"
  have same: "ctx_uid ?c = -1 \<and> ctx_gid ?c = -1 \<and> default_uid ?c = -1 \<and> default_gid ?c = -1"
    by (simp add: send_header_def sample_ctx_def Let_def)
  have uid: "uid (sample_storages ! 0) = -1" "gid (sample_storages ! 0) = -1"
    by (simp_all add: sample_storages_def sample_storage_def)
  have "build_full_path file_os 0 sample_storages sample_db (Some [0x2F, 0x72]) (Some (Suc 0)) = Some [0x2F, 0x72, 0x2F, 0x61]"
    using sample_path[of sample_db "Suc 0" file_os 0 sample_storages "[0x2F, 0x72]"] by (simp add: sample_pool file_os_def)
  with same uid show ?thesis
    by (simp add: entry_open_def sample_pool set_db_def the_db_def sample_path set_storage_giduid_def set_giduid_def restore_giduid_def Let_def
        upd_entry_def)
qed

lemma send_file_data_payload_witness:
  "\<exists>ctx'. send_file_data file_os sample_ctx (Suc 0) 1 10 = Some (ctx', 2) \<and>
     usb_out ctx' = [(0, [14, 0, 0, 0, 0, 0, 0, 0, 0, 0, 0, 0, 2, 3])]"
proof -
  obtain ctx2 where "entry_open file_os (send_header sample_ctx 2) (Suc 0) [O_RDONLY, O_LARGEFILE] = (ctx2, 5)"
    using sample_open by blast
  then have c: "entry_open file_os (send_header sample_ctx (actual_size (int (length [1, 2, 3 :: byte])) 1 10)) (Suc 0)
     [O_RDONLY, O_LARGEFILE] = (ctx2, 5)" by (simp add: actual_size_def)
  have "\<exists>ctx'. send_file_data file_os sample_ctx (Suc 0) 1 10
        = Some (ctx', int (length (take (nat 10) (drop (nat 1) [1, 2, 3 :: byte])))) \<and>
     usb_out ctx' = usb_out sample_ctx @ map (Pair 0)
       (chunks (nat (usb_wr_buffer_max_size sample_ctx)) (data_container sample_ctx (take (nat 10) (drop (nat 1) [1, 2, 3])))
        @ zlp sample_ctx (12 + int (length (take (nat 10) (drop (nat 1) [1, 2, 3 :: byte])))))"
    by (rule send_file_data_payload[OF sample_ready _ _ _ _ c _ file_os_content])
       (simp_all add: sample_pool)
  moreover have "data_container sample_ctx [2, 3] = [14, 0, 0, 0, 0, 0, 0, 0, 0, 0, 0, 0, 2, 3]"
  proof -
    have "le32 (container_length 2) = [14, 0, 0, 0]" by code_simp
    moreover have "take 8 (drop 4 (wrbuffer sample_ctx)) = replicate 8 0" by (simp add: sample_ctx_def)
    moreover have "replicate 8 (0 :: byte) = [0, 0, 0, 0, 0, 0, 0, 0]" by code_simp
    ultimately show ?thesis by (simp add: data_container_def)
  qed
  ultimately show ?thesis
    by (simp add: zlp_def sample_ctx_def chunks_short)
qed

text \<open>A length that was read as negative (the host's 0xFFFFFFFF, kept in an \<open>int\<close>) makes the copy into the
  packet buffer run with a negative length: the call does not return.\<close>

theorem send_file_data_negative:
  assumes ready: "link_ready os ctx k" and range: "0 \<le> offset" "offset < e_size (entry_at (the_db ctx) p)" "maxsize < 0"
    and opened: "entry_open os (send_header ctx maxsize) p [O_RDONLY, O_LARGEFILE] = (ctx2, fd)" "fd \<noteq> -1"
    and reads: "file_content os I fd content" "I (world ctx2)"
  shows "send_file_data os ctx p offset maxsize = None"
proof -
  have n: "actual_size (e_size (entry_at (the_db ctx) p)) offset maxsize = maxsize"
    using range by (auto simp: actual_size_def)
  have snd: "sending os I (ctx2\<lparr>transferring_file_data := True\<rparr>) p content k"
    by (rule sending_opened[OF ready opened reads])
  let ?page = "offset AND NOT (read_file_buffer_size (ctx2\<lparr>transferring_file_data := True\<rparr>) - 1)"
  have page: "0 \<le> ?page" using range(1) by simp
  obtain ctx4 where "load_page os (ctx2\<lparr>transferring_file_data := True\<rparr>) p ?page = (ctx4, True)"
    using load_page_ok[OF snd page] by blast
  moreover have "?page \<noteq> -1" using page by linarith
  moreover have "12 < usb_wr_buffer_max_size (ctx2\<lparr>transferring_file_data := True\<rparr>)" using snd unfolding sending_def by blast
  ultimately have "send_loop os (Suc (nat maxsize)) (ctx2\<lparr>transferring_file_data := True\<rparr>) p offset maxsize 0 12 (-1) = None"
    using range(3) by (intro send_loop_negative)
  then show ?thesis
    unfolding send_file_data_def Let_def n opened(1) using opened(2) by simp
qed

lemma send_file_data_negative_witness:
  "send_file_data file_os sample_ctx (Suc 0) 1 (-1) = None"
proof -
  obtain ctx2 where "entry_open file_os (send_header sample_ctx (-1)) (Suc 0) [O_RDONLY, O_LARGEFILE] = (ctx2, 5)"
    using sample_open by blast
  from send_file_data_negative[OF sample_ready _ _ _ this _ file_os_content] show ?thesis
    by (simp add: sample_pool)
qed

section \<open>A file transfer ends\<close>

text \<open>What the length of a transfer depends on stays as it is during one.\<close>

definition same_sizes :: "'w mtp_ctx \<Rightarrow> 'w mtp_ctx \<Rightarrow> bool" where
  "same_sizes c c' \<longleftrightarrow> usb_wr_buffer_max_size c' = usb_wr_buffer_max_size c \<and> read_file_buffer_size c' = read_file_buffer_size c"

lemma same_sizes_refl [simp]: "same_sizes c c"
  by (simp add: same_sizes_def)

lemma same_sizes_load: "load_page os c p i = (c', b) \<Longrightarrow> same_sizes c c'"
  by (auto simp: load_page_def entry_read_def Let_def same_sizes_def split: if_splits prod.splits option.splits)

lemma sizes_send [simp]:
  "usb_wr_buffer_max_size (send_packet os c d) = usb_wr_buffer_max_size c"
  "read_file_buffer_size (send_packet os c d) = read_file_buffer_size c"
  "usb_wr_buffer_max_size (send_header c n) = usb_wr_buffer_max_size c"
  "read_file_buffer_size (send_header c n) = read_file_buffer_size c"
  by (auto simp: send_packet_def write_usb_def after_transfer_def send_header_def Let_def split: prod.splits)

lemma send_block_returns:
  assumes sz: "0 \<le> ofs" "ofs < usb_wr_buffer_max_size c" "usb_wr_buffer_max_size c \<le> read_file_buffer_size c" and j: "j \<le> n"
  shows "\<exists>c' r. send_block os c p offset n j ofs b = Some (c', r) \<and>
    (\<forall>j' b'. r = Inr (j', b') \<longrightarrow> same_sizes c c' \<and> j' \<le> n \<and> (j' = n \<or> j < j'))"
proof -
  let ?w = "usb_wr_buffer_max_size c" and ?r = "read_file_buffer_size c"
  define bs where "bs = (if j + (?w - ofs) < n then ?w - ofs else n - j)"
  define pg where "pg = (offset + j) AND NOT (?r - 1)"
  define io where "io = (offset + j) AND (?r - 1)"
  have bs: "0 \<le> bs" "bs \<le> ?w - ofs" "j + bs \<le> n" "j + bs = n \<or> j < j + bs" using sz j by (auto simp: bs_def)
  have io: "io \<le> ?r - 1" unfolding io_def by (rule AND_upper2) (use sz in linarith)
  obtain c1 l1 where c1: "(if b \<noteq> pg then load_page os c p pg else (c, True)) = (c1, l1)" by fastforce
  have s1: "same_sizes c c1" using c1 same_sizes_load by (auto split: if_splits)
  define first where "first = bs - ((io + bs) - ?r)"
  define c2 where "c2 = c1\<lparr>wrbuffer := write_at (wrbuffer c1) (nat ofs) (take (nat first) (drop (nat io) (page_buffer c1)))\<rparr>"
  obtain c3 l2 where c3: "load_page os c2 p (pg + ?r) = (c3, l2)" by fastforce
  have s3: "same_sizes c c3" using same_sizes_load[OF c3] s1 by (simp add: same_sizes_def c2_def)
  have short: "\<not> bs - first > ?r" using bs(2) io sz by (simp add: first_def)
  show ?thesis
    unfolding send_block_def Let_def bs_def[symmetric] pg_def[symmetric] io_def[symmetric] c1 prod.case
      first_def[symmetric] c2_def[symmetric] c3
    using bs short s1 s3 by (simp add: same_sizes_def)
qed

lemma send_loop_returns:
  assumes "0 \<le> ofs" "ofs < usb_wr_buffer_max_size c" "usb_wr_buffer_max_size c \<le> read_file_buffer_size c" "j \<le> n" "nat (n - j) < k"
  shows "send_loop os k c p offset n j ofs b \<noteq> None"
  using assms
proof (induction k arbitrary: c j ofs b)
  case (Suc k)
  obtain c' r where b: "send_block os c p offset n j ofs b = Some (c', r)"
    "\<forall>j' b'. r = Inr (j', b') \<longrightarrow> same_sizes c c' \<and> j' \<le> n \<and> (j' = n \<or> j < j')"
    using send_block_returns[OF Suc.prems(1-4)] by blast
  have "send_loop os k c' p offset n j' 0 b' \<noteq> None" if "r = Inr (j', b')" "j' < n" for j' b'
    using that b(2) Suc.prems by (intro Suc.IH) (auto simp: same_sizes_def)
  then show ?case by (auto simp: b(1) split: sum.split prod.split)
qed simp

lemma send_file_data_returns:
  assumes "12 < usb_wr_buffer_max_size c" "usb_wr_buffer_max_size c \<le> read_file_buffer_size c" "0 \<le> maxsize \<or> e_size (entry_at (the_db c) p) \<le> offset"
  shows "send_file_data os c p offset maxsize \<noteq> None"
proof -
  let ?n = "actual_size (e_size (entry_at (the_db c) p)) offset maxsize"
  have n: "0 \<le> ?n" using assms(3) by (auto simp: actual_size_def)
  obtain c1 fd where o: "entry_open os (send_header c ?n) p [O_RDONLY, O_LARGEFILE] = (c1, fd)" by fastforce
  obtain w db where "c1 = send_header c ?n\<lparr>world := w, fs_db := db\<rparr>"
    using fs_step_shape[OF fs_step_open[of "send_header c ?n" os p "[O_RDONLY, O_LARGEFILE]"]] by (auto simp: o)
  then have "same_sizes c c1" by (simp add: same_sizes_def)
  then have "send_loop os (nat ?n + 1) (c1\<lparr>transferring_file_data := True\<rparr>) p offset ?n 0 12 (-1) \<noteq> None"
    using assms(1,2) n by (intro send_loop_returns) (simp_all add: same_sizes_def)
  then show ?thesis by (auto simp: send_file_data_def Let_def o simp del: send_loop.simps split: bool.split)
qed
section \<open>Receiving, the properties\<close>

text \<open>
  A host with packets to send, and what was written so far through a descriptor: in the worlds of a set \<open>J\<close>, which
  these calls do not leave, reading takes the next packet and writing appends; nobody cancels.
\<close>

definition host_sends ::
  "'w os \<Rightarrow> ('w \<Rightarrow> bool) \<Rightarrow> int \<Rightarrow> int \<Rightarrow> ('w \<Rightarrow> byte list list) \<Rightarrow> ('w \<Rightarrow> byte list) \<Rightarrow> bool" where
  "host_sends os J file n supply written \<longleftrightarrow>
     (\<forall>w. \<not> os_cancel os w) \<and>
     (\<forall>w p ps. J w \<longrightarrow> supply w = p # ps \<longrightarrow> snd (os_ep_read os w n) = Some p \<and> J (fst (os_ep_read os w n)) \<and>
        supply (fst (os_ep_read os w n)) = ps \<and> written (fst (os_ep_read os w n)) = written w) \<and>
     (\<forall>w data. J w \<longrightarrow> J (fst (os_write os w file data)) \<and> supply (fst (os_write os w file data)) = supply w \<and>
        written (fst (os_write os w file data)) = written w @ data)"

text \<open>Full packets, then a short one that ends the transfer.\<close>

definition transfer_of :: "int \<Rightarrow> byte list list \<Rightarrow> bool" where
  "transfer_of n ps \<longleftrightarrow> ps \<noteq> [] \<and> (\<forall>p \<in> set (butlast ps). int (length p) = n) \<and> int (length (last ps)) < n"

text \<open>The packets that follow a first one of \<open>rawsize\<close> bytes: none when it is short.\<close>

definition follow_up :: "int \<Rightarrow> int \<Rightarrow> byte list list \<Rightarrow> bool" where
  "follow_up n rawsize ps \<longleftrightarrow> (rawsize = n \<and> transfer_of n ps) \<or> (12 \<le> rawsize \<and> rawsize < n \<and> ps = [])"

definition receiving :: "'w mtp_ctx \<Rightarrow> int \<Rightarrow> bool" where
  "receiving ctx n \<longleftrightarrow> cancel_req ctx = 0 \<and> ep_handles (usb_ctx ctx) ! EP_DESCRIPTOR_OUT \<ge> 0 \<and>
     usb_rd_buffer_max_size ctx = n \<and> 12 < n"

text \<open>Receiving changes the world, the buffer and the count of bytes, nothing else of the context.\<close>

definition receive_step :: "'w mtp_ctx \<Rightarrow> 'w mtp_ctx \<Rightarrow> bool" where
  "receive_step ctx c \<longleftrightarrow>
     c\<lparr>world := world ctx, rdbuffer2 := rdbuffer2 ctx, SendObjInfoSize := SendObjInfoSize ctx\<rparr> = ctx"

lemma receive_step_refl [simp]: "receive_step ctx ctx"
  by (simp add: receive_step_def)

lemma receive_step_trans [trans]: "receive_step a b \<Longrightarrow> receive_step b c \<Longrightarrow> receive_step a c"
  by (cases a; cases b; cases c) (simp add: receive_step_def)

lemma receive_step_shape:
  "receive_step ctx c \<Longrightarrow> c = ctx\<lparr>world := world c, rdbuffer2 := rdbuffer2 c, SendObjInfoSize := SendObjInfoSize c\<rparr>"
  by (cases ctx; cases c) (simp add: receive_step_def)

lemma receive_step_write_data: "receive_step ctx (write_data os ctx file data)"
  by (cases ctx) (simp add: receive_step_def write_data_def)

lemma receiving_step: "receive_step ctx c \<Longrightarrow> receiving c n = receiving ctx n"
  by (cases ctx; cases c) (simp add: receive_step_def receiving_def)

lemma receive_loop_stops: "sz \<noteq> usb_rd_buffer_max_size ctx \<Longrightarrow> receive_loop os ctx file sz = Some ctx"
  by (simp add: receive_loop.simps)

lemma write_data_ok:
  assumes "host_sends os J file n supply written" "J (world ctx)"
  shows "J (world (write_data os ctx file data)) \<and> supply (world (write_data os ctx file data)) = supply (world ctx) \<and>
    written (world (write_data os ctx file data)) = written (world ctx) @ data"
  using assms by (simp add: host_sends_def write_data_def)

lemma receive_block_ok:
  assumes "host_sends os J file n supply written" "receiving ctx n" "J (world ctx)" "supply (world ctx) = p # ps"
  shows "\<exists>ctx'. read_block os ctx = (ctx', Some p) \<and> receive_step ctx (write_data os ctx' file p) \<and>
    J (world (write_data os ctx' file p)) \<and> supply (world (write_data os ctx' file p)) = ps \<and>
    written (world (write_data os ctx' file p)) = written (world ctx) @ p"
proof -
  define w where "w = fst (os_ep_read os (world ctx) n)"
  have w: "os_ep_read os (world ctx) n = (w, Some p)" "J w" "supply w = ps" "written w = written (world ctx)" "\<not> os_cancel os w"
    using assms(1,3,4) by (simp_all add: host_sends_def w_def prod_eq_iff)
  let ?c = "ctx\<lparr>world := w, rdbuffer2 := p @ drop (length p) (rdbuffer2 ctx)\<rparr>"
  have "read_block os ctx = (?c, Some p)"
    using assms(2) w(1,5) by (simp add: receiving_def read_block_def read_usb_def after_transfer_def)
  moreover have "receive_step ctx ?c" by (cases ctx) (simp add: receive_step_def)
  ultimately show ?thesis
    using write_data_ok[OF assms(1), of ?c p] w(2-4) receive_step_write_data[of ?c os "file" p] receive_step_trans by fastforce
qed

lemma receive_loop_ok:
  assumes "host_sends os J file n supply written" "receiving ctx n" "J (world ctx)" "supply (world ctx) = ps @ rest" "transfer_of n ps"
  shows "\<exists>ctx'. receive_loop os ctx file n = Some ctx' \<and> written (world ctx') = written (world ctx) @ concat ps \<and>
    J (world ctx') \<and> supply (world ctx') = rest \<and> receive_step ctx ctx'"
  using assms
proof (induction ps arbitrary: ctx)
  case Nil then show ?case by (simp add: transfer_of_def)
next
  case (Cons p ps)
  have n: "usb_rd_buffer_max_size ctx = n" "cancel_req ctx = 0" "0 \<le> n" using Cons.prems(2) by (simp_all add: receiving_def)
  obtain ctx1 where c1: "read_block os ctx = (ctx1, Some p)" "receive_step ctx (write_data os ctx1 file p)"
    "J (world (write_data os ctx1 file p))" "supply (world (write_data os ctx1 file p)) = ps @ rest"
    "written (world (write_data os ctx1 file p)) = written (world ctx) @ p"
    using receive_block_ok[OF Cons.prems(1-3), of p "ps @ rest"] Cons.prems(4) by auto
  have c2: "receiving (write_data os ctx1 file p) n" using receiving_step[OF c1(2)] Cons.prems(2) by simp
  have step: "receive_loop os ctx file n = receive_loop os (write_data os ctx1 file p) file (int (length p))"
    using n c1(1) by (subst receive_loop.simps) simp
  show ?case
  proof (cases "ps = []")
    case True
    then have "int (length p) < n" using Cons.prems(5) by (simp add: transfer_of_def)
    moreover have "usb_rd_buffer_max_size (write_data os ctx1 file p) = n" using c2 by (simp add: receiving_def)
    ultimately show ?thesis using step c1 True by (simp add: receive_loop_stops)
  next
    case False
    then have "int (length p) = n" "transfer_of n ps" using Cons.prems(5) by (simp_all add: transfer_of_def)
    then show ?thesis
      using Cons.IH[OF Cons.prems(1) c2 c1(3,4)] step c1(2,5) receive_step_trans[OF c1(2)] by auto
  qed
qed

lemma entry_close_frame [simp]:
  "cancel_req (entry_close os c (Some p)) = cancel_req c" "storages (entry_close os c (Some p)) = storages c"
  "e_size (entry_at (the_db (entry_close os c (Some p))) q) = e_size (entry_at (the_db c) q)"
  "usb_out (entry_close os c (Some p)) = usb_out c" "ptrs (the_db (entry_close os c (Some p))) = ptrs (the_db c)"
  by (auto simp: entry_close_def Let_def set_db_def the_db_def entry_at_upd)

lemma upd_entry_twice: "upd_entry p g (upd_entry p f db) = upd_entry p (g \<circ> f) db"
  by (cases "p < length (pool db)") (simp_all add: upd_entry_def list_update_beyond)

text \<open>The first packet and those that follow: the loop is over, the bytes are written.\<close>

lemma receive_all_ok:
  assumes host: "host_sends os J file n supply written" and ctx: "receiving ctx n" "J (world ctx)" "supply (world ctx) = ps @ rest"
    and ps: "follow_up n rawsize ps"
  shows "\<exists>c sz ctx'. receive_first os ctx file packet (rawsize - 12) False = (c, sz) \<and> receive_loop os c file sz = Some ctx' \<and>
    written (world ctx') = written (world ctx) @ take (nat (rawsize - 12)) (drop 12 packet) @ concat ps \<and>
    J (world ctx') \<and> supply (world ctx') = rest \<and> receive_step ctx ctx'"
proof -
  let ?d = "take (nat (rawsize - 12)) (drop 12 packet)"
  let ?c = "if rawsize - 12 > 0 then write_data os ctx file ?d else ctx"
  have n: "usb_rd_buffer_max_size ?c = n" "12 < n"
    using ctx(1) by (simp_all add: receiving_def write_data_def)
  have c: "receive_step ctx ?c" "J (world ?c)" "supply (world ?c) = ps @ rest" "written (world ?c) = written (world ctx) @ ?d"
    using ctx(2,3) write_data_ok[OF host ctx(2), of ?d] receive_step_write_data[of ctx os "file" ?d] by simp_all
  have rc: "receiving ?c n" using receiving_step[OF c(1)] ctx(1) by simp
  show ?thesis
  proof (cases "rawsize = n")
    case True
    have "receive_first os ctx file packet (rawsize - 12) False = (?c, n)"
      unfolding receive_first_def Let_def n(1) using True by simp
    moreover have "transfer_of n ps" using ps True by (auto simp: follow_up_def)
    ultimately show ?thesis
      using receive_loop_ok[OF host rc c(2,3)] c(1,4) receive_step_trans[OF c(1)] by fastforce
  next
    case False
    then have short: "rawsize < n" "ps = []" using ps by (auto simp: follow_up_def)
    have "receive_first os ctx file packet (rawsize - 12) False = (?c, rawsize - 12)"
      unfolding receive_first_def Let_def n(1) using False by simp
    moreover have "receive_loop os ?c file (rawsize - 12) = Some ?c"
      using short(1) unfolding n(1)[symmetric] by (intro receive_loop_stops) simp
    moreover have "supply (world ?c) = rest" "written (world ?c) = written (world ctx) @ ?d @ concat ps"
      using c(3,4) short(2) by simp_all
    ultimately show ?thesis using c(1,2) by blast
  qed
qed

lemma receive_object_whole:
  assumes host: "host_sends os J file n supply written" and ctx: "receiving ctx n"
    and ps: "follow_up n rawsize ps"
    and first: "w0 = fst (os_lseek os (world ctx) file (SendObjInfoOffset ctx) SEEK_SET)" "J w0" "supply w0 = ps @ rest"
    and seek: "\<And>w. J w \<Longrightarrow> written (fst (os_lseek os w file 0 SEEK_END)) = written w"
      "\<And>w. J w \<Longrightarrow> snd (os_lseek os w file 0 SEEK_END) = int (length (written w))"
      "\<And>w fd. written (os_close os w fd) = written w" "\<And>w fd. written (os_fsync os w fd) = written w"
    and K: "\<And>w. J w \<Longrightarrow> supply w = rest \<Longrightarrow> K (fst (os_lseek os w file 0 SEEK_END))" "\<And>w fd. K w \<Longrightarrow> K (os_close os w fd)" "\<And>w fd. K w \<Longrightarrow> K (os_fsync os w fd)"
  shows "\<exists>w b s. receive_object os ctx p file packet rawsize False =
       Some (ctx\<lparr>world := w, rdbuffer2 := b, SendObjInfoSize := s, transferring_file_data := False,
         fs_db := Some (upd_entry p (\<lambda>e. e\<lparr>e_size := int (length (written w)), e_fd := -1\<rparr>) (the_db ctx))\<rparr>, MTP_RESPONSE_OK) \<and>
     written w = written w0 @ take (nat (rawsize - 12)) (drop 12 packet) @ concat ps \<and> K w"
proof -
  let ?c0 = "ctx\<lparr>transferring_file_data := True, world := w0\<rparr>"
  have c0: "receiving ?c0 n" "J (world ?c0)" "supply (world ?c0) = ps @ rest" using ctx first(2,3) by (simp_all add: receiving_def)
  obtain c sz ctx3 where c3: "receive_first os ?c0 file packet (rawsize - 12) False = (c, sz)" "receive_loop os c file sz = Some ctx3"
    "written (world ctx3) = written w0 @ take (nat (rawsize - 12)) (drop 12 packet) @ concat ps" "J (world ctx3)" "supply (world ctx3) = rest" "receive_step ?c0 ctx3"
    using receive_all_ok[OF host c0 ps, of packet] by auto
  define w where "w = fst (os_lseek os (world ctx3) file 0 SEEK_END)"
  have w: "os_lseek os (world ctx3) file 0 SEEK_END = (w, int (length (written (world ctx3))))"
    "written w = written (world ctx3)" "K w" using seek(1,2) K(1) c3(4,5) by (simp_all add: w_def prod_eq_iff)
  have sh: "ctx3 = ?c0\<lparr>world := world ctx3, rdbuffer2 := rdbuffer2 ctx3, SendObjInfoSize := SendObjInfoSize ctx3\<rparr>"
    using c3(6) by (rule receive_step_shape)
  define b s w3 where "b = rdbuffer2 ctx3" and "s = SendObjInfoSize ctx3" and "w3 = world ctx3"
  have sh: "ctx3 = ctx\<lparr>transferring_file_data := True, world := w3, rdbuffer2 := b, SendObjInfoSize := s\<rparr>"
    using sh by (cases ctx) (simp add: b_def s_def w3_def)
  have db3: "the_db ctx3 = the_db ctx" unfolding sh by (simp add: the_db_def)
  let ?f = "\<lambda>e. e\<lparr>e_size := int (length (written (world ctx3)))\<rparr>"
  let ?c4 = "set_db (upd_entry p ?f (the_db ctx3)) (ctx3\<lparr>world := w, transferring_file_data := False\<rparr>)"
  have nc: "cancel_req (entry_close os ?c4 (Some p)) = 0"
    using ctx by (simp add: set_db_def) (simp add: sh receiving_def)
  have run: "receive_object os ctx p file packet rawsize False = Some (entry_close os ?c4 (Some p), MTP_RESPONSE_OK)"
    unfolding receive_object_def Let_def first(1)[symmetric] c3(1) prod.case c3(2) option.case w(1) using nc by simp
  define w1 where "w1 = (if sync_when_close ctx3 \<noteq> 0 then os_fsync os w (e_fd (entry_at (upd_entry p ?f (the_db ctx)) p)) else w)"
  define w' where "w' = (if e_fd (entry_at (upd_entry p ?f (the_db ctx)) p) \<noteq> -1
    then os_close os w1 (e_fd (entry_at (upd_entry p ?f (the_db ctx)) p)) else w)"
  have cl: "entry_close os ?c4 (Some p) = set_db (upd_entry p (\<lambda>e. e\<lparr>e_fd := -1\<rparr>) (upd_entry p ?f (the_db ctx)))
      (ctx3\<lparr>world := w', transferring_file_data := False\<rparr>)" "written w' = written w" "K w'"
    unfolding db3 by (simp_all add: entry_close_def Let_def w'_def w1_def set_db_def seek(3,4) K(2,3) w(3))
  have tw: "upd_entry p (\<lambda>e. e\<lparr>e_fd := -1\<rparr>) (upd_entry p ?f (the_db ctx))
      = upd_entry p (\<lambda>e. e\<lparr>e_size := int (length (written w')), e_fd := -1\<rparr>) (the_db ctx)"
    by (simp add: upd_entry_twice comp_def cl(2) w(2))
  have "entry_close os ?c4 (Some p) = ctx\<lparr>world := w', rdbuffer2 := b, SendObjInfoSize := s, transferring_file_data := False,
         fs_db := Some (upd_entry p (\<lambda>e. e\<lparr>e_size := int (length (written w')), e_fd := -1\<rparr>) (the_db ctx))\<rparr>"
    unfolding cl(1) tw unfolding set_db_def by (simp add: sh)
  with run have "receive_object os ctx p file packet rawsize False =
       Some (ctx\<lparr>world := w', rdbuffer2 := b, SendObjInfoSize := s, transferring_file_data := False,
         fs_db := Some (upd_entry p (\<lambda>e. e\<lparr>e_size := int (length (written w')), e_fd := -1\<rparr>) (the_db ctx))\<rparr>, MTP_RESPONSE_OK)"
    by simp
  moreover have "written w' = written w0 @ take (nat (rawsize - 12)) (drop 12 packet) @ concat ps"
    using cl(2) w(2) c3(3) by simp
  ultimately show ?thesis using cl(3) by blast
qed

text \<open>A host whose packets are the first half of the world; the second half is the file.\<close>

definition host_os :: "(byte list list \<times> byte list) os" where
  "host_os = \<lparr>
     os_realpath = (\<lambda>w path. Inr path), os_stat = (\<lambda>w path. None), os_lstat = (\<lambda>w path. None),
     os_readdir = (\<lambda>w path. None), os_remove = (\<lambda>w path. (w, 0)), os_mkdir = (\<lambda>w path. (w, 0)),
     os_open = (\<lambda>w path fl. (w, 5)), os_close = (\<lambda>w fd. w), os_fsync = (\<lambda>w fd. w),
     os_lseek = (\<lambda>w fd ofs wh. (w, if wh = SEEK_END then int (length (snd w)) else ofs)),
     os_read = (\<lambda>w fd n. (w, Some [])),
     os_write = (\<lambda>w fd bs. ((fst w, snd w @ bs), int (length bs))), os_truncate = (\<lambda>w path n. (w, None)),
     os_rename = (\<lambda>w a b. (w, 0)), os_setfsuid = (\<lambda>w u. (w, 0)), os_setfsgid = (\<lambda>w g. (w, 0)),
     os_add_watch = (\<lambda>w path. (w, 1)), os_rm_watch = (\<lambda>w wd. w),
     os_statvfs = (\<lambda>w path. None), os_localtime = (\<lambda>t. \<lparr>tm_year = 70, tm_mon = 0, tm_mday = 1,
       tm_hour = 0, tm_min = 0, tm_sec = 0\<rparr>),
     os_battery = (\<lambda>w path. None), os_ep_write = (\<lambda>w ep bs. (w, int (length bs))),
     os_ep_read = (\<lambda>w n. case fst w of [] \<Rightarrow> (w, None) | p # ps \<Rightarrow> ((ps, snd w), Some p)),
     os_thread_create = (\<lambda>w. (w, 0)), os_thread_stop = (\<lambda>w. w), os_clear_halt = (\<lambda>w fd. w), os_cancel = (\<lambda>w. False), os_lock_fails = (\<lambda>w. False)\<rparr>"

definition upload_ctx :: "(byte list list \<times> byte list) mtp_ctx" where
  "upload_ctx = \<lparr>session_id = 1, usb_cfg = sample_cfg, usb_ctx = sample_gadget,
     wrbuffer = replicate 64 0, usb_wr_buffer_max_size = 64, rdbuffer = replicate 14 0,
     rdbuffer2 = replicate 14 0, usb_rd_buffer_max_size = 14, read_file_buffer = None,
     read_file_buffer_size = 64, temp_array = [], fs_db = Some sample_db, SendObjInfoHandle = 1,
     SendObjInfoSize = 17, SendObjInfoOffset = 0, SetObjectPropValue_Handle = 0xFFFFFFFF,
     SetObjectPropValue_PropCode = 0, max_packet_size = 512, storages = sample_storages, inotify_fd = -1,
     no_inotify = 0, sync_when_close = 0, ctx_uid = -1, ctx_gid = -1, default_uid = -1, default_gid = -1,
     cancel_req = 0, transferring_file_data = False, inotify_locked = False, usb_out = [],
     world = ([replicate 14 7, [8]], [])\<rparr>"

text \<open>C11. Receiving a file. A host that sends a short packet, or full packets and then a short one, has the
  rest of the first packet and all the others written behind what the descriptor held, in their order; the
  call returns OK, and the entry's size is the size of the file.\<close>

theorem receive_object_contents:
  assumes "host_sends os J file n supply written" "receiving ctx n" "follow_up n rawsize ps"
    "w0 = fst (os_lseek os (world ctx) file (SendObjInfoOffset ctx) SEEK_SET)" "J w0" "supply w0 = ps @ rest"
    "\<And>w. J w \<Longrightarrow> written (fst (os_lseek os w file 0 SEEK_END)) = written w"
    "\<And>w. J w \<Longrightarrow> snd (os_lseek os w file 0 SEEK_END) = int (length (written w))"
    "\<And>w fd. written (os_close os w fd) = written w" "\<And>w fd. written (os_fsync os w fd) = written w"
  shows "\<exists>ctx'. receive_object os ctx p file packet rawsize False = Some (ctx', MTP_RESPONSE_OK) \<and>
     written (world ctx') = written w0 @ take (nat (rawsize - 12)) (drop 12 packet) @ concat ps \<and>
     (p \<in> ptrs (the_db ctx) \<longrightarrow> e_size (entry_at (the_db ctx') p) = int (length (written (world ctx'))))"
proof -
  obtain w b s where "receive_object os ctx p file packet rawsize False =
       Some (ctx\<lparr>world := w, rdbuffer2 := b, SendObjInfoSize := s, transferring_file_data := False,
         fs_db := Some (upd_entry p (\<lambda>e. e\<lparr>e_size := int (length (written w)), e_fd := -1\<rparr>) (the_db ctx))\<rparr>, MTP_RESPONSE_OK)"
    "written w = written w0 @ take (nat (rawsize - 12)) (drop 12 packet) @ concat ps"
    using receive_object_whole[OF assms, of "\<lambda>_. True" p packet] by blast
  then show ?thesis by (simp add: the_db_def entry_at_upd)
qed

lemma receive_object_contents_witness:
  "\<exists>ctx'. receive_object host_os upload_ctx (Suc 0) 5 (replicate 12 0 @ [1, 2]) 14 False = Some (ctx', MTP_RESPONSE_OK) \<and>
     snd (world ctx') = [1, 2] @ replicate 14 7 @ [8] \<and> e_size (entry_at (the_db ctx') (Suc 0)) = 17"
proof -
  have w: "world upload_ctx = ([replicate 14 7, [8]], [])" "usb_rd_buffer_max_size upload_ctx = 14"
    "the_db upload_ctx = sample_db" by (simp_all add: upload_ctx_def the_db_def)
  have "\<exists>ctx'. receive_object host_os upload_ctx (Suc 0) 5 (replicate 12 0 @ [1, 2]) 14 False = Some (ctx', MTP_RESPONSE_OK) \<and>
     snd (world ctx') = snd (world upload_ctx) @ take (nat (14 - 12)) (drop 12 (replicate 12 0 @ [1, 2])) @ concat [replicate 14 7, [8]] \<and>
     (Suc 0 \<in> ptrs (the_db upload_ctx) \<longrightarrow> e_size (entry_at (the_db ctx') (Suc 0)) = int (length (snd (world ctx'))))"
    by (rule receive_object_contents[of host_os "\<lambda>_. True" 5 14 fst snd upload_ctx 14 "[replicate 14 7, [8]]" _ "[]"])
       (simp_all add: host_sends_def host_os_def receiving_def transfer_of_def follow_up_def w, simp_all add: upload_ctx_def)
  then show ?thesis by (auto simp: w ptrs_def sample_pool)
qed

end
