(* ===== verification/TreeOps.thy ===== *)
theory TreeOps
  imports FileTransfer
begin

text \<open>
  Operations on whole trees of entries, the second half of
  \<open>src/mtp_operations/mtp_ops_helpers.c\<close>: deletion of a folder with what it holds, and the entries
  of a storage that is unmounted or mounted again.
\<close>

section \<open>Deletion of a tree\<close>

text \<open>The entry's file is removed; on success the entry is marked, else one failure is counted.\<close>

definition remove_entry_file ::
  "'w mtp_ctx \<Rightarrow> ptr \<Rightarrow> cstr option \<Rightarrow> ('w \<Rightarrow> cstr \<Rightarrow> 'w \<times> int) \<Rightarrow> 'w mtp_ctx \<times> int" where
  "remove_entry_file ctx q path remover =
    (case path of
       None \<Rightarrow> (ctx, 1)
     | Some pth \<Rightarrow> (case remover (world ctx) pth of
         (w, r) \<Rightarrow> if r \<noteq> 0 then (ctx\<lparr>world := w\<rparr>, 1)
                   else (set_db (upd_entry q mark_deleted (the_db ctx)) (ctx\<lparr>world := w\<rparr>), 0)))"

text \<open>
  The loop over the children of the entry being searched for. \<open>d\<close> is 64 less the depth of the
  code, \<open>n\<close> bounds the rounds. The search cursor is part of the database and is shared: the call
  for a subdirectory starts a search of its own. \<open>None\<close>: the rounds are used up, which does not
  happen (\<open>delete_loop_returns\<close>).
\<close>

fun delete_loop :: "'w os \<Rightarrow> nat \<Rightarrow> nat \<Rightarrow> 'w mtp_ctx \<Rightarrow> int \<Rightarrow> ('w mtp_ctx \<times> int) option" where
  "delete_loop os d 0 ctx fcnt = None"
| "delete_loop os d (Suc n) ctx fcnt =
    (case get_next_child_handle (the_db ctx) of
       (db, None) \<Rightarrow> Some (set_db db ctx, fcnt)
     | (db, Some q) \<Rightarrow>
        (let ctx1 = set_db db ctx in
         if \<not> has_flag (e_flags (entry_at db q)) ENTRY_IS_DIR then
           (case remove_entry_file ctx1 q (path_of os ctx1 q) (os_remove os) of
              (ctx2, k) \<Rightarrow> delete_loop os d n ctx2 (fcnt + k))
         else
           (case (case d of 0 \<Rightarrow> Some (ctx1, 1)
                  | Suc d' \<Rightarrow> delete_loop os d' (Suc (length (entry_list db)))
                      (set_db (init_search_handle db (e_handle (entry_at db q)) (e_storage (entry_at db q))) ctx1) 0) of
              None \<Rightarrow> None
            | Some (ctx2, tmp_fcnt) \<Rightarrow>
                (if tmp_fcnt = 0 then
                   (case remove_entry_file ctx2 q (path_of os ctx2 q) (fs_remove_tree os) of
                      (ctx3, k) \<Rightarrow> delete_loop os d n ctx3 (fcnt + k + tmp_fcnt))
                 else delete_loop os d n ctx2 (fcnt + tmp_fcnt)))))"

declare delete_loop.simps(2) [simp del]

definition delete_db_tree :: "'w os \<Rightarrow> 'w mtp_ctx \<Rightarrow> ptr \<Rightarrow> nat \<Rightarrow> ('w mtp_ctx \<times> int) option" where
  "delete_db_tree os ctx entry depth =
    (let db = the_db ctx; e = entry_at db entry in
     delete_loop os (64 - depth) (Suc (length (entry_list db)))
       (set_db (init_search_handle db (e_handle e) (e_storage e)) ctx) 0)"

definition drop_watch :: "'w os \<Rightarrow> 'w mtp_ctx \<Rightarrow> ptr \<Rightarrow> 'w mtp_ctx" where
  "drop_watch os ctx p =
    (let wd = e_wd (entry_at (the_db ctx) p) in
     if wd \<noteq> -1 then
       (let ctx1 = inotify_handler_rmwatch os ctx wd in set_db (upd_entry p (\<lambda>e. e\<lparr>e_wd := -1\<rparr>) (the_db ctx1)) ctx1)
     else ctx)"

definition mark_entry :: "'w os \<Rightarrow> 'w mtp_ctx \<Rightarrow> ptr \<Rightarrow> 'w mtp_ctx" where
  "mark_entry os ctx p = drop_watch os (set_db (upd_entry p mark_deleted (the_db ctx)) ctx) p"

definition delete_tree :: "'w os \<Rightarrow> 'w mtp_ctx \<Rightarrow> u32 \<Rightarrow> ('w mtp_ctx \<times> int) option" where
  "delete_tree os ctx h =
    (case get_entry_by_handle (storages ctx) (the_db ctx) h of
       None \<Rightarrow> Some (ctx, -1)
     | Some p \<Rightarrow> (case path_of os ctx p of
         None \<Rightarrow> Some (ctx, -1)
       | Some path \<Rightarrow>
          (if has_flag (e_flags (entry_at (the_db ctx) p)) ENTRY_IS_DIR then
             (case delete_db_tree os ctx p 0 of
                None \<Rightarrow> None
              | Some (ctx1, cnt) \<Rightarrow>
                  (if cnt = 0 then
                     (case fs_remove_tree os (world ctx1) path of
                        (w, ret) \<Rightarrow> if ret = 0 then Some (mark_entry os (ctx1\<lparr>world := w\<rparr>) p, ret)
                                    else Some (ctx1\<lparr>world := w\<rparr>, -1))
                   else Some (ctx1, -1)))
           else
             (case os_remove os (world ctx) path of
                (w, ret) \<Rightarrow> if ret = 0 then Some (mark_entry os (ctx\<lparr>world := w\<rparr>) p, ret)
                            else Some (ctx\<lparr>world := w\<rparr>, ret)))))"

section \<open>Storages\<close>

lemma drop_watch_db: "the_db (drop_watch os ctx p)
    = (if e_wd (entry_at (the_db ctx) p) \<noteq> -1 then upd_entry p (\<lambda>e. e\<lparr>e_wd := -1\<rparr>) (the_db ctx) else the_db ctx)"
  by (simp add: drop_watch_def Let_def inotify_handler_rmwatch_def set_db_def the_db_def)

lemma mark_entry_list: "entry_list (the_db (mark_entry os ctx p)) = entry_list (the_db ctx)"
  by (simp add: mark_entry_def drop_watch_db)

function umount_loop :: "'w os \<Rightarrow> 'w mtp_ctx \<Rightarrow> u32 \<Rightarrow> ptr list \<Rightarrow> 'w mtp_ctx" where
  "umount_loop os ctx sid start =
    (case get_entry_by_storageid (the_db ctx) sid start of
       [] \<Rightarrow> ctx
     | entry # rest \<Rightarrow>
        (let ctx1 = mark_entry os ctx entry in if rest = [] then ctx1 else umount_loop os ctx1 sid rest))"
  by pat_completeness auto
termination
proof (relation "measure (\<lambda>(os, ctx, sid, start). if start = [] then Suc (length (entry_list (the_db ctx))) else length start)")
  fix os :: "'w os" and ctx :: "'w mtp_ctx" and sid start entry rest ctx1
  assume "get_entry_by_storageid (the_db ctx) sid start = entry # rest" "rest \<noteq> []"
  then show "((os, ctx1, sid, rest), (os, ctx, sid, start))
      \<in> measure (\<lambda>(os, ctx, sid, start). if start = [] then Suc (length (entry_list (the_db ctx))) else length start)"
    by (auto simp: get_entry_by_storageid_def dest!: length_dropWhile_Cons split: if_splits)
qed auto

declare umount_loop.simps [simp del]

definition umount_store :: "'w os \<Rightarrow> 'w mtp_ctx \<Rightarrow> int \<Rightarrow> bool \<Rightarrow> 'w mtp_ctx" where
  "umount_store os ctx store_index update_flag =
    (if 0 \<le> store_index \<and> store_index < int MAX_STORAGE_NB then
       (let s = storages ctx ! nat store_index in
        if root_path s \<noteq> None then
          (let ctx1 = umount_loop os ctx (storage_id s) [] in
           if update_flag
           then ctx1\<lparr>storages := (storages ctx1)[nat store_index :=
                  (storages ctx1 ! nat store_index)\<lparr>flags := flags (storages ctx1 ! nat store_index) OR UMTP_STORAGE_NOTMOUNTED\<rparr>]\<rparr>
           else ctx1)
        else ctx)
     else ctx)"

definition mount_store :: "'w mtp_ctx \<Rightarrow> int \<Rightarrow> bool \<Rightarrow> 'w mtp_ctx" where
  "mount_store ctx store_index update_flag =
    (if 0 \<le> store_index \<and> store_index < int MAX_STORAGE_NB then
       (let s = storages ctx ! nat store_index in
        if root_path s \<noteq> None then
          (let ctx1 = (if has_flag (flags s) UMTP_STORAGE_NOTMOUNTED \<and> fs_db ctx \<noteq> None
                       then set_db (fst (alloc_root_entry (the_db ctx) (storage_id s))) ctx else ctx) in
           if update_flag
           then ctx1\<lparr>storages := (storages ctx1)[nat store_index :=
                  (storages ctx1 ! nat store_index)\<lparr>flags := flags (storages ctx1 ! nat store_index) AND NOT UMTP_STORAGE_NOTMOUNTED\<rparr>]\<rparr>
           else ctx1)
        else ctx)
     else ctx)"


section \<open>What the operations leave of the database\<close>

text \<open>Entries are marked and lose their watch point; nothing else of the database changes but the search.\<close>

definition only_marks :: "fs_handles_db \<Rightarrow> fs_handles_db \<Rightarrow> bool" where
  "only_marks db db' \<longleftrightarrow> length (pool db') = length (pool db) \<and> entry_list db' = entry_list db \<and>
     by_name db' = by_name db \<and> by_handle db' = by_handle db \<and> next_handle db' = next_handle db \<and>
     (\<forall>p. (entry_at db' p)\<lparr>e_flags := e_flags (entry_at db p), e_wd := e_wd (entry_at db p)\<rparr> = entry_at db p \<and>
        (deleted (entry_at db p) \<longrightarrow> deleted (entry_at db' p)))"

lemma only_marks_refl [intro, simp]: "only_marks db db"
  by (simp add: only_marks_def)

lemma only_marks_entry:
  assumes "only_marks db db'"
  shows "e_name (entry_at db' p) = e_name (entry_at db p)" "e_handle (entry_at db' p) = e_handle (entry_at db p)"
    "e_parent (entry_at db' p) = e_parent (entry_at db p)" "e_storage (entry_at db' p) = e_storage (entry_at db p)"
    "e_size (entry_at db' p) = e_size (entry_at db p)" "deleted (entry_at db p) \<longrightarrow> deleted (entry_at db' p)"
proof -
  have "(entry_at db' p)\<lparr>e_flags := e_flags (entry_at db p), e_wd := e_wd (entry_at db p)\<rparr> = entry_at db p"
    "deleted (entry_at db p) \<longrightarrow> deleted (entry_at db' p)"
    using assms by (auto simp: only_marks_def)
  then show "e_name (entry_at db' p) = e_name (entry_at db p)" "e_handle (entry_at db' p) = e_handle (entry_at db p)"
    "e_parent (entry_at db' p) = e_parent (entry_at db p)" "e_storage (entry_at db' p) = e_storage (entry_at db p)"
    "e_size (entry_at db' p) = e_size (entry_at db p)" "deleted (entry_at db p) \<longrightarrow> deleted (entry_at db' p)"
    by (metis fs_entry.select_convs fs_entry.surjective fs_entry.update_convs)+
qed

lemma only_marks_trans [trans]: "only_marks a b \<Longrightarrow> only_marks b c \<Longrightarrow> only_marks a c"
  unfolding only_marks_def by (smt (verit) fs_entry.surjective fs_entry.update_convs)

lemma only_marks_search [simp]:
  "only_marks db (init_search_handle db' h sid) = only_marks db db'"
  "only_marks db (db'\<lparr>search_cursor := c\<rparr>) = only_marks db db'"
  "only_marks (init_search_handle db h sid) db' = only_marks db db'"
  by (simp_all add: only_marks_def init_search_handle_def)

lemma only_marks_upd:
  "only_marks db db' \<Longrightarrow> only_marks db (upd_entry q mark_deleted db')"
  "only_marks db db' \<Longrightarrow> only_marks db (upd_entry q (\<lambda>e. e\<lparr>e_wd := w\<rparr>) db')"
  by (auto simp: only_marks_def entry_at_upd mark_deleted_def deleted_def has_flag_or)

lemma only_marks_inv:
  assumes "db_inv db" "only_marks db db'"
  shows "db_inv db'"
proof -
  note e = only_marks_entry[OF assms(2)]
  have "name_key db' = name_key db" "handle_key db' = handle_key db" "ptrs db' = ptrs db"
    using e assms(2) by (auto simp: fun_eq_iff name_key_def handle_key_def ptrs_def only_marks_def)
  with assms show ?thesis by (simp add: db_inv_def tables_ok_def handles_ok_def e only_marks_def)
qed

lemma only_marks_ptrs: "only_marks db db' \<Longrightarrow> ptrs db' = ptrs db"
  by (simp add: only_marks_def ptrs_def)

lemma next_child_marks: "get_next_child_handle db = (db', r) \<Longrightarrow> only_marks db db'"
  by (auto simp: get_next_child_handle_def split: list.splits)

lemma remove_entry_file_facts:
  assumes "remove_entry_file ctx q path f = (ctx', k)"
  shows "only_marks (the_db ctx) (the_db ctx')" "fs_step ctx ctx'"
    "search_cursor (the_db ctx') = search_cursor (the_db ctx)" "0 \<le> k"
  using assms by (auto simp: remove_entry_file_def only_marks_upd split: option.splits prod.splits if_splits)

lemma next_child_search:
  assumes "get_next_child_handle db = (db', r)"
  shows "r = None \<Longrightarrow> search_cursor db' = []" "r = Some q \<Longrightarrow> length (search_cursor db') < length (search_cursor db)"
    "entry_list db' = entry_list db"
  using assms next_child_shorter[of db db' q] by (auto simp: get_next_child_handle_def split: list.splits)

text \<open>The call for a subdirectory.\<close>

abbreviation delete_subtree :: "'w os \<Rightarrow> nat \<Rightarrow> fs_handles_db \<Rightarrow> 'w mtp_ctx \<Rightarrow> ptr \<Rightarrow> ('w mtp_ctx \<times> int) option" where
  "delete_subtree os d db ctx q \<equiv> (case d of 0 \<Rightarrow> Some (ctx, 1)
     | Suc d' \<Rightarrow> delete_loop os d' (Suc (length (entry_list db)))
         (set_db (init_search_handle db (e_handle (entry_at db q)) (e_storage (entry_at db q))) ctx) 0)"

text \<open>One round, as the cases it has.\<close>

lemma delete_loop_cases:
  assumes "get_next_child_handle (the_db ctx) = (db, r)"
  obtains (over) "r = None" "delete_loop os d (Suc n) ctx k = Some (set_db db ctx, k)"
  | (leaf) q c2 k2 where "r = Some q" "\<not> has_flag (e_flags (entry_at db q)) ENTRY_IS_DIR"
      "remove_entry_file (set_db db ctx) q (path_of os (set_db db ctx) q) (os_remove os) = (c2, k2)"
      "delete_loop os d (Suc n) ctx k = delete_loop os d n c2 (k + k2)"
  | (stuck) q where "r = Some q" "has_flag (e_flags (entry_at db q)) ENTRY_IS_DIR"
      "delete_subtree os d db (set_db db ctx) q = None" "delete_loop os d (Suc n) ctx k = None"
  | (kept) q c2 k2 where "r = Some q" "has_flag (e_flags (entry_at db q)) ENTRY_IS_DIR"
      "delete_subtree os d db (set_db db ctx) q = Some (c2, k2)" "k2 \<noteq> 0"
      "delete_loop os d (Suc n) ctx k = delete_loop os d n c2 (k + k2)"
  | (emptied) q c2 c3 k3 where "r = Some q" "has_flag (e_flags (entry_at db q)) ENTRY_IS_DIR"
      "delete_subtree os d db (set_db db ctx) q = Some (c2, 0)"
      "remove_entry_file c2 q (path_of os c2 q) (fs_remove_tree os) = (c3, k3)"
      "delete_loop os d (Suc n) ctx k = delete_loop os d n c3 (k + k3)"
proof (cases r)
  case None
  then show thesis using assms by (intro over) (simp_all add: delete_loop.simps(2))
next
  case (Some q)
  note st = delete_loop.simps(2)[of os d n ctx k, unfolded assms Some prod.case option.case Let_def]
  show thesis
  proof (cases "has_flag (e_flags (entry_at db q)) ENTRY_IS_DIR")
    case False
    obtain c2 k2 where r2: "remove_entry_file (set_db db ctx) q (path_of os (set_db db ctx) q) (os_remove os) = (c2, k2)"
      by force
    show thesis by (rule leaf[OF Some False r2]) (use st False r2 in simp)
  next
    case True
    show thesis
    proof (cases "delete_subtree os d db (set_db db ctx) q")
      case None
      show thesis by (rule stuck[OF Some True None]) (simp only: st None, simp add: True)
    next
      case s: (Some r2)
      obtain c2 k2 where r2: "delete_subtree os d db (set_db db ctx) q = Some (c2, k2)" using s by (cases r2) auto
      show thesis
      proof (cases "k2 = 0")
        case zero: True
        obtain c3 k3 where r3: "remove_entry_file c2 q (path_of os c2 q) (fs_remove_tree os) = (c3, k3)" by force
        show thesis
          by (rule emptied[OF Some True r2[unfolded zero] r3]) (simp only: st r2, simp add: True zero r3)
      next
        case False
        show thesis by (rule kept[OF Some True r2 False]) (simp only: st r2, simp add: True False)
      qed
    qed
  qed
qed

definition loop_facts :: "'w mtp_ctx \<Rightarrow> 'w mtp_ctx \<Rightarrow> bool" where
  "loop_facts ctx ctx' \<longleftrightarrow> only_marks (the_db ctx) (the_db ctx') \<and> fs_step ctx ctx' \<and>
     length (search_cursor (the_db ctx')) \<le> length (search_cursor (the_db ctx))"

lemma loop_facts_trans: "loop_facts a b \<Longrightarrow> loop_facts b c \<Longrightarrow> loop_facts a c"
  by (auto simp: loop_facts_def intro: only_marks_trans fs_step_trans)

lemma loop_facts_search: "get_next_child_handle (the_db ctx) = (db, r) \<Longrightarrow> loop_facts ctx (set_db db ctx)"
  using next_child_search[of "the_db ctx" db r] next_child_marks[of "the_db ctx" db r]
  by (cases r) (auto simp: loop_facts_def)

lemma loop_facts_remove: "remove_entry_file ctx q path f = (ctx', k) \<Longrightarrow> loop_facts ctx ctx'"
  using remove_entry_file_facts[of ctx q path f ctx' k] by (simp add: loop_facts_def)

lemma delete_loop_facts_at:
  assumes sub: "\<And>db c q c2 k2. delete_subtree os d db (set_db db c) q = Some (c2, k2) \<Longrightarrow> loop_facts (set_db db c) c2"
  shows "delete_loop os d n ctx k = Some (ctx', m) \<Longrightarrow> loop_facts ctx ctx' \<and> search_cursor (the_db ctx') = []"
proof (induction n arbitrary: ctx k)
  case 0 then show ?case by simp
next
  case (Suc n)
  obtain db r where r: "get_next_child_handle (the_db ctx) = (db, r)" by force
  note ctx1 = loop_facts_search[OF r]
  from r show ?case
  proof (cases rule: delete_loop_cases[of ctx db r os d n k])
    case over
    then show ?thesis using Suc.prems ctx1 next_child_search(1)[OF r] by simp
  next
    case (leaf q c2 k2)
    then show ?thesis
      using Suc.IH[of c2 "k + k2"] Suc.prems ctx1 loop_facts_remove[OF leaf(3)] by (auto intro: loop_facts_trans)
  next
    case (stuck q) then show ?thesis using Suc.prems by simp
  next
    case (kept q c2 k2)
    then show ?thesis
      using Suc.IH[of c2 "k + k2"] Suc.prems ctx1 sub[OF kept(3)] by (auto intro: loop_facts_trans)
  next
    case (emptied q c2 c3 k3)
    then show ?thesis
      using Suc.IH[of c3 "k + k3"] Suc.prems
        loop_facts_trans[OF loop_facts_trans[OF ctx1 sub[OF emptied(3)]] loop_facts_remove[OF emptied(4)]]
      by (auto intro: loop_facts_trans)
  qed
qed

lemma delete_loop_facts:
  "delete_loop os d n ctx k = Some (ctx', m) \<Longrightarrow>
     only_marks (the_db ctx) (the_db ctx') \<and> fs_step ctx ctx' \<and> search_cursor (the_db ctx') = []"
proof (induction d arbitrary: n ctx k ctx' m)
  case 0
  then show ?case
    using delete_loop_facts_at[of os 0 n ctx k ctx' m] by (auto simp: loop_facts_def)
next
  case (Suc d)
  have "loop_facts ctx ctx' \<and> search_cursor (the_db ctx') = []"
  proof (rule delete_loop_facts_at[OF _ Suc.prems])
    fix db c q c2 k2 assume "delete_subtree os (Suc d) db (set_db db c) q = Some (c2, k2)"
    from Suc.IH[OF this[unfolded nat.case]] show "loop_facts (set_db db c) c2" by (simp add: loop_facts_def)
  qed
  then show ?case by (simp add: loop_facts_def)
qed

text \<open>The rounds are enough.\<close>

lemma delete_loop_returns_at:
  assumes sub: "\<And>db c q. delete_subtree os d db (set_db db c) q \<noteq> None"
  shows "length (search_cursor (the_db ctx)) < n \<Longrightarrow> delete_loop os d n ctx k \<noteq> None"
proof (induction n arbitrary: ctx k)
  case 0 then show ?case by simp
next
  case (Suc n)
  obtain db r where r: "get_next_child_handle (the_db ctx) = (db, r)" by force
  have shorter: "length (search_cursor db) < n" if "r = Some q" for q
    using next_child_search(2)[OF r that] Suc.prems by simp
  have subf: "loop_facts (set_db db ctx) c2" if "delete_subtree os d db (set_db db ctx) q = Some (c2, k2)" for q c2 k2
  proof (cases d)
    case 0 then show ?thesis using that by (simp add: loop_facts_def)
  next
    case (Suc d')
    then show ?thesis using delete_loop_facts[OF that[unfolded Suc nat.case]] by (simp add: loop_facts_def)
  qed
  from r show ?case
  proof (cases rule: delete_loop_cases[of ctx db r os d n k])
    case over then show ?thesis by simp
  next
    case (leaf q c2 k2)
    then show ?thesis using Suc.IH[of c2 "k + k2"] shorter remove_entry_file_facts(3)[OF leaf(3)] by simp
  next
    case (stuck q) then show ?thesis using sub by blast
  next
    case (kept q c2 k2)
    then show ?thesis using Suc.IH[of c2 "k + k2"] shorter[OF kept(1)] subf[OF kept(3)] by (simp add: loop_facts_def)
  next
    case (emptied q c2 c3 k3)
    then show ?thesis
      using Suc.IH[of c3 "k + k3"] shorter[OF emptied(1)] subf[OF emptied(3)] remove_entry_file_facts(3)[OF emptied(4)]
      by (simp add: loop_facts_def)
  qed
qed

lemma delete_loop_returns: "length (search_cursor (the_db ctx)) < n \<Longrightarrow> delete_loop os d n ctx k \<noteq> None"
proof (induction d arbitrary: n ctx k)
  case 0
  then show ?case by (intro delete_loop_returns_at) simp_all
next
  case (Suc d)
  have "delete_subtree os (Suc d) db (set_db db c) q \<noteq> None" for db c q
    using Suc.IH[of "set_db (init_search_handle db (e_handle (entry_at db q)) (e_storage (entry_at db q))) (set_db db c)"
        "Suc (length (entry_list db))" 0]
    by (simp add: init_search_handle_def)
  then show ?case using Suc.prems by (intro delete_loop_returns_at)
qed

lemma delete_db_tree_facts:
  "\<exists>ctx' k. delete_db_tree os ctx p depth = Some (ctx', k) \<and> only_marks (the_db ctx) (the_db ctx') \<and> fs_step ctx ctx'"
proof -
  let ?c = "set_db (init_search_handle (the_db ctx) (e_handle (entry_at (the_db ctx) p)) (e_storage (entry_at (the_db ctx) p))) ctx"
  have "delete_db_tree os ctx p depth \<noteq> None"
    unfolding delete_db_tree_def Let_def by (rule delete_loop_returns) (simp add: init_search_handle_def)
  then obtain ctx' k where r: "delete_db_tree os ctx p depth = Some (ctx', k)" by auto
  have "fs_step ctx ?c" by simp
  moreover have "only_marks (the_db ctx) (the_db ?c)" by simp
  ultimately show ?thesis
    using r delete_loop_facts[OF r[unfolded delete_db_tree_def Let_def]]
    by (auto intro: fs_step_trans only_marks_trans)
qed

lemma mark_entry_facts:
  "only_marks (the_db ctx) (the_db (mark_entry os ctx p))" "fs_step ctx (mark_entry os ctx p)"
  "p \<in> ptrs (the_db ctx) \<Longrightarrow> deleted (entry_at (the_db (mark_entry os ctx p)) p)"
  "deleted (entry_at (the_db (mark_entry os ctx p)) q) \<Longrightarrow> q = p \<or> deleted (entry_at (the_db ctx) q)"
proof -
  show "only_marks (the_db ctx) (the_db (mark_entry os ctx p))"
    by (simp add: mark_entry_def drop_watch_db only_marks_upd)
  show "fs_step ctx (mark_entry os ctx p)"
    by (auto simp: mark_entry_def drop_watch_def Let_def inotify_handler_rmwatch_def)
  show "p \<in> ptrs (the_db ctx) \<Longrightarrow> deleted (entry_at (the_db (mark_entry os ctx p)) p)"
    by (auto simp: mark_entry_def drop_watch_db entry_at_upd mark_deleted_def deleted_def has_flag_or) (simp_all add: has_flag_def)
  show "deleted (entry_at (the_db (mark_entry os ctx p)) q) \<Longrightarrow> q = p \<or> deleted (entry_at (the_db ctx) q)"
    by (auto simp: mark_entry_def drop_watch_db entry_at_upd deleted_def split: if_splits)
qed

lemma delete_tree_facts:
  assumes "db_inv (the_db ctx)"
  shows "\<exists>ctx' r. delete_tree os ctx h = Some (ctx', r) \<and> only_marks (the_db ctx) (the_db ctx') \<and> fs_step ctx ctx' \<and>
    (r = 0 \<longrightarrow> (\<exists>p. live (the_db ctx) p \<and> e_handle (entry_at (the_db ctx) p) = h \<and> deleted (entry_at (the_db ctx') p)))"
proof (cases "get_entry_by_handle (storages ctx) (the_db ctx) h")
  case None then show ?thesis by (simp add: delete_tree_def)
next
  case (Some p)
  have p: "live (the_db ctx) p" "e_handle (entry_at (the_db ctx) p) = h" "p \<in> ptrs (the_db ctx)"
    using get_entry_by_handle_Some[OF assms Some] by (simp_all add: live_def)
  have fin: "only_marks (the_db ctx) (the_db (mark_entry os c p)) \<and> fs_step ctx (mark_entry os c p) \<and>
      deleted (entry_at (the_db (mark_entry os c p)) p)"
    if "only_marks (the_db ctx) (the_db c)" "fs_step ctx c" for c
    using that mark_entry_facts(1-3)[where ctx = c and os = os and p = p] p(3)
    by (auto intro: only_marks_trans fs_step_trans simp: only_marks_ptrs)
  show ?thesis
  proof (cases "path_of os ctx p")
    case None then show ?thesis using Some by (simp add: delete_tree_def)
  next
    case path: (Some pth)
    obtain c k where c: "delete_db_tree os ctx p 0 = Some (c, k)" "only_marks (the_db ctx) (the_db c)" "fs_step ctx c"
      using delete_db_tree_facts by blast
    show ?thesis
      using Some path c p fin[of "c\<lparr>world := fst (fs_remove_tree os (world c) pth)\<rparr>"]
        fin[of "ctx\<lparr>world := fst (os_remove os (world ctx) pth)\<rparr>"]
      by (auto simp: delete_tree_def split: prod.split)
  qed
qed

section \<open>A storage that goes away\<close>

lemma dropWhile_rest_subset: "dropWhile P xs = y # ys \<Longrightarrow> set (y # ys) \<subseteq> set xs"
  using set_dropWhileD[of _ P xs] by (metis subsetI)

lemma umount_loop_spec:
  assumes "set (if start = [] then entry_list (the_db ctx) else start) \<subseteq> ptrs (the_db ctx)"
  shows "only_marks (the_db ctx) (the_db (umount_loop os ctx sid start)) \<and> fs_step ctx (umount_loop os ctx sid start) \<and>
    (\<forall>q. deleted (entry_at (the_db (umount_loop os ctx sid start)) q) \<longleftrightarrow> deleted (entry_at (the_db ctx) q) \<or>
      q \<in> set (if start = [] then entry_list (the_db ctx) else start) \<and> e_storage (entry_at (the_db ctx) q) = sid)"
  using assms
proof (induction os ctx sid start rule: umount_loop.induct)
  case (1 os ctx sid start)
  let ?db = "the_db ctx" and ?l = "if start = [] then entry_list (the_db ctx) else start"
  let ?P = "\<lambda>p. \<not> (\<not> deleted (entry_at ?db p) \<and> e_storage (entry_at ?db p) = sid)"
  have g: "get_entry_by_storageid ?db sid start = dropWhile ?P ?l" by (simp add: get_entry_by_storageid_def)
  show ?case
  proof (cases "dropWhile ?P ?l")
    case Nil
    have u: "umount_loop os ctx sid start = ctx" by (subst umount_loop.simps) (simp only: g Nil list.case)
    have "\<forall>q \<in> set ?l. ?P q" using Nil unfolding dropWhile_eq_Nil_conv .
    then show ?thesis unfolding u by blast
  next
    case (Cons p rest)
    let ?c = "mark_entry os ctx p"
    have p: "\<not> deleted (entry_at ?db p)" "e_storage (entry_at ?db p) = sid" 
      using Cons unfolding dropWhile_eq_Cons_conv by blast+
    have sub: "set (p # rest) \<subseteq> ptrs ?db" using dropWhile_rest_subset[OF Cons] 1(2) by blast
    have split: "set ?l = set (takeWhile ?P ?l) \<union> {p} \<union> set rest"
      using arg_cong[OF takeWhile_dropWhile_id[of ?P ?l], of set] unfolding Cons by auto
    have key: "deleted (entry_at ?db q) \<or> q \<in> set ?l \<and> e_storage (entry_at ?db q) = sid
      \<longleftrightarrow> (deleted (entry_at ?db q) \<or> q = p) \<or> q \<in> set rest \<and> e_storage (entry_at ?db q) = sid" for q
      unfolding split using set_takeWhileD[of q ?P ?l] p(2) by blast
    have m: "only_marks ?db (the_db ?c)" "fs_step ctx ?c"
      "deleted (entry_at (the_db ?c) q) \<longleftrightarrow> deleted (entry_at ?db q) \<or> q = p" for q
      using mark_entry_facts[where ctx = ctx and os = os and p = p] mark_entry_facts(4)[where ctx = ctx and os = os and p = p and q = q]
        sub only_marks_entry(6)[of ?db "the_db ?c" q] by auto
    show ?thesis
    proof (cases "rest = []")
      case True
      then have "umount_loop os ctx sid start = ?c" by (subst umount_loop.simps) (simp add: g[unfolded Cons])
      then show ?thesis unfolding key using m True by simp
    next
      case False
      then have u: "umount_loop os ctx sid start = umount_loop os ?c sid rest"
        by (subst umount_loop.simps) (simp add: g[unfolded Cons] Let_def)
      have "set (if rest = [] then entry_list (the_db ?c) else rest) \<subseteq> ptrs (the_db ?c)"
        using False sub only_marks_ptrs[OF m(1)] by simp
      from 1(1)[OF g[unfolded Cons] refl False this]
      have IH: "only_marks (the_db ?c) (the_db (umount_loop os ?c sid rest))" "fs_step ?c (umount_loop os ?c sid rest)"
        "\<And>q. deleted (entry_at (the_db (umount_loop os ?c sid rest)) q) \<longleftrightarrow> deleted (entry_at (the_db ?c) q) \<or>
          q \<in> set rest \<and> e_storage (entry_at (the_db ?c) q) = sid"
        using False by simp_all
      show ?thesis
        unfolding u key IH(3) m(3) only_marks_entry(4)[OF m(1)]
        using only_marks_trans[OF m(1) IH(1)] fs_step_trans[OF m(2) IH(2)] by blast
    qed
  qed
qed

lemma db_inv_entry_list: "db_inv db \<Longrightarrow> set (entry_list db) = ptrs db"
  by (auto simp: db_inv_def ptrs_def)

lemma umount_store_facts:
  assumes "db_inv (the_db ctx)" "0 \<le> i" "i < 16" "root_path (storages ctx ! nat i) \<noteq> None"
  shows "only_marks (the_db ctx) (the_db (umount_store os ctx i u))"
    "live (the_db (umount_store os ctx i u)) q \<longleftrightarrow>
       live (the_db ctx) q \<and> e_storage (entry_at (the_db ctx) q) \<noteq> storage_id (storages ctx ! nat i)"
    "storages (umount_store os ctx i u) = (if u then (storages ctx)[nat i := (storages ctx ! nat i)
       \<lparr>flags := flags (storages ctx ! nat i) OR UMTP_STORAGE_NOTMOUNTED\<rparr>] else storages ctx)"
proof -
  let ?sid = "storage_id (storages ctx ! nat i)"
  let ?c = "umount_loop os ctx ?sid []"
  have sp: "only_marks (the_db ctx) (the_db ?c)" "fs_step ctx ?c"
    "\<And>q. deleted (entry_at (the_db ?c) q) \<longleftrightarrow> deleted (entry_at (the_db ctx) q) \<or>
      q \<in> ptrs (the_db ctx) \<and> e_storage (entry_at (the_db ctx) q) = ?sid"
    using umount_loop_spec[of "[]" ctx os ?sid] db_inv_entry_list[OF assms(1)] by simp_all
  have st: "storages ?c = storages ctx" using sp(2) by (rule fs_step_storages)
  have db: "the_db (umount_store os ctx i u) = the_db ?c"
    using assms by (simp add: umount_store_def Let_def the_db_def)
  show "only_marks (the_db ctx) (the_db (umount_store os ctx i u))" unfolding db by (rule sp(1))
  show "live (the_db (umount_store os ctx i u)) q \<longleftrightarrow>
       live (the_db ctx) q \<and> e_storage (entry_at (the_db ctx) q) \<noteq> ?sid"
    unfolding db live_def sp(3) only_marks_ptrs[OF sp(1)] by auto
  show "storages (umount_store os ctx i u) = (if u then (storages ctx)[nat i := (storages ctx ! nat i)
       \<lparr>flags := flags (storages ctx ! nat i) OR UMTP_STORAGE_NOTMOUNTED\<rparr>] else storages ctx)"
    using assms st by (simp add: umount_store_def Let_def)
qed

section \<open>Properties\<close>

text \<open>C14. Deleting an object always returns (the bounds of the model are enough), marks entries and drops
  watch points and changes nothing else of the database, whose invariant it keeps; a result of 0
  means that the object's entry is marked, and that its handle is not found any more.\<close>

theorem delete_tree_spec:
  assumes "db_inv (the_db ctx)" "h \<noteq> 0"
  shows "\<exists>ctx' r. delete_tree os ctx h = Some (ctx', r) \<and> only_marks (the_db ctx) (the_db ctx') \<and>
     db_inv (the_db ctx') \<and> usb_out ctx' = usb_out ctx \<and>
     (r = 0 \<longrightarrow> get_entry_by_handle (storages ctx) (the_db ctx) h \<noteq> None \<and>
                get_entry_by_handle (storages ctx') (the_db ctx') h = None)"
proof -
  obtain ctx' r where r: "delete_tree os ctx h = Some (ctx', r)" "only_marks (the_db ctx) (the_db ctx')" "fs_step ctx ctx'"
    "r = 0 \<longrightarrow> (\<exists>p. live (the_db ctx) p \<and> e_handle (entry_at (the_db ctx) p) = h \<and> deleted (entry_at (the_db ctx') p))"
    using delete_tree_facts[OF assms(1)] by blast
  have inv: "db_inv (the_db ctx')" using assms(1) r(2) by (rule only_marks_inv)
  have gone: "get_entry_by_handle (storages ctx') (the_db ctx') h = None" if "r = 0"
  proof (rule ccontr)
    have rz: "r = 0" by (rule that)
    assume "get_entry_by_handle (storages ctx') (the_db ctx') h \<noteq> None"
    then obtain q where "get_entry_by_handle (storages ctx') (the_db ctx') h = Some q" by auto
    from get_entry_by_handle_Some[OF inv this]
    have q: "live (the_db ctx') q" "e_handle (entry_at (the_db ctx) q) = h"
      using only_marks_entry(2)[OF r(2)] by auto
    obtain p where p: "live (the_db ctx) p" "e_handle (entry_at (the_db ctx) p) = h" "deleted (entry_at (the_db ctx') p)"
      using r(4) rz by blast
    have "q \<in> ptrs (the_db ctx)" using q(1) only_marks_ptrs[OF r(2)] by (simp add: live_def)
    then have "q = p" using p q(2) assms by (auto simp: db_inv_def handles_ok_def live_def)
    then show False using q(1) p(3) by (simp add: live_def)
  qed
  have found: "get_entry_by_handle (storages ctx) (the_db ctx) h \<noteq> None" if "r = 0"
  proof
    assume "get_entry_by_handle (storages ctx) (the_db ctx) h = None"
    then show False using r(1) that by (simp add: delete_tree_def)
  qed
  have "usb_out ctx' = usb_out ctx" using fs_step_shape[OF r(3)] by auto
  with r(1,2) inv gone found show ?thesis by blast
qed

lemma delete_tree_spec_witness:
  "\<exists>ctx'. delete_tree plain_os sample_ctx 1 = Some (ctx', 0) \<and> get_entry_by_handle (storages ctx') (the_db ctx') 1 = None"
proof -
  have "db_inv (the_db sample_ctx)" by (simp add: sample_db_inv)
  from delete_tree_spec[OF this, of 1 plain_os]
  obtain ctx' r where r: "delete_tree plain_os sample_ctx 1 = Some (ctx', r)"
    "r = 0 \<longrightarrow> get_entry_by_handle (storages ctx') (the_db ctx') 1 = None" by auto
  have "path_of plain_os sample_ctx (Suc 0) = Some [0x2F, 0x72, 0x2F, 0x61]"
    by (simp add: sample_path sample_pool)
  then have "\<exists>c. delete_tree plain_os sample_ctx 1 = Some (c, 0)"
    by (simp add: delete_tree_def sample_entry sample_pool has_flag_def)
  with r show ?thesis by auto
qed


text \<open>A folder 1 with a file 2 and an empty folder 3 in it.\<close>

definition sample_tree :: fs_handles_db where
  "sample_tree = (let fi = (\<lambda>dir nm. \<lparr>isdirectory = dir, filename = nm, fsize = 3\<rparr>);
       db1 = fst (alloc_root_entry init_fs_db 0xFFFF0001);
       db2 = fst (alloc_entry db1 (fi True [0x64]) 0 0xFFFF0001);
       db3 = fst (alloc_entry db2 (fi False [0x66]) 1 0xFFFF0001)
     in fst (alloc_entry db3 (fi True [0x73]) 1 0xFFFF0001))"

lemma sample_tree_pool:
  "pool sample_tree = [root_entry 0xFFFF0001,
     \<lparr>e_handle = 1, e_parent = 0, e_storage = 0xFFFF0001, e_name = [0x64], e_flags = ENTRY_IS_DIR, e_size = 3, e_date = 0, e_fd = 0, e_wd = -1\<rparr>,
     \<lparr>e_handle = 2, e_parent = 1, e_storage = 0xFFFF0001, e_name = [0x66], e_flags = 0, e_size = 3, e_date = 0, e_fd = 0, e_wd = -1\<rparr>,
     \<lparr>e_handle = 3, e_parent = 1, e_storage = 0xFFFF0001, e_name = [0x73], e_flags = ENTRY_IS_DIR, e_size = 3, e_date = 0, e_fd = 0, e_wd = -1\<rparr>]"
  "entry_list sample_tree = [3, 2, 1, 0]"
  by (simp_all add: sample_tree_def alloc_entry_push alloc_root_entry_push new_entry_def) (simp_all add: init_fs_db_def)


text \<open>C19. Unmounting a storage marks the live entries of that storage, all of them and no others, keeps the
  invariant of the database, and sets the flag of the storage when asked to.\<close>

theorem umount_store_exact:
  assumes "db_inv (the_db ctx)" "0 \<le> i" "i < 16" "root_path (storages ctx ! nat i) \<noteq> None"
  shows "db_inv (the_db (umount_store os ctx i u)) \<and>
    (\<forall>q. live (the_db (umount_store os ctx i u)) q \<longleftrightarrow>
       live (the_db ctx) q \<and> e_storage (entry_at (the_db ctx) q) \<noteq> storage_id (storages ctx ! nat i)) \<and>
    storages (umount_store os ctx i u) = (if u then (storages ctx)[nat i := (storages ctx ! nat i)
       \<lparr>flags := flags (storages ctx ! nat i) OR UMTP_STORAGE_NOTMOUNTED\<rparr>] else storages ctx)"
  using umount_store_facts[OF assms] only_marks_inv[OF assms(1)] by simp

lemma umount_store_exact_witness:
  "\<not> live (the_db (umount_store plain_os sample_ctx 0 False)) 1"
  using umount_store_exact[of sample_ctx 0 plain_os False]
  by (simp add: sample_db_inv sample_pool sample_storages_def sample_storage_def)

end
