(* ===== verification/Ops.thy ===== *)
theory Ops
  imports TreeOps
begin

text \<open>
  The MTP operations, one file each under \<open>src/mtp_operations/\<close>, and
  \<open>parse_incoming_dataset\<close> of \<open>src/mtp.c\<close>.

  An operation gets the packet (the contents of \<open>rdbuffer\<close>, parameters behind the header) and gives
  the context, the response code and the parameters of the response. \<open>None\<close> is an operation that
  does not return. \<open>inotify_mutex\<close> is taken by \<open>locked\<close>, which releases it on every exit of its
  body, as the operations do; a release always succeeds.
\<close>

type_synonym 'w op_result = "('w mtp_ctx \<times> u16 \<times> u32 list) option"

abbreviation reply :: "'w mtp_ctx \<Rightarrow> u16 \<Rightarrow> 'w op_result" where
  "reply ctx code \<equiv> Some (ctx, code, [])"

definition param :: "buffer \<Rightarrow> nat \<Rightarrow> u32" where
  "param packet k = peek packet (12 + 4 * k) 4"

definition in_session :: "'w mtp_ctx \<Rightarrow> 'w op_result \<Rightarrow> 'w op_result" where
  "in_session ctx res = (if fs_db ctx = None then reply ctx MTP_RESPONSE_SESSION_NOT_OPEN else res)"

definition locked :: "'w os \<Rightarrow> 'w mtp_ctx \<Rightarrow> ('w mtp_ctx \<Rightarrow> 'w op_result) \<Rightarrow> 'w op_result" where
  "locked os ctx body =
    (if os_lock_fails os (world ctx) then reply ctx MTP_RESPONSE_GENERAL_ERROR
     else map_option (\<lambda>(c, r). (unlock_inotify c, r)) (body (lock_inotify ctx)))"

section \<open>Data phases\<close>

text \<open>The container header goes into \<open>wrbuffer\<close>, the data set behind it; a negative size is an error.\<close>

definition build_data ::
  "'w mtp_ctx \<Rightarrow> buffer \<Rightarrow> ('w mtp_ctx \<Rightarrow> buffer \<Rightarrow> int \<Rightarrow> 'w mtp_ctx \<times> buffer \<times> int) \<Rightarrow> 'w mtp_ctx \<times> int" where
  "build_data ctx packet builder =
    (case build_response (hdr_tx_id packet) MTP_CONTAINER_TYPE_DATA (hdr_code packet) (wrbuffer ctx)
            (usb_wr_buffer_max_size ctx) [] of
       (buf, sz) \<Rightarrow>
         (if sz < 0 then (ctx\<lparr>wrbuffer := buf\<rparr>, -1)
          else (case builder (ctx\<lparr>wrbuffer := buf\<rparr>) (drop 12 buf) (usb_wr_buffer_max_size ctx - 12) of
             (ctx1, payload, tmp_sz) \<Rightarrow>
               (ctx1\<lparr>wrbuffer := take 12 buf @ payload\<rparr>, if tmp_sz < 0 then -1 else sz + tmp_sz))))"

text \<open>The size goes into the header, the buffer to the host, and an empty packet behind it if needed.\<close>

definition send_data :: "'w os \<Rightarrow> 'w mtp_ctx \<Rightarrow> int \<Rightarrow> 'w mtp_ctx" where
  "send_data os ctx sz =
    (let ctx1 = ctx\<lparr>wrbuffer := fst (poke32 (wrbuffer ctx) 0 (usb_wr_buffer_max_size ctx) (word_of_int sz))\<rparr>;
         ctx2 = fst (write_usb os ctx1 EP_DESCRIPTOR_IN (take (nat sz) (wrbuffer ctx1)))
     in fst (check_and_send_USB_ZLP os ctx2 sz))"

definition reply_data ::
  "'w os \<Rightarrow> 'w mtp_ctx \<Rightarrow> buffer \<Rightarrow> ('w mtp_ctx \<Rightarrow> buffer \<Rightarrow> int \<Rightarrow> 'w mtp_ctx \<times> buffer \<times> int) \<Rightarrow> 'w op_result" where
  "reply_data os ctx packet builder =
    (case build_data ctx packet builder of
       (ctx1, sz) \<Rightarrow> if sz < 0 then reply ctx1 MTP_RESPONSE_GENERAL_ERROR
                    else reply (send_data os ctx1 sz) MTP_RESPONSE_OK)"

text \<open>The same where an empty data set means that the property is unknown.\<close>

definition reply_nonempty ::
  "'w os \<Rightarrow> 'w mtp_ctx \<Rightarrow> buffer \<Rightarrow> ('w mtp_ctx \<Rightarrow> buffer \<Rightarrow> int \<Rightarrow> 'w mtp_ctx \<times> buffer \<times> int) \<Rightarrow> u16 \<Rightarrow> 'w op_result" where
  "reply_nonempty os ctx packet builder unsupported =
    (case build_data ctx packet builder of
       (ctx1, sz) \<Rightarrow> if sz < 0 then reply ctx1 MTP_RESPONSE_GENERAL_ERROR
                    else if sz > 12 then reply (send_data os ctx1 sz) MTP_RESPONSE_OK
                    else reply ctx1 unsupported)"

section \<open>Session and device\<close>

fun alloc_roots :: "'w os \<Rightarrow> 'w mtp_ctx \<Rightarrow> storages \<Rightarrow> 'w op_result" where
  "alloc_roots os ctx [] = reply ctx MTP_RESPONSE_OK"
| "alloc_roots os ctx (s # ss) =
    (if root_path s = None then reply ctx MTP_RESPONSE_OK
     else if os_lock_fails os (world ctx) then reply ctx MTP_RESPONSE_GENERAL_ERROR
     else alloc_roots os (set_db (fst (alloc_root_entry (the_db ctx) (storage_id s))) ctx) ss)"

definition mtp_op_OpenSession :: "'w os \<Rightarrow> 'w mtp_ctx \<Rightarrow> buffer \<Rightarrow> 'w op_result" where
  "mtp_op_OpenSession os ctx packet =
    (let sid = param packet 0 in
     if sid = 0 then reply ctx MTP_RESPONSE_INVALID_PARAMETER
     else if fs_db ctx \<noteq> None then Some (ctx, MTP_RESPONSE_SESSION_ALREADY_OPEN, [session_id ctx])
     else alloc_roots os (ctx\<lparr>session_id := sid, fs_db := Some init_fs_db\<rparr>) (storages ctx))"

definition mtp_op_CloseSession :: "'w os \<Rightarrow> 'w mtp_ctx \<Rightarrow> 'w op_result" where
  "mtp_op_CloseSession os ctx =
    in_session ctx (reply ((deinit_fs_db os ctx)\<lparr>fs_db := None\<rparr>) MTP_RESPONSE_OK)"

definition mtp_op_GetDeviceInfos :: "'w os \<Rightarrow> 'w mtp_ctx \<Rightarrow> buffer \<Rightarrow> 'w op_result" where
  "mtp_op_GetDeviceInfos os ctx packet = reply_data os ctx packet (\<lambda>c b m. (c, build_deviceinfo_dataset c b m))"

text \<open>When the mutex cannot be taken the code goes to its error exit, which releases it.\<close>

definition mtp_op_GetDevicePropDesc :: "'w os \<Rightarrow> 'w mtp_ctx \<Rightarrow> buffer \<Rightarrow> 'w op_result" where
  "mtp_op_GetDevicePropDesc os ctx packet =
    in_session ctx
      (if os_lock_fails os (world ctx) then reply (unlock_inotify ctx) MTP_RESPONSE_GENERAL_ERROR
       else locked os ctx (\<lambda>ctx.
         reply_nonempty os ctx packet (\<lambda>c b m. (c, build_device_properties_dataset os c b m (param packet 0)))
           MTP_RESPONSE_OPERATION_NOT_SUPPORTED))"

definition mtp_op_GetDevicePropValue :: "'w os \<Rightarrow> 'w mtp_ctx \<Rightarrow> buffer \<Rightarrow> 'w op_result" where
  "mtp_op_GetDevicePropValue os ctx packet =
    in_session ctx (locked os ctx (\<lambda>ctx.
      reply_nonempty os ctx packet (\<lambda>c b m. (c, build_DevicePropValue_dataset os c b m (param packet 0)))
        MTP_RESPONSE_DEVICE_PROP_NOT_SUPPORTED))"

section \<open>Storages\<close>

fun mounted_ids :: "storages \<Rightarrow> u32 list" where
  "mounted_ids [] = []"
| "mounted_ids (s # ss) =
    (if root_path s = None then []
     else if \<not> has_flag (flags s) UMTP_STORAGE_NOTMOUNTED \<and> \<not> has_flag (flags s) UMTP_STORAGE_LOCKED
     then storage_id s # mounted_ids ss else mounted_ids ss)"

definition ids_dataset :: "'w mtp_ctx \<Rightarrow> buffer \<Rightarrow> int \<Rightarrow> 'w mtp_ctx \<times> buffer \<times> int" where
  "ids_dataset ctx buffer maxsize =
    (let ids = mounted_ids (storages ctx) in
     (ctx\<lparr>temp_array := ids @ drop (length ids) (temp_array ctx)\<rparr>,
      poke_array buffer 0 maxsize (4 * length ids) 4 (concat (map le32 ids)) True))"

definition mtp_op_GetStorageIDs :: "'w os \<Rightarrow> 'w mtp_ctx \<Rightarrow> buffer \<Rightarrow> 'w op_result" where
  "mtp_op_GetStorageIDs os ctx packet = in_session ctx (reply_data os ctx packet ids_dataset)"

definition mtp_op_GetStorageInfo :: "'w os \<Rightarrow> 'w mtp_ctx \<Rightarrow> buffer \<Rightarrow> 'w op_result" where
  "mtp_op_GetStorageInfo os ctx packet =
    in_session ctx
      (let storageid = param packet 0 in
       if mtp_get_storage_root (storages ctx) storageid \<noteq> None
       then reply_data os ctx packet (\<lambda>c b m. (c, build_storageinfo_dataset os c b m storageid))
       else reply ctx MTP_RESPONSE_INVALID_STORAGE_ID)"

section \<open>The handles of a folder\<close>

text \<open>The folder asked for: its handle, its entry and its path.\<close>

definition handles_folder :: "'w os \<Rightarrow> 'w mtp_ctx \<Rightarrow> u32 \<Rightarrow> u32 \<Rightarrow> u32 \<times> ptr option \<times> cstr option" where
  "handles_folder os ctx storageid parent_handle =
    (if parent_handle \<noteq> 0 \<and> parent_handle \<noteq> 0xFFFFFFFF then
       (case get_entry_by_handle (storages ctx) (the_db ctx) parent_handle of
          Some p \<Rightarrow> (parent_handle, Some p, path_of os ctx p)
        | None \<Rightarrow> (parent_handle, None, None))
     else (0, get_entry_by_handle_and_storageid (the_db ctx) 0 storageid, mtp_get_storage_root (storages ctx) storageid))"

definition watch_folder :: "'w os \<Rightarrow> 'w mtp_ctx \<Rightarrow> ptr option \<Rightarrow> cstr \<Rightarrow> 'w mtp_ctx" where
  "watch_folder os ctx entry full_path =
    (case entry of
       Some p \<Rightarrow> (if has_flag (e_flags (entry_at (the_db ctx) p)) ENTRY_IS_DIR then
                    (case inotify_handler_addwatch os ctx full_path of
                       (ctx1, wd) \<Rightarrow> set_db (upd_entry p (\<lambda>e. e\<lparr>e_wd := wd\<rparr>) (the_db ctx1)) ctx1)
                  else ctx)
     | None \<Rightarrow> ctx)"

text \<open>The folder is read, its children counted and the search started again; \<open>None\<close>: no access.\<close>

definition handles_scan ::
  "'w os \<Rightarrow> 'w mtp_ctx \<Rightarrow> u32 \<Rightarrow> u32 \<Rightarrow> ptr option \<Rightarrow> cstr \<Rightarrow> 'w mtp_ctx \<times> nat option" where
  "handles_scan os ctx storageid parent_handle entry full_path =
    (let (ctx1, r) = set_storage_giduid os ctx storageid;
         (ctx2, ret) = (if r = 0 then scan_and_add_folder os ctx1 full_path parent_handle storageid else (ctx1, -1));
         ctx3 = fst (restore_giduid os ctx2)
     in if ret < 0 then (ctx3, None)
        else (let db = init_search_handle (the_db ctx3) parent_handle storageid
              in (watch_folder os (set_db db ctx3) entry full_path, Some (length (remaining_children db)))))"

text \<open>
  One packet of handles, from \<open>ofs\<close> on. A search that is over before the count is reached would be
  asked again for ever: \<open>None\<close>.
\<close>

fun handles_packet ::
  "nat \<Rightarrow> int \<Rightarrow> int \<Rightarrow> nat \<Rightarrow> fs_handles_db \<Rightarrow> buffer \<Rightarrow> int \<Rightarrow> nat \<Rightarrow> (fs_handles_db \<times> buffer \<times> int \<times> nat) option" where
  "handles_packet 0 max_packet maxsize nb db buf ofs handle_index = None"
| "handles_packet (Suc n) max_packet maxsize nb db buf ofs handle_index =
    (let (db1, entry) = get_next_child_handle db;
         (buf1, ofs1, index1) = (case entry of
            None \<Rightarrow> (buf, ofs, handle_index)
          | Some p \<Rightarrow> (case poke32 buf ofs maxsize (e_handle (entry_at db1 p)) of
              (b, k) \<Rightarrow> (b, k, Suc handle_index)))
     in if 0 \<le> ofs1 \<and> ofs1 < max_packet \<and> index1 < nb
        then handles_packet n max_packet maxsize nb db1 buf1 ofs1 index1
        else Some (db1, buf1, ofs1, index1))"

text \<open>The packets; the second component is false when a handle did not fit the buffer.\<close>

fun handles_loop :: "'w os \<Rightarrow> nat \<Rightarrow> 'w mtp_ctx \<Rightarrow> nat \<Rightarrow> int \<Rightarrow> nat \<Rightarrow> ('w mtp_ctx \<times> bool) option" where
  "handles_loop os 0 ctx nb ofs handle_index = None"
| "handles_loop os (Suc n) ctx nb ofs handle_index =
    (case handles_packet (Suc (length (search_cursor (the_db ctx)))) (uint (max_packet_size ctx))
            (usb_wr_buffer_max_size ctx) nb (the_db ctx) (wrbuffer ctx) ofs handle_index of
       None \<Rightarrow> None
     | Some (db, buf, ofs1, index1) \<Rightarrow>
        (let ctx1 = set_db db (ctx\<lparr>wrbuffer := buf\<rparr>) in
         if ofs1 < 0 then Some (ctx1, False)
         else (let ctx2 = fst (write_usb os ctx1 EP_DESCRIPTOR_IN (take (nat ofs1) buf)) in
               if index1 < nb then handles_loop os n ctx2 nb 0 index1 else Some (ctx2, True))))"

definition send_handles :: "'w os \<Rightarrow> 'w mtp_ctx \<Rightarrow> nat \<Rightarrow> 'w op_result" where
  "send_handles os ctx nb =
    (let maxsize = usb_wr_buffer_max_size ctx;
         buf1 = fst (poke32 (wrbuffer ctx) 0 maxsize (word_of_nat (12 + (1 + nb) * 4)));
         (buf2, ofs) = poke32 buf1 12 maxsize (word_of_nat nb)
     in (case handles_loop os (Suc nb) (ctx\<lparr>wrbuffer := buf2\<rparr>) nb ofs 0 of
           None \<Rightarrow> None
         | Some (ctx1, False) \<Rightarrow> reply ctx1 MTP_RESPONSE_GENERAL_ERROR
         | Some (ctx1, True) \<Rightarrow>
             reply (fst (check_and_send_USB_ZLP os ctx1 (int (12 + 4 + nb * 4)))) MTP_RESPONSE_OK))"

definition mtp_op_GetObjectHandles :: "'w os \<Rightarrow> 'w mtp_ctx \<Rightarrow> buffer \<Rightarrow> 'w op_result" where
  "mtp_op_GetObjectHandles os ctx packet =
    in_session ctx (locked os ctx (\<lambda>ctx.
      (let storageid = param packet 0;
           (buf, sz) = build_response (hdr_tx_id packet) MTP_CONTAINER_TYPE_DATA (hdr_code packet) (wrbuffer ctx)
                         (usb_wr_buffer_max_size ctx) [];
           ctx1 = ctx\<lparr>wrbuffer := buf\<rparr>
       in if sz < 0 then reply ctx1 MTP_RESPONSE_GENERAL_ERROR
          else if mtp_get_storage_root (storages ctx1) storageid = None then reply ctx1 MTP_RESPONSE_INVALID_STORAGE_ID
          else (case handles_folder os ctx1 storageid (param packet 2) of
             (parent_handle, entry, None) \<Rightarrow> send_handles os ctx1 0
           | (parent_handle, entry, Some full_path) \<Rightarrow>
              (case handles_scan os ctx1 storageid parent_handle entry full_path of
                 (ctx2, None) \<Rightarrow> reply ctx2 MTP_RESPONSE_ACCESS_DENIED
               | (ctx2, Some nb) \<Rightarrow> send_handles os ctx2 nb)))))"

section \<open>Descriptions of objects\<close>

definition reply_entry ::
  "'w mtp_ctx \<Rightarrow> u32 \<Rightarrow> (ptr \<Rightarrow> 'w op_result) \<Rightarrow> 'w op_result" where
  "reply_entry ctx handle f =
    (case get_entry_by_handle (storages ctx) (the_db ctx) handle of
       Some p \<Rightarrow> f p
     | None \<Rightarrow> reply ctx MTP_RESPONSE_INVALID_OBJECT_HANDLE)"

definition mtp_op_GetObjectInfo :: "'w os \<Rightarrow> 'w mtp_ctx \<Rightarrow> buffer \<Rightarrow> 'w op_result" where
  "mtp_op_GetObjectInfo os ctx packet =
    in_session ctx (locked os ctx (\<lambda>ctx.
      reply_entry ctx (param packet 0) (\<lambda>p.
        reply_data os ctx packet (\<lambda>c b m. build_objectinfo_dataset os c b m p))))"

definition mtp_op_GetObjectPropDesc :: "'w os \<Rightarrow> 'w mtp_ctx \<Rightarrow> buffer \<Rightarrow> 'w op_result" where
  "mtp_op_GetObjectPropDesc os ctx packet =
    in_session ctx (locked os ctx (\<lambda>ctx.
      reply_nonempty os ctx packet (\<lambda>c b m. (c, build_properties_dataset b m (param packet 0) (param packet 1)))
        MTP_RESPONSE_OPERATION_NOT_SUPPORTED))"

text \<open>The answer to an unsupported format is overwritten on every way out.\<close>

definition mtp_op_GetObjectPropList :: "'w os \<Rightarrow> 'w mtp_ctx \<Rightarrow> buffer \<Rightarrow> 'w op_result" where
  "mtp_op_GetObjectPropList os ctx packet =
    in_session ctx (locked os ctx (\<lambda>ctx.
      (let handle = param packet 0; prop_code = param packet 2; prop_group_code = param packet 3
       in if prop_code = 0 \<and> prop_group_code = 0 then reply ctx MTP_RESPONSE_PARAMETER_NOT_SUPPORTED
          else reply_entry ctx handle (\<lambda>p.
            reply_data os ctx packet (\<lambda>c b m. build_objectproplist_dataset os c b m p handle prop_code)))))"

definition mtp_op_GetObjectPropsSupported :: "'w os \<Rightarrow> 'w mtp_ctx \<Rightarrow> buffer \<Rightarrow> 'w op_result" where
  "mtp_op_GetObjectPropsSupported os ctx packet =
    in_session ctx (reply_data os ctx packet (\<lambda>c b m. (c, build_properties_supported_dataset b m (param packet 0))))"

definition mtp_op_GetObjectPropValue :: "'w os \<Rightarrow> 'w mtp_ctx \<Rightarrow> buffer \<Rightarrow> 'w op_result" where
  "mtp_op_GetObjectPropValue os ctx packet =
    in_session ctx (locked os ctx (\<lambda>ctx.
      (let handle = param packet 0 in
       reply_entry ctx handle (\<lambda>p.
         reply_data os ctx packet (\<lambda>c b m.
           (c, build_ObjectPropValue_dataset (storages c) (the_db c) b m handle (param packet 1)))))))"

definition mtp_op_GetObjectReferences :: "'w os \<Rightarrow> 'w mtp_ctx \<Rightarrow> buffer \<Rightarrow> 'w op_result" where
  "mtp_op_GetObjectReferences os ctx packet =
    in_session ctx (locked os ctx (\<lambda>ctx.
      reply_entry ctx (param packet 0) (\<lambda>p. reply_data os ctx packet (\<lambda>c b m. (c, poke32 b 0 m 0)))))"

section \<open>Contents of objects\<close>

definition mtp_op_GetObject :: "'w os \<Rightarrow> 'w mtp_ctx \<Rightarrow> buffer \<Rightarrow> 'w op_result" where
  "mtp_op_GetObject os ctx packet =
    in_session ctx (locked os ctx (\<lambda>ctx.
      (let handle = param packet 0 in
       reply_entry ctx handle (\<lambda>p.
         (case check_handle_access (storages ctx) (the_db ctx) (Some p) handle False of
            Some response_code \<Rightarrow> reply ctx response_code
          | None \<Rightarrow>
             (case build_response (hdr_tx_id packet) MTP_CONTAINER_TYPE_DATA (hdr_code packet) (wrbuffer ctx)
                     (usb_wr_buffer_max_size ctx) [] of
                (buf, sz) \<Rightarrow>
                  (if sz < 0 then reply (ctx\<lparr>wrbuffer := buf\<rparr>) MTP_RESPONSE_GENERAL_ERROR
                   else (case send_file_data os (ctx\<lparr>wrbuffer := buf\<rparr>) p 0 (e_size (entry_at (the_db ctx) p)) of
                      None \<Rightarrow> None
                    | Some (ctx1, actualsize) \<Rightarrow>
                        (if actualsize \<ge> 0 then reply ctx1 MTP_RESPONSE_OK
                         else if actualsize = -2 then reply ctx1 MTP_RESPONSE_NO_RESPONSE
                         else reply ctx1 MTP_RESPONSE_INCOMPLETE_TRANSFER))))))))) "

text \<open>The offset is a signed 64-bit value, the size a signed 32-bit one.\<close>

definition partial_range :: "buffer \<Rightarrow> int \<times> int" where
  "partial_range packet =
    (if hdr_code packet = MTP_OPERATION_GET_PARTIAL_OBJECT_64
     then (sint (peek64 packet 16 8), sint (peek packet 24 4))
     else (uint (param packet 1), sint (param packet 2)))"

definition mtp_op_GetPartialObject :: "'w os \<Rightarrow> 'w mtp_ctx \<Rightarrow> buffer \<Rightarrow> 'w op_result" where
  "mtp_op_GetPartialObject os ctx packet =
    in_session ctx (locked os ctx (\<lambda>ctx.
      (let handle = param packet 0;
           (offset, maxsize) = partial_range packet;
           entry = get_entry_by_handle (storages ctx) (the_db ctx) handle
       in (case check_handle_access (storages ctx) (the_db ctx) entry handle False of
             Some response_code \<Rightarrow> reply ctx response_code
           | None \<Rightarrow>
              (case entry of
                 None \<Rightarrow> reply ctx MTP_RESPONSE_INVALID_OBJECT_HANDLE
               | Some p \<Rightarrow>
                  (case build_response (hdr_tx_id packet) MTP_CONTAINER_TYPE_DATA (hdr_code packet) (wrbuffer ctx)
                          (usb_wr_buffer_max_size ctx) [] of
                     (buf, sz) \<Rightarrow>
                       (if sz < 0 then reply (ctx\<lparr>wrbuffer := buf\<rparr>) MTP_RESPONSE_GENERAL_ERROR
                        else (case send_file_data os (ctx\<lparr>wrbuffer := buf\<rparr>) p offset maxsize of
                           None \<Rightarrow> None
                         | Some (ctx1, actualsize) \<Rightarrow>
                             (if actualsize \<ge> 0 then Some (ctx1, MTP_RESPONSE_OK, [word_of_int actualsize])
                              else if actualsize = -2 then reply ctx1 MTP_RESPONSE_NO_RESPONSE
                              else reply ctx1 MTP_RESPONSE_OK)))))))))"

text \<open>The command of SendPartialObject carries handle, offset and size; SendObject has them from SendObjectInfo.\<close>

definition partial_command :: "'w mtp_ctx \<Rightarrow> buffer \<Rightarrow> 'w mtp_ctx" where
  "partial_command ctx packet =
    (if hdr_code packet = MTP_OPERATION_SEND_PARTIAL_OBJECT \<and> hdr_operation packet = MTP_CONTAINER_TYPE_COMMAND
     then ctx\<lparr>SendObjInfoHandle := param packet 0, SendObjInfoOffset := sint (peek64 packet 16 8),
              SendObjInfoSize := uint (peek packet 24 4)\<rparr>
     else ctx)"

definition send_object_data :: "'w os \<Rightarrow> 'w mtp_ctx \<Rightarrow> buffer \<Rightarrow> int \<Rightarrow> 'w op_result" where
  "send_object_data os ctx packet rawsize =
    reply_entry ctx (SendObjInfoHandle ctx) (\<lambda>p.
      (case check_handle_access (storages ctx) (the_db ctx) (Some p) 0 True of
         Some response_code \<Rightarrow> reply ctx response_code
       | None \<Rightarrow>
          (let partial = (hdr_code packet = MTP_OPERATION_SEND_PARTIAL_OBJECT);
               (ctx1, file) = entry_open os ctx p
                 (if partial then [O_RDWR, O_LARGEFILE] else [O_CREAT, O_WRONLY, O_TRUNC, O_LARGEFILE])
           in if file = -1 then reply ctx1 MTP_RESPONSE_GENERAL_ERROR
              else map_option (\<lambda>(ctx2, code). (ctx2, code, [])) (receive_object os ctx1 p file packet rawsize partial))))"

definition mtp_op_SendObject :: "'w os \<Rightarrow> 'w mtp_ctx \<Rightarrow> buffer \<Rightarrow> int \<Rightarrow> 'w op_result" where
  "mtp_op_SendObject os ctx packet rawsize =
    in_session ctx (locked os ctx (\<lambda>ctx.
      (let ctx1 = partial_command ctx packet in
       if SendObjInfoHandle ctx1 \<noteq> 0xFFFFFFFF then
         (if hdr_operation packet = MTP_CONTAINER_TYPE_DATA then send_object_data os ctx1 packet rawsize
          else if hdr_operation packet = MTP_CONTAINER_TYPE_COMMAND then
            (case check_handle_access (storages ctx1) (the_db ctx1) None (SendObjInfoHandle ctx1) True of
               Some response_code \<Rightarrow> reply ctx1 response_code
             | None \<Rightarrow> reply ctx1 MTP_RESPONSE_NO_RESPONSE)
          else reply ctx1 MTP_RESPONSE_GENERAL_ERROR)
       else reply ctx1 MTP_RESPONSE_INVALID_OBJECT_HANDLE)))"

section \<open>New objects\<close>

text \<open>The name in an ObjectInfo data set; \<open>None\<close>: malformed.\<close>

definition incoming_name :: "buffer \<Rightarrow> cstr option" where
  "incoming_name dataset =
    (let string_len = unat (peek dataset 0x34 1);
         unicode_str = concat (map (\<lambda>i. le16 (ucast (peek dataset (0x35 + i * 2) 2))) [0..<string_len])
                       @ replicate (2 * (257 - string_len)) 0
     in (case unicode2charstring unicode_str 257 of
           None \<Rightarrow> None
         | Some (tmp_str, _) \<Rightarrow>
            (case sanitize_name (Some tmp_str) 257 of
               (Some nm, ret) \<Rightarrow> if ret = 1 then Some nm else None
             | (None, _) \<Rightarrow> None)))"

definition create_folder ::
  "'w os \<Rightarrow> 'w mtp_ctx \<Rightarrow> ptr \<Rightarrow> cstr \<Rightarrow> u32 \<Rightarrow> u32 \<Rightarrow> 'w mtp_ctx \<times> u16 \<times> u32" where
  "create_folder os ctx p nm parent_handle sid =
    (case path_of os ctx p of
       None \<Rightarrow> (ctx, MTP_RESPONSE_OK, 0xFFFFFFFF)
     | Some parent_folder \<Rightarrow>
        (let (ctx1, r) = set_storage_giduid os ctx (e_storage (entry_at (the_db ctx) p));
             (ctx2, ret) = (if r = 0 then (case os_mkdir os (world ctx1) (parent_folder @ SLASH # nm) of
                               (w, k) \<Rightarrow> (ctx1\<lparr>world := w\<rparr>, k)) else (ctx1, -1));
             ctx3 = fst (restore_giduid os ctx2)
         in if ret \<noteq> 0 then (ctx3, MTP_RESPONSE_ACCESS_DENIED, 0xFFFFFFFF)
            else (case add_entry (the_db ctx3) \<lparr>isdirectory = True, filename = nm, fsize = 0\<rparr> parent_handle sid of
               (db, q) \<Rightarrow> (set_db db ctx3, MTP_RESPONSE_OK, e_handle (entry_at db q)))))"

definition create_file ::
  "'w os \<Rightarrow> 'w mtp_ctx \<Rightarrow> ptr \<Rightarrow> cstr \<Rightarrow> u32 \<Rightarrow> u32 \<Rightarrow> u32 \<Rightarrow> 'w mtp_ctx \<times> u16 \<times> u32" where
  "create_file os ctx p nm objectsize parent_handle sid =
    (case path_of os ctx p of
       None \<Rightarrow> (ctx\<lparr>SendObjInfoHandle := 0xFFFFFFFF, SendObjInfoSize := 0, SendObjInfoOffset := 0\<rparr>,
                MTP_RESPONSE_OK, 0xFFFFFFFF)
     | Some parent_folder \<Rightarrow>
        (let (ctx1, r) = set_storage_giduid os ctx sid;
             (ctx2, file) = (if r = 0 then (case os_open os (world ctx1) (parent_folder @ SLASH # nm)
                                  [O_WRONLY, O_CREAT, O_TRUNC, O_LARGEFILE] of
                               (w, k) \<Rightarrow> (ctx1\<lparr>world := w\<rparr>, k)) else (ctx1, -1));
             ctx3 = fst (restore_giduid os ctx2)
         in if file = -1 then (ctx3, MTP_RESPONSE_ACCESS_DENIED, 0xFFFFFFFF)
            else (let ctx4 = ctx3\<lparr>world := os_close os (world ctx3) file\<rparr>;
                      (db, q) = add_entry (the_db ctx4) \<lparr>isdirectory = False, filename = nm, fsize = uint objectsize\<rparr>
                                  parent_handle sid;
                      new_handle = e_handle (entry_at db q)
                  in ((set_db db ctx4)\<lparr>SendObjInfoHandle := new_handle, SendObjInfoSize := uint objectsize,
                        SendObjInfoOffset := 0\<rparr>, MTP_RESPONSE_OK, new_handle))))"

text \<open>The context, the response and the handle of the new object; OK whatever the branch that is not a return.\<close>

definition parse_incoming_dataset :: "'w os \<Rightarrow> 'w mtp_ctx \<Rightarrow> buffer \<Rightarrow> u32 \<Rightarrow> u32 \<Rightarrow> 'w mtp_ctx \<times> u16 \<times> u32" where
  "parse_incoming_dataset os ctx datain parent sid =
    (let parent_handle = (if parent = 0xFFFFFFFF then 0 else parent);
         storage_flags = mtp_get_storage_flags (storages ctx) sid;
         dataset = drop 12 datain
     in if storage_flags = 0xFFFFFFFF then (ctx, MTP_RESPONSE_INVALID_STORAGE_ID, 0xFFFFFFFF)
        else if has_flag storage_flags UMTP_STORAGE_READONLY then (ctx, MTP_RESPONSE_STORE_READ_ONLY, 0xFFFFFFFF)
        else if hdr_code datain \<noteq> MTP_OPERATION_SEND_OBJECT_INFO then (ctx, MTP_RESPONSE_OK, 0xFFFFFFFF)
        else (case incoming_name dataset of
           None \<Rightarrow> (ctx, MTP_RESPONSE_INVALID_DATASET, 0xFFFFFFFF)
         | Some nm \<Rightarrow>
            (case get_entry_by_handle_and_storageid (the_db ctx) parent_handle sid of
               None \<Rightarrow> (ctx, MTP_RESPONSE_OK, 0xFFFFFFFF)
             | Some p \<Rightarrow>
                (if \<not> has_flag (e_flags (entry_at (the_db ctx) p)) ENTRY_IS_DIR then (ctx, MTP_RESPONSE_OK, 0xFFFFFFFF)
                 else if peek dataset 4 2 = MTP_FORMAT_ASSOCIATION
                 then create_folder os ctx p nm parent_handle sid
                 else create_file os ctx p nm (peek dataset 8 4) parent_handle sid))))"

definition mtp_op_SendObjectInfo :: "'w os \<Rightarrow> 'w mtp_ctx \<Rightarrow> buffer \<Rightarrow> 'w op_result" where
  "mtp_op_SendObjectInfo os ctx packet =
    in_session ctx (locked os ctx (\<lambda>ctx.
      (let storageid = param packet 0; parent_handle = param packet 1;
           ctx1 = fst (read_block os ctx)
       in (case parse_incoming_dataset os ctx1 (rdbuffer2 ctx1) parent_handle storageid of
             (ctx2, response_code, new_handle) \<Rightarrow>
               Some (ctx2, response_code,
                 if response_code = MTP_RESPONSE_OK then [storageid, parent_handle, new_handle] else [])))))"

definition mtp_op_SetObjectPropValue :: "'w os \<Rightarrow> 'w mtp_ctx \<Rightarrow> buffer \<Rightarrow> 'w op_result" where
  "mtp_op_SetObjectPropValue os ctx packet =
    in_session ctx
      (if hdr_operation packet = MTP_CONTAINER_TYPE_COMMAND then
         reply (ctx\<lparr>SetObjectPropValue_Handle := param packet 0, SetObjectPropValue_PropCode := param packet 1\<rparr>)
           MTP_RESPONSE_NO_RESPONSE
       else if hdr_operation packet = MTP_CONTAINER_TYPE_DATA then
         (case setObjectPropValue os ctx packet (SetObjectPropValue_Handle ctx) (SetObjectPropValue_PropCode ctx) of
            (ctx1, response_code) \<Rightarrow> reply (ctx1\<lparr>SetObjectPropValue_Handle := 0xFFFFFFFF\<rparr>) response_code)
       else reply ctx MTP_RESPONSE_OPERATION_NOT_SUPPORTED)"

section \<open>Deletion and editing\<close>

definition mtp_op_DeleteObject :: "'w os \<Rightarrow> 'w mtp_ctx \<Rightarrow> buffer \<Rightarrow> 'w op_result" where
  "mtp_op_DeleteObject os ctx packet =
    in_session ctx (locked os ctx (\<lambda>ctx.
      (let handle = param packet 0 in
       (case check_handle_access (storages ctx) (the_db ctx) None handle True of
          Some response_code \<Rightarrow> reply ctx response_code
        | None \<Rightarrow>
           (case get_entry_by_handle (storages ctx) (the_db ctx) handle of
              None \<Rightarrow> reply (fst (restore_giduid os ctx)) MTP_RESPONSE_INVALID_OBJECT_HANDLE
            | Some p \<Rightarrow>
               (case set_storage_giduid os ctx (e_storage (entry_at (the_db ctx) p)) of
                  (ctx1, r) \<Rightarrow>
                    (if r \<noteq> 0 then reply (fst (restore_giduid os ctx1)) MTP_RESPONSE_OBJECT_WRITE_PROTECTED
                     else (case delete_tree os ctx1 handle of
                        None \<Rightarrow> None
                      | Some (ctx2, ret) \<Rightarrow>
                          reply (fst (restore_giduid os ctx2))
                            (if ret \<noteq> 0 then MTP_RESPONSE_OBJECT_WRITE_PROTECTED else MTP_RESPONSE_OK)))))))))"

definition mtp_op_TruncateObject :: "'w os \<Rightarrow> 'w mtp_ctx \<Rightarrow> buffer \<Rightarrow> 'w op_result" where
  "mtp_op_TruncateObject os ctx packet =
    in_session ctx (locked os ctx (\<lambda>ctx.
      (let handle = param packet 0; offset = sint (peek64 packet 16 8) in
       reply_entry ctx handle (\<lambda>p.
         (case check_handle_access (storages ctx) (the_db ctx) (Some p) handle True of
            Some response_code \<Rightarrow> reply ctx response_code
          | None \<Rightarrow>
             (case path_of os ctx p of
                None \<Rightarrow> reply ctx MTP_RESPONSE_GENERAL_ERROR
              | Some full_path \<Rightarrow>
                 (case os_truncate os (world ctx) full_path offset of
                    (w, None) \<Rightarrow> reply (ctx\<lparr>world := w\<rparr>) MTP_RESPONSE_OK
                  | (w, Some err) \<Rightarrow> reply (ctx\<lparr>world := w\<rparr>) (posix_to_mtp_errcode err))))))))"

definition edit_access :: "'w mtp_ctx \<Rightarrow> u32 \<Rightarrow> u16" where
  "edit_access ctx handle =
    (case check_handle_access (storages ctx) (the_db ctx) None handle True of
       Some response_code \<Rightarrow> response_code
     | None \<Rightarrow> MTP_RESPONSE_OK)"

definition mtp_op_BeginEditObject :: "'w os \<Rightarrow> 'w mtp_ctx \<Rightarrow> buffer \<Rightarrow> 'w op_result" where
  "mtp_op_BeginEditObject os ctx packet =
    in_session ctx (locked os ctx (\<lambda>ctx. reply ctx (edit_access ctx (param packet 0))))"

definition mtp_op_EndEditObject :: "'w os \<Rightarrow> 'w mtp_ctx \<Rightarrow> buffer \<Rightarrow> 'w op_result" where
  "mtp_op_EndEditObject os ctx packet =
    in_session ctx (locked os ctx (\<lambda>ctx.
      (let handle = param packet 0 in
       reply (entry_close os ctx (get_entry_by_handle (storages ctx) (the_db ctx) handle)) (edit_access ctx handle))))"

section \<open>The packets of a handle list\<close>


lemma next_child_remaining:
  "get_next_child_handle db = (db', None) \<Longrightarrow> remaining_children db = []"
  "get_next_child_handle db = (db', Some p) \<Longrightarrow> remaining_children db = p # remaining_children db'"
  by (subst remaining_children.simps, simp)+

lemma next_child_pool: "get_next_child_handle db = (db', r) \<Longrightarrow> pool db' = pool db"
  by (auto simp: get_next_child_handle_def split: list.splits)

definition handle_bytes :: "fs_handles_db \<Rightarrow> ptr list \<Rightarrow> byte list" where
  "handle_bytes db ps = concat (map (\<lambda>p. le32 (e_handle (entry_at db p))) ps)"

lemma length_handle_bytes [simp]: "length (handle_bytes db ps) = 4 * length ps"
  by (induction ps) (auto simp: handle_bytes_def le32_def)

lemma handles_packet_ok:
  assumes "length (search_cursor db) < n" "remaining_children db \<noteq> []" "nb = index + length (remaining_children db)"
    "0 \<le> ofs" "ofs < mp" "4 dvd mp - ofs" "mp < maxsize" "maxsize \<le> int (length buf)"
    "k = min (length (remaining_children db)) (nat ((mp - ofs) div 4))"
  shows "\<exists>db' buf'. handles_packet n mp maxsize nb db buf ofs index = Some (db', buf', ofs + 4 * int k, index + k) \<and>
    remaining_children db' = drop k (remaining_children db) \<and> pool db' = pool db \<and> length buf' = length buf \<and>
    take (nat (ofs + 4 * int k)) buf' = take (nat ofs) buf @ handle_bytes db (take k (remaining_children db))"
  using assms
proof (induction n arbitrary: db buf ofs index k)
  case 0 then show ?case by simp
next
  case (Suc n)
  obtain db1 r where r: "get_next_child_handle db = (db1, r)" by force
  obtain p where p: "r = Some p" using next_child_remaining(1) r Suc.prems(2) by (cases r) auto
  define ps where "ps = remaining_children db1"
  have ps: "remaining_children db = p # ps" using next_child_remaining(2) r p by (simp add: ps_def)
  have pool: "pool db1 = pool db" using next_child_pool[OF r] .
  have shorter: "length (search_cursor db1) < n" using next_child_shorter[of db db1 p] r p Suc.prems(1) by simp
  obtain m where m: "mp - ofs = 4 * m" "0 < m" using Suc.prems(5,6) by (auto elim!: dvdE)
  let ?h = "le32 (e_handle (entry_at db p))"
  let ?buf = "write_at buf (nat ofs) ?h"
  have h4: "length ?h = 4" by (simp add: le32_def)
  have room: "nat ofs + length ?h \<le> length buf" unfolding h4 using Suc.prems(4,5,7,8) m by linarith
  have pk: "poke32 buf ofs maxsize (e_handle (entry_at db p)) = (?buf, ofs + 4)"
    by (rule poke32_at) (use Suc.prems m in linarith)+
  have len: "length ?buf = length buf" using room by simp
  have tk: "take (nat (ofs + 4)) ?buf = take (nat ofs) buf @ ?h"
  proof -
    have "nat (ofs + 4) = nat ofs + length ?h" unfolding h4 using Suc.prems(4) by linarith
    then show ?thesis using take_write_at_end[OF room] by simp
  qed
  have step: "handles_packet (Suc n) mp maxsize nb db buf ofs index
      = (if ofs + 4 < mp \<and> Suc index < nb then handles_packet n mp maxsize nb db1 ?buf (ofs + 4) (Suc index)
         else Some (db1, ?buf, ofs + 4, Suc index))"
    using r p pk pool Suc.prems(4) by simp
  show ?case
  proof (cases "ofs + 4 < mp \<and> Suc index < nb")
    case True
    have ne: "ps \<noteq> []" using True Suc.prems(3) ps by auto
    have m1: "(mp - ofs) div 4 = m" "(mp - (ofs + 4)) div 4 = m - 1" "mp - (ofs + 4) = 4 * (m - 1)" using m(1) by auto
    obtain db' buf' where IH: "handles_packet n mp maxsize nb db1 ?buf (ofs + 4) (Suc index)
        = Some (db', buf', ofs + 4 + 4 * int (min (length ps) (nat ((mp - (ofs + 4)) div 4))), Suc index + min (length ps) (nat ((mp - (ofs + 4)) div 4)))"
      "remaining_children db' = drop (min (length ps) (nat ((mp - (ofs + 4)) div 4))) ps" "pool db' = pool db1" "length buf' = length ?buf"
      "take (nat (ofs + 4 + 4 * int (min (length ps) (nat ((mp - (ofs + 4)) div 4))))) buf'
        = take (nat (ofs + 4)) ?buf @ handle_bytes db1 (take (min (length ps) (nat ((mp - (ofs + 4)) div 4))) ps)"
      using Suc.IH[OF shorter, of "Suc index" "ofs + 4" ?buf "min (length ps) (nat ((mp - (ofs + 4)) div 4))"]
        ne Suc.prems(3,4,7,8) ps True m1(3) len unfolding ps_def[symmetric] by auto
    have k: "k = Suc (min (length ps) (nat ((mp - (ofs + 4)) div 4)))"
      using Suc.prems(9) ps m(2) unfolding m1(1,2) by (simp add: min_def) linarith
    show ?thesis
      unfolding step if_P[OF True] k ps
      using IH tk pool len by (intro exI[of _ db'] exI[of _ buf']) (simp add: handle_bytes_def algebra_simps)
  next
    case False
    have "k = 1"
    proof (cases "ps = []")
      case True then show ?thesis using Suc.prems(9) ps m by (simp add: min_def)
    next
      case ne: False
      then have "m = 1" using False Suc.prems(3) ps m by (cases ps) auto
      then show ?thesis using Suc.prems(9) ps m by (simp add: min_def)
    qed
    then show ?thesis unfolding step if_not_P[OF False] ps using pool len tk
      by (simp add: handle_bytes_def ps_def)
  qed
qed


lemma handles_loop_ok:
  assumes "link_up os ctx" "length (remaining_children (the_db ctx)) < n"
    "remaining_children (the_db ctx) \<noteq> [] \<or> index = nb" "nb = index + length (remaining_children (the_db ctx))"
    "0 \<le> ofs" "ofs < uint (max_packet_size ctx)" "4 dvd uint (max_packet_size ctx) - ofs" "4 dvd uint (max_packet_size ctx)"
    "uint (max_packet_size ctx) < usb_wr_buffer_max_size ctx" "usb_wr_buffer_max_size ctx \<le> int (length (wrbuffer ctx))"
  shows "\<exists>ctx'. handles_loop os n ctx nb ofs index = Some (ctx', True) \<and> link_up os ctx' \<and>
    max_packet_size ctx' = max_packet_size ctx \<and>
    usb_out ctx' = usb_out ctx @ map (Pair 0) (chunks (unat (max_packet_size ctx))
      (take (nat ofs) (wrbuffer ctx) @ handle_bytes (the_db ctx) (remaining_children (the_db ctx))))"
  using assms
proof (induction n arbitrary: ctx index ofs)
  case 0 then show ?case by simp
next
  case (Suc n)
  let ?db = "the_db ctx" and ?mp = "uint (max_packet_size ctx)"
  define ps where "ps = remaining_children ?db"
  define k where "k = min (length ps) (nat ((?mp - ofs) div 4))"
  have mp: "nat ?mp = unat (max_packet_size ctx)" by simp
  have pre: "length (take (nat ofs) (wrbuffer ctx)) = nat ofs" using Suc.prems(5,6,9,10) by simp
  have pk: "\<exists>db' buf'. handles_packet (Suc (length (search_cursor ?db))) ?mp (usb_wr_buffer_max_size ctx) nb ?db (wrbuffer ctx) ofs index
      = Some (db', buf', ofs + 4 * int k, index + k) \<and>
    remaining_children db' = drop k ps \<and> pool db' = pool ?db \<and> length buf' = length (wrbuffer ctx) \<and>
    take (nat (ofs + 4 * int k)) buf' = take (nat ofs) (wrbuffer ctx) @ handle_bytes ?db (take k ps)"
  proof (cases "ps = []")
    case False
    then show ?thesis
      using handles_packet_ok[of ?db "Suc (length (search_cursor ?db))" nb index ofs ?mp "usb_wr_buffer_max_size ctx" "wrbuffer ctx" k]
        Suc.prems(4-7,9,10) unfolding ps_def[symmetric] k_def by simp
  next
    case True
    obtain db1 r where r: "get_next_child_handle ?db = (db1, r)" by force
    then have none: "r = None" using True next_child_remaining(2)[of ?db db1] unfolding ps_def by (cases r) auto
    have "remaining_children db1 = []" using r none next_child_search(1)[OF r] by (simp add: remaining_children_filter)
    then show ?thesis using True r none Suc.prems(3,5) next_child_pool[OF r] by (simp add: k_def ps_def[symmetric] handle_bytes_def)
  qed
  then obtain db' buf' where pk: "handles_packet (Suc (length (search_cursor ?db))) ?mp (usb_wr_buffer_max_size ctx) nb ?db (wrbuffer ctx) ofs index
      = Some (db', buf', ofs + 4 * int k, index + k)"
    "remaining_children db' = drop k ps" "pool db' = pool ?db" "length buf' = length (wrbuffer ctx)"
    "take (nat (ofs + 4 * int k)) buf' = take (nat ofs) (wrbuffer ctx) @ handle_bytes ?db (take k ps)" by blast
  let ?c1 = "set_db db' (ctx\<lparr>wrbuffer := buf'\<rparr>)"
  let ?out = "take (nat ofs) (wrbuffer ctx) @ handle_bytes ?db (take k ps)"
  have up: "link_up os ?c1" using Suc.prems(1) by (simp add: link_up_def set_db_def)
  obtain w where w: "fst (write_usb os ?c1 0 ?out) = ?c1\<lparr>world := w, usb_out := usb_out ?c1 @ [(0, ?out)]\<rparr>"
    using write_usb_up[OF up] by blast
  let ?c2 = "?c1\<lparr>world := w, usb_out := usb_out ?c1 @ [(0, ?out)]\<rparr>"
  have step: "handles_loop os (Suc n) ctx nb ofs index
      = (if index + k < nb then handles_loop os n ?c2 nb 0 (index + k) else Some (?c2, True))"
    using pk(1) w Suc.prems(5) by (simp add: pk(5) Let_def)
  have c2: "link_up os ?c2" "the_db ?c2 = db'" "max_packet_size ?c2 = max_packet_size ctx" "wrbuffer ?c2 = buf'"
    "usb_wr_buffer_max_size ?c2 = usb_wr_buffer_max_size ctx" "usb_out ?c2 = usb_out ctx @ [(0, ?out)]"
    using up by (simp_all add: link_up_def set_db_def the_db_def)
  have hb: "handle_bytes db' qs = handle_bytes ?db qs" for qs using pk(3) by (simp add: handle_bytes_def)
  have olen: "length ?out = nat ofs + 4 * k" using pre by (simp add: k_def)
  show ?case
  proof (cases "index + k < nb")
    case True
    then have lt: "k < length ps" using Suc.prems(4) by (simp add: ps_def)
    then have k: "k = nat ((?mp - ofs) div 4)" by (simp add: k_def)
    have "0 < k" using k Suc.prems(6,7) by (auto elim!: dvdE)
    obtain m where m: "?mp - ofs = 4 * m" using Suc.prems(7) by (auto elim!: dvdE)
    then have "k = nat m" using k by simp
    moreover have "nat ofs + 4 * nat m = nat ?mp" using m Suc.prems(5,6) by linarith
    ultimately have "nat ofs + 4 * k = nat ?mp" by (simp only:)
    then have full: "length ?out = unat (max_packet_size ctx)" unfolding olen mp .
    have rest: "remaining_children (the_db ?c2) = drop k ps" using c2(2) pk(2) by simp
    have IH: "\<exists>ctx'. handles_loop os n ?c2 nb 0 (index + k) = Some (ctx', True) \<and> link_up os ctx' \<and>
      max_packet_size ctx' = max_packet_size ?c2 \<and>
      usb_out ctx' = usb_out ?c2 @ map (Pair 0) (chunks (unat (max_packet_size ?c2))
        (take (nat 0) (wrbuffer ?c2) @ handle_bytes (the_db ?c2) (remaining_children (the_db ?c2))))"
    proof (rule Suc.IH)
      show "link_up os ?c2" by (rule c2(1))
      show "length (remaining_children (the_db ?c2)) < n" unfolding rest using Suc.prems(2) \<open>0 < k\<close> lt by (simp add: ps_def)
      show "remaining_children (the_db ?c2) \<noteq> [] \<or> index + k = nb" unfolding rest using lt by simp
      show "nb = index + k + length (remaining_children (the_db ?c2))" unfolding rest using lt Suc.prems(4) by (simp add: ps_def)
      show "0 < uint (max_packet_size ?c2)" unfolding c2(3) using Suc.prems(5,6) by linarith
      show "4 dvd uint (max_packet_size ?c2) - 0" "4 dvd uint (max_packet_size ?c2)" unfolding c2(3) using Suc.prems(8) by simp_all
      show "uint (max_packet_size ?c2) < usb_wr_buffer_max_size ?c2" unfolding c2(3,5) by (rule Suc.prems(9))
      show "usb_wr_buffer_max_size ?c2 \<le> int (length (wrbuffer ?c2))" unfolding c2(4,5) pk(4) by (rule Suc.prems(10))
    qed simp
    have nonempty: "handle_bytes ?db (drop k ps) \<noteq> []" using lt length_handle_bytes[of ?db "drop k ps"] by fastforce
    have "handle_bytes ?db ps = handle_bytes ?db (take k ps) @ handle_bytes ?db (drop k ps)"
      by (simp add: handle_bytes_def flip: concat_append map_append)
    then have "chunks (unat (max_packet_size ctx)) (take (nat ofs) (wrbuffer ctx) @ handle_bytes ?db ps)
        = ?out # chunks (unat (max_packet_size ctx)) (handle_bytes ?db (drop k ps))"
      using chunks_Cons[OF full _ nonempty] full olen \<open>0 < k\<close> by simp
    then show ?thesis
      using step True IH pk(2) unfolding ps_def[symmetric] rest c2(2,3,6) hb by auto
  next
    case False
    then have "k = length ps" using Suc.prems(4) by (simp add: ps_def k_def)
    moreover have "length ?out \<le> unat (max_packet_size ctx)"
    proof -
      have "int k \<le> (?mp - ofs) div 4" using Suc.prems(6) by (simp add: k_def)
      then have "ofs + 4 * int k \<le> ?mp" by linarith
      then show ?thesis unfolding olen mp[symmetric] using Suc.prems(5) by linarith
    qed
    ultimately show ?thesis
      using step False c2 unfolding ps_def[symmetric] by (simp add: chunks_short)
  qed
qed


lemma fs_step_scan_files: "fs_step ctx (scan_files os ctx dir base fi par sid)"
proof (induction os ctx dir base fi par sid rule: scan_files.induct)
  case (1 os ctx dir base fi par sid)
  define c where "c = (if listed ctx fi then set_db (fst (add_entry (the_db ctx) fi par sid)) ctx else ctx)"
  obtain dir' fi' ret where f: "fs_find_next_file os (world c) dir base fi = (dir', fi', ret)" by (metis prod_cases3)
  have c: "fs_step ctx c" by (simp add: c_def)
  show ?case
  proof (cases "ret = 0")
    case True
    then have "scan_files os ctx dir base fi par sid = c" using f by (subst scan_files.simps) (simp add: c_def[symmetric])
    then show ?thesis using c by simp
  next
    case False
    then have "scan_files os ctx dir base fi par sid = scan_files os c dir' base fi' par sid"
      using f False by (subst scan_files.simps) (simp add: c_def[symmetric])
    then show ?thesis using fs_step_trans[OF c 1[OF c_def f[symmetric] refl False]] by simp
  qed
qed

lemma fs_step_rmwatch [simp]: "fs_step ctx (inotify_handler_rmwatch os c wd) = fs_step ctx c"
  by (simp add: inotify_handler_rmwatch_def)

lemma fs_step_refresh_child: "fs_step ctx (refresh_child os ctx p)"
  by (auto simp: refresh_child_def Let_def split: option.splits)

lemma fs_step_refresh_children: "fs_step ctx (refresh_children os ctx)"
proof (induction os ctx rule: refresh_children.induct)
  case (1 os ctx)
  obtain db r where r: "get_next_child_handle (the_db ctx) = (db, r)" by force
  show ?case
  proof (cases r)
    case None
    then show ?thesis using r by (subst refresh_children.simps) simp
  next
    case (Some p)
    have "fs_step ctx (refresh_child os (set_db db ctx) p)"
      using fs_step_refresh_child[of "set_db db ctx" os p] by simp
    then show ?thesis
      using 1[OF r[symmetric] Some] r Some by (subst refresh_children.simps) (auto intro: fs_step_trans)
  qed
qed

lemma fs_step_scan_and_add: "fs_step ctx (fst (scan_and_add_folder os ctx base par sid))"
proof -
  let ?c1 = "case fs_find_first_file os (world ctx) base \<lparr>isdirectory = False, filename = [], fsize = 0\<rparr> of
      Some (rest, fileinfo) \<Rightarrow> scan_files os ctx rest base fileinfo par sid | None \<Rightarrow> ctx"
  have "fs_step ctx ?c1" by (auto simp: fs_step_scan_files split: option.split)
  moreover have "fs_step ?c1 (refresh_children os (set_db (init_search_handle (the_db ?c1) par sid) ?c1))"
    using fs_step_refresh_children[of "set_db (init_search_handle (the_db ?c1) par sid) ?c1" os] by simp
  ultimately show ?thesis by (simp add: scan_and_add_folder_def Let_def fs_step_trans)
qed

lemma fs_step_watch_folder: "fs_step ctx (watch_folder os ctx entry path)"
  by (auto simp: watch_folder_def inotify_handler_addwatch_def split: option.splits prod.splits if_splits)

lemma watch_folder_children: "remaining_children (the_db (watch_folder os ctx entry path)) = remaining_children (the_db ctx)"
proof -
  have "is_child (upd_entry p (\<lambda>e. e\<lparr>e_wd := wd\<rparr>) db) = is_child db" for p wd db
  proof
    show "is_child (upd_entry p (\<lambda>e. e\<lparr>e_wd := wd\<rparr>) db) q = is_child db q" for q
      by (cases "q = p \<and> p \<in> ptrs db") (auto simp: is_child_def entry_at_upd deleted_def)
  qed
  then have "remaining_children (upd_entry p (\<lambda>e. e\<lparr>e_wd := wd\<rparr>) db) = remaining_children db" for p wd db
    by (simp add: remaining_children_filter)
  then show ?thesis
    by (auto simp: watch_folder_def inotify_handler_addwatch_def split: option.splits prod.splits if_splits)
qed

lemma handles_scan_facts:
  assumes "handles_scan os ctx sid par entry path = (ctx', Some nb)"
  shows "fs_step ctx ctx'" "length (remaining_children (the_db ctx')) = nb"
proof -
  obtain c1 r where c1: "set_storage_giduid os ctx sid = (c1, r)" by force
  obtain c2 ret where c2: "(if r = 0 then scan_and_add_folder os c1 path par sid else (c1, -1)) = (c2, ret)" by force
  define c3 where "c3 = fst (restore_giduid os c2)"
  define db where "db = init_search_handle (the_db c3) par sid"
  have r: "ctx' = watch_folder os (set_db db c3) entry path" "nb = length (remaining_children db)"
    using assms c1 c2 by (auto simp: handles_scan_def Let_def c3_def db_def split: if_splits)
  have "fs_step ctx c1" using fs_step_giduid(2)[OF fs_step_refl, of ctx os sid] c1 by simp
  moreover have "fs_step c1 c2" using c2 fs_step_scan_and_add[of c1 os path par sid] by (auto split: if_splits)
  ultimately have "fs_step ctx (set_db db c3)" unfolding c3_def by (auto intro: fs_step_trans)
  then show "fs_step ctx ctx'" unfolding r(1) using fs_step_watch_folder fs_step_trans by blast
  show "length (remaining_children (the_db ctx')) = nb" unfolding r by (simp add: watch_folder_children)
qed

text \<open>The list of handles always returns: the count is the number of children the search still has.\<close>

lemma handles_packet_returns:
  assumes "length (search_cursor db) < n" "nb \<le> index + length (remaining_children db)"
  shows "\<exists>db' buf' ofs' index'. handles_packet n mp maxsize nb db buf ofs index = Some (db', buf', ofs', index') \<and>
    nb \<le> index' + length (remaining_children db') \<and> index \<le> index' \<and> (index < nb \<longrightarrow> index < index')"
  using assms
proof (induction n arbitrary: db buf ofs index)
  case (Suc n)
  obtain db1 r where r: "get_next_child_handle db = (db1, r)" by force
  show ?case
  proof (cases r)
    case None
    then show ?thesis using r Suc.prems next_child_remaining(1)[of db db1] by simp
  next
    case (Some p)
    have "length (search_cursor db1) < n" using next_child_shorter[of db db1 p] r Some Suc.prems(1) by simp
    moreover have "nb \<le> Suc index + length (remaining_children db1)"
      using next_child_remaining(2)[of db db1 p] r Some Suc.prems(2) by simp
    ultimately show ?thesis
      using r Some Suc.IH[of db1 "Suc index"] by (auto split: prod.splits) (metis Suc_leD Suc_le_lessD)+
  qed
qed simp

lemma handles_loop_returns:
  assumes "nb - index < n" "nb \<le> index + length (remaining_children (the_db ctx))"
  shows "handles_loop os n ctx nb ofs index \<noteq> None"
  using assms
proof (induction n arbitrary: ctx ofs index)
  case (Suc n)
  obtain db buf ofs1 index1 where p: "handles_packet (Suc (length (search_cursor (the_db ctx)))) (uint (max_packet_size ctx))
      (usb_wr_buffer_max_size ctx) nb (the_db ctx) (wrbuffer ctx) ofs index = Some (db, buf, ofs1, index1)"
    "nb \<le> index1 + length (remaining_children db)" "index \<le> index1" "index < nb \<longrightarrow> index < index1"
    using handles_packet_returns[of "the_db ctx" "Suc (length (search_cursor (the_db ctx)))" nb index] Suc.prems(2) by fastforce
  let ?c = "fst (write_usb os (set_db db (ctx\<lparr>wrbuffer := buf\<rparr>)) EP_DESCRIPTOR_IN (take (nat ofs1) buf))"
  have "the_db ?c = db" by (simp add: write_usb_def after_transfer_def set_db_def the_db_def split: prod.splits)
  then have "handles_loop os n ?c nb 0 index1 \<noteq> None" if "index1 < nb"
    using that p(2,3,4) Suc.prems(1) by (intro Suc.IH) auto
  then show ?case using p(1) by (simp only: handles_loop.simps option.case prod.case Let_def split: if_split) simp
qed simp

lemma send_handles_returns:
  assumes "nb \<le> length (remaining_children (the_db ctx))"
  shows "send_handles os ctx nb \<noteq> None"
proof -
  obtain buf ofs where p: "poke32 (fst (poke32 (wrbuffer ctx) 0 (usb_wr_buffer_max_size ctx) (word_of_nat (12 + (1 + nb) * 4)))) 12
      (usb_wr_buffer_max_size ctx) (word_of_nat nb) = (buf, ofs)" by force
  have "handles_loop os (Suc nb) (ctx\<lparr>wrbuffer := buf\<rparr>) nb ofs 0 \<noteq> None"
    using assms by (intro handles_loop_returns) simp_all
  then obtain c b where "handles_loop os (Suc nb) (ctx\<lparr>wrbuffer := buf\<rparr>) nb ofs 0 = Some (c, b)" by auto
  then show ?thesis unfolding send_handles_def Let_def p prod.case by (cases b) simp_all
qed

lemma GetObjectHandles_returns: "mtp_op_GetObjectHandles os ctx packet \<noteq> None"
proof -
  have "(case handles_folder os d sid h of (par, e, None) \<Rightarrow> send_handles os d 0
      | (par, e, Some path) \<Rightarrow> (case handles_scan os d sid par e path of
          (c, None) \<Rightarrow> reply c MTP_RESPONSE_ACCESS_DENIED | (c, Some nb) \<Rightarrow> send_handles os c nb)) \<noteq> None" for d sid h
  proof (cases "handles_folder os d sid h")
    case (fields par e path)
    show ?thesis
    proof (cases path)
      case None
      then show ?thesis using send_handles_returns[of 0 d os] by (simp add: fields)
    next
      case (Some pth)
      obtain c nb where s: "handles_scan os d sid par e pth = (c, nb)" by force
      show ?thesis
        using send_handles_returns[of "the nb" c os] handles_scan_facts(2)[of os d sid par e pth c "the nb"]
        by (cases nb) (simp_all add: fields Some s)
    qed
  qed
  then show ?thesis
    unfolding mtp_op_GetObjectHandles_def in_session_def locked_def Let_def
    by (simp split: prod.split option.split del: not_None_eq)
qed

definition handles_container :: "u32 \<Rightarrow> u16 \<Rightarrow> fs_handles_db \<Rightarrow> ptr list \<Rightarrow> byte list" where
  "handles_container tx code db ps = header_bytes (word_of_nat (16 + 4 * length ps)) MTP_CONTAINER_TYPE_DATA code tx
     @ le32 (word_of_nat (length ps)) @ handle_bytes db ps"

lemma send_handles_ok:
  assumes up: "link_up os ctx" and ps: "remaining_children (the_db ctx) = ps"
    and mp: "16 < uint (max_packet_size ctx)" "4 dvd uint (max_packet_size ctx)"
      "uint (max_packet_size ctx) < usb_wr_buffer_max_size ctx" "usb_wr_buffer_max_size ctx \<le> int (length (wrbuffer ctx))"
    and hdr: "take 12 (wrbuffer ctx) = header_bytes len MTP_CONTAINER_TYPE_DATA code tx"
  shows "\<exists>ctx'. send_handles os ctx (length ps) = reply ctx' MTP_RESPONSE_OK \<and>
    usb_out ctx' = usb_out ctx @ map (Pair 0) (chunks (unat (max_packet_size ctx)) (handles_container tx code (the_db ctx) ps)
      @ zlp ctx (16 + 4 * int (length ps)))"
proof -
  let ?wr = "wrbuffer ctx" and ?nb = "length ps" and ?max = "usb_wr_buffer_max_size ctx"
  let ?L = "word_of_nat (12 + (1 + ?nb) * 4) :: u32"
  have b1: "fst (poke32 ?wr 0 ?max ?L) = le32 ?L @ drop 4 ?wr" by (rule poke32_front) (use mp in linarith)+
  let ?b1 = "le32 ?L @ drop 4 ?wr"
  have l4: "length (le32 w) = 4" for w by (simp add: le32_def)
  have room: "16 < length ?wr" using mp by linarith
  have l1: "length ?b1 = length ?wr" using room l4 by simp
  have b2: "poke32 ?b1 12 ?max (word_of_nat ?nb) = (write_at ?b1 12 (le32 (word_of_nat ?nb)), 16)"
    using poke32_at[of 12 ?max ?b1 "word_of_nat ?nb"] mp l1 by simp
  let ?b2 = "write_at ?b1 12 (le32 (word_of_nat ?nb))"
  have l2: "length ?b2 = length ?wr" using l1 l4 room by simp
  have hdr8: "take 8 (drop 4 ?wr) = drop 4 (header_bytes len MTP_CONTAINER_TYPE_DATA code tx)"
    using arg_cong[OF hdr, of "drop 4"] by (simp add: drop_take)
  have t12: "take 12 ?b1 = header_bytes ?L MTP_CONTAINER_TYPE_DATA code tx"
  proof -
    have "take 12 ?b1 = le32 ?L @ take 8 (drop 4 ?wr)" using l4[of ?L] by (simp add: le32_def)
    also have "\<dots> = header_bytes ?L MTP_CONTAINER_TYPE_DATA code tx"
      unfolding hdr8 by (simp add: header_bytes_def le32_def)
    finally show ?thesis .
  qed
  have t16: "take 16 ?b2 = header_bytes ?L MTP_CONTAINER_TYPE_DATA code tx @ le32 (word_of_nat ?nb)"
    using take_write_at_end[of 12 "le32 (word_of_nat ?nb)" ?b1] t12 l1 l4 room by simp
  let ?c = "ctx\<lparr>wrbuffer := ?b2\<rparr>"
  have "\<exists>ctx'. handles_loop os (Suc ?nb) ?c ?nb 16 0 = Some (ctx', True) \<and> link_up os ctx' \<and>
    max_packet_size ctx' = max_packet_size ?c \<and>
    usb_out ctx' = usb_out ?c @ map (Pair 0) (chunks (unat (max_packet_size ?c))
      (take (nat 16) (wrbuffer ?c) @ handle_bytes (the_db ?c) (remaining_children (the_db ?c))))"
    using up ps mp l2 by (intro handles_loop_ok) (auto simp: link_up_def)
  then obtain c1 where c1: "handles_loop os (Suc ?nb) ?c ?nb 16 0 = Some (c1, True)" "link_up os c1"
    "max_packet_size c1 = max_packet_size ctx"
    "usb_out c1 = usb_out ctx @ map (Pair 0) (chunks (unat (max_packet_size ctx)) (take 16 ?b2 @ handle_bytes (the_db ctx) ps))"
    using ps by auto
  have z: "usb_out (fst (check_and_send_USB_ZLP os c1 (int (12 + 4 + ?nb * 4)))) = usb_out c1 @ map (Pair 0) (zlp ctx (16 + 4 * int ?nb))"
  proof -
    obtain w where "fst (write_usb os c1 0 []) = c1\<lparr>world := w, usb_out := usb_out c1 @ [(0, [])]\<rparr>"
      using write_usb_up[OF c1(2)] by blast
    then show ?thesis by (simp add: check_and_send_USB_ZLP_def zlp_def c1(3) algebra_simps)
  qed
  have "take 16 ?b2 @ handle_bytes (the_db ctx) ps = handles_container tx code (the_db ctx) ps"
    unfolding t16 handles_container_def by (simp add: algebra_simps)
  then show ?thesis
    unfolding send_handles_def Let_def b1 b2 prod.case c1(1) option.case using z c1(4) by simp
qed

text \<open>The context in which the operation looks at the folder: the mutex taken, the header written.\<close>

definition handles_start :: "'w mtp_ctx \<Rightarrow> buffer \<Rightarrow> 'w mtp_ctx" where
  "handles_start ctx packet = (lock_inotify ctx)\<lparr>wrbuffer :=
     write_at (wrbuffer ctx) 0 (header_bytes 12 MTP_CONTAINER_TYPE_DATA (hdr_code packet) (hdr_tx_id packet))\<rparr>"

text \<open>C13. The host that asks for the objects of a folder gets, in packets of the size of the end point, one
  container: its length, the count, and the handles of the children the database has after the
  folder was read, then an empty packet when one is due; the mutex is free again.\<close>

theorem object_handles_sent:
  assumes session: "fs_db ctx \<noteq> None" "\<not> os_lock_fails os (world ctx)" "link_up os ctx"
    and mp: "16 < uint (max_packet_size ctx)" "4 dvd uint (max_packet_size ctx)"
      "uint (max_packet_size ctx) < usb_wr_buffer_max_size ctx" "usb_wr_buffer_max_size ctx \<le> int (length (wrbuffer ctx))"
    and folder: "mtp_get_storage_root (storages ctx) (param packet 0) \<noteq> None"
      "handles_folder os (handles_start ctx packet) (param packet 0) (param packet 2) = (par, entry, Some path)"
    and scan: "handles_scan os (handles_start ctx packet) (param packet 0) par entry path = (ctx2, Some nb)"
  shows "\<exists>ctx'. mtp_op_GetObjectHandles os ctx packet = reply ctx' MTP_RESPONSE_OK \<and> \<not> inotify_locked ctx' \<and>
     usb_out ctx' = usb_out ctx @ map (Pair 0)
       (chunks (unat (max_packet_size ctx))
         (handles_container (hdr_tx_id packet) (hdr_code packet) (the_db ctx2) (remaining_children (the_db ctx2)))
        @ zlp ctx (16 + 4 * int nb))"
proof -
  let ?h = "header_bytes 12 MTP_CONTAINER_TYPE_DATA (hdr_code packet) (hdr_tx_id packet)"
  let ?c1 = "handles_start ctx packet"
  have br: "build_response (hdr_tx_id packet) MTP_CONTAINER_TYPE_DATA (hdr_code packet) (wrbuffer ctx) (usb_wr_buffer_max_size ctx) []
      = (write_at (wrbuffer ctx) 0 ?h, 12)"
    using build_response_fits[of "[]" "usb_wr_buffer_max_size ctx" "wrbuffer ctx" "hdr_tx_id packet" MTP_CONTAINER_TYPE_DATA "hdr_code packet"]
      mp by simp
  have room: "12 \<le> length (wrbuffer ctx)" using mp by linarith
  have c1: "link_up os ?c1" "max_packet_size ?c1 = max_packet_size ctx" "usb_wr_buffer_max_size ?c1 = usb_wr_buffer_max_size ctx"
    "usb_out ?c1 = usb_out ctx" "length (wrbuffer ?c1) = length (wrbuffer ctx)" "take 12 (wrbuffer ?c1) = ?h"
    "storages ?c1 = storages ctx"
    using session(3) room by (simp_all add: handles_start_def lock_inotify_def link_up_def write_at_def)
  obtain w db where c2: "ctx2 = ?c1\<lparr>world := w, fs_db := db\<rparr>" using fs_step_shape[OF handles_scan_facts(1)[OF scan]] by blast
  let ?ps = "remaining_children (the_db ctx2)"
  have nb: "nb = length ?ps" using handles_scan_facts(2)[OF scan] by simp
  have "\<exists>ctx'. send_handles os ctx2 (length ?ps) = reply ctx' MTP_RESPONSE_OK \<and>
    usb_out ctx' = usb_out ctx2 @ map (Pair 0) (chunks (unat (max_packet_size ctx2))
      (handles_container (hdr_tx_id packet) (hdr_code packet) (the_db ctx2) ?ps) @ zlp ctx2 (16 + 4 * int (length ?ps)))"
    using c1 mp c2 by (intro send_handles_ok) (simp_all add: link_up_def)
  then obtain c3 where c3: "send_handles os ctx2 nb = reply c3 MTP_RESPONSE_OK"
    "usb_out c3 = usb_out ctx @ map (Pair 0) (chunks (unat (max_packet_size ctx))
      (handles_container (hdr_tx_id packet) (hdr_code packet) (the_db ctx2) ?ps) @ zlp ctx (16 + 4 * int nb))"
    unfolding nb[symmetric] using c2 c1(2,4) by (auto simp: zlp_def)
  have "(lock_inotify ctx)\<lparr>wrbuffer := write_at (wrbuffer ctx) 0 ?h\<rparr> = ?c1" by (simp add: handles_start_def)
  then have "mtp_op_GetObjectHandles os ctx packet = reply (unlock_inotify c3) MTP_RESPONSE_OK"
    using session(1,2) br folder c1(7) scan c3(1)
    by (simp add: mtp_op_GetObjectHandles_def in_session_def locked_def lock_inotify_def handles_start_def Let_def)
  then show ?thesis using c3(2) by (simp add: unlock_inotify_def)
qed


text \<open>A folder that holds nothing but itself on the disk, and files that are always there.\<close>

definition folder_os :: "nat os" where
  "folder_os = plain_os\<lparr>os_readdir := (\<lambda>w path. Some [[0x2E]]),
     os_stat := (\<lambda>w path. Some \<lparr>st_isdir = False, st_size = 3, st_mtime = 0\<rparr>)\<rparr>"

definition handles_packet_sample :: buffer where
  "handles_packet_sample = [24, 0, 0, 0, 1, 0, 7, 0x10, 9, 0, 0, 0, 1, 0, 0xFF, 0xFF, 0, 0, 0, 0, 0, 0, 0, 0]"

lemma handles_packet_sample_params:
  "param handles_packet_sample 0 = 0xFFFF0001" "param handles_packet_sample 2 = 0"
  "hdr_code handles_packet_sample = 0x1007" "hdr_tx_id handles_packet_sample = 9"
  unfolding handles_packet_sample_def by code_simp+

definition handles_ctx :: "nat mtp_ctx" where
  "handles_ctx = sample_ctx\<lparr>max_packet_size := 32\<rparr>"

lemma handles_ctx_start:
  "\<exists>b. handles_start handles_ctx packet = sample_ctx\<lparr>max_packet_size := 32, inotify_locked := True, wrbuffer := b\<rparr>"
  by (rule exI[of _ "write_at (wrbuffer sample_ctx) 0
        (header_bytes 12 MTP_CONTAINER_TYPE_DATA (hdr_code packet) (hdr_tx_id packet))"])
     (simp add: handles_start_def handles_ctx_def lock_inotify_def)

lemma object_handles_sent_witness:
  "\<exists>ctx'. mtp_op_GetObjectHandles folder_os handles_ctx handles_packet_sample = reply ctx' MTP_RESPONSE_OK \<and>
     usb_out ctx' = [(0, [20, 0, 0, 0, 2, 0, 7, 0x10, 9, 0, 0, 0, 1, 0, 0, 0, 1, 0, 0, 0])]"
proof -
  let ?c = "handles_start handles_ctx handles_packet_sample"
  obtain b where b: "?c = sample_ctx\<lparr>max_packet_size := 32, inotify_locked := True, wrbuffer := b\<rparr>"
    using handles_ctx_start by blast
  have folder: "handles_folder folder_os ?c 0xFFFF0001 0 = (0, Some 0, Some [0x2F, 0x72])"
    unfolding b by (simp add: handles_folder_def the_db_def)
       (simp add: get_entry_by_handle_and_storageid_def sample_list sample_pool root_entry_def deleted_def has_flag_def)
  let ?db = "init_search_handle sample_db 0 0xFFFF0001"
  have first: "fs_find_first_file folder_os w [0x2F, 0x72] fi = Some ([], \<lparr>isdirectory = False, filename = [0x2E], fsize = 3\<rparr>)" for w fi
    by (simp add: fs_find_first_file_def folder_os_def fs_entry_stat_def at_def)
  have next1: "get_next_child_handle ?db = (?db\<lparr>search_cursor := [0]\<rparr>, Some (Suc 0))"
    by (simp add: get_next_child_handle_def init_search_handle_def is_child_def sample_list sample_pool root_entry_def deleted_def has_flag_def)
  let ?db1 = "?db\<lparr>search_cursor := [0]\<rparr>"
  have upd: "upd_entry (Suc 0) (\<lambda>e. e\<lparr>e_size := 3\<rparr>) ?db1 = ?db1"
    by (simp add: upd_entry_def init_search_handle_def sample_pool)
  have next2: "get_next_child_handle ?db1 = (?db\<lparr>search_cursor := []\<rparr>, None)"
    by (simp add: get_next_child_handle_def init_search_handle_def is_child_def sample_pool root_entry_def)
  have children: "remaining_children ?db = [Suc 0]"
    using next_child_remaining(1)[OF next2] next_child_remaining(2)[OF next1] by simp
  have ids: "ctx_uid ?c = -1" "ctx_gid ?c = -1" "default_uid ?c = -1" "default_gid ?c = -1"
    "storages ?c = sample_storages" "world ?c = 0" "inotify_fd ?c = -1" "the_db ?c = sample_db" "fs_db ?c = Some sample_db"
    "show_hidden_files (usb_cfg ?c) = 1"
    unfolding b by (simp_all add: sample_ctx_def sample_cfg_def the_db_def)
  have ids2: "restore_giduid folder_os (set_db d ?c) = (set_db d ?c, 0)" for d
    using ids by (intro unset_giduid) (simp_all add: set_db_def)
  have uid: "set_storage_giduid folder_os ?c 0xFFFF0001 = (?c, 0)"
    by (rule unset_giduid(2)[OF ids(1-5)])
  have path: "path_of folder_os (set_db ?db1 ?c) (Suc 0) = Some [0x2F, 0x72, 0x2F, 0x61]"
    using sample_path[of ?db1 "Suc 0" folder_os 0 sample_storages "[0x2F, 0x72]"] ids
    by (simp add: sample_pool init_search_handle_def folder_os_def)
  have child: "refresh_child folder_os (set_db ?db1 ?c) (Suc 0) = set_db ?db1 ?c"
    using path upd by (simp add: refresh_child_def folder_os_def set_db_def the_db_def)
  have refresh: "refresh_children folder_os (set_db ?db ?c) = set_db (?db\<lparr>search_cursor := []\<rparr>) ?c"
    by (subst refresh_children.simps, simp add: next1  child, subst refresh_children.simps, simp add: next2 )
  have scan: "scan_and_add_folder folder_os ?c [0x2F, 0x72] 0 0xFFFF0001 = (set_db (?db\<lparr>search_cursor := []\<rparr>) ?c, 0)"
    using refresh by (simp add: scan_and_add_folder_def first scan_files.simps listed_def ids)
  have hs: "handles_scan folder_os ?c 0xFFFF0001 0 (Some 0) [0x2F, 0x72]
     = (set_db (upd_entry 0 (\<lambda>e. e\<lparr>e_wd := -1\<rparr>) ?db) ?c, Some 1)"
    using uid scan children ids
    by (simp add: handles_scan_def ids2) (simp add: watch_folder_def inotify_handler_addwatch_def 
      init_search_handle_def sample_pool root_entry_def has_flag_def set_db_def)
  let ?c2 = "set_db (upd_entry 0 (\<lambda>e. e\<lparr>e_wd := -1\<rparr>) ?db) ?c"
  have kids: "remaining_children (the_db ?c2) = [Suc 0]"
    using handles_scan_facts(2)[OF hs] children
    by (simp add: remaining_children_filter is_child_def init_search_handle_def sample_list sample_pool upd_entry_def
        root_entry_def deleted_def has_flag_def)
  have out: "handles_container 9 0x1007 (the_db ?c2) [Suc 0] = [20, 0, 0, 0, 2, 0, 7, 0x10, 9, 0, 0, 0, 1, 0, 0, 0, 1, 0, 0, 0]"
  proof -
    have "e_handle (entry_at (the_db ?c2) (Suc 0)) = 1"
      by (simp add: upd_entry_def init_search_handle_def sample_pool)
    then have "handles_container 9 0x1007 (the_db ?c2) [Suc 0] = header_bytes 20 2 0x1007 9 @ le32 1 @ le32 1"
      by (simp add: handles_container_def handle_bytes_def)
    also have "\<dots> = [20, 0, 0, 0, 2, 0, 7, 0x10, 9, 0, 0, 0, 1, 0, 0, 0, 1, 0, 0, 0]"
      by code_simp
    finally show ?thesis .
  qed
  have ctx: "fs_db handles_ctx \<noteq> None" "\<not> os_lock_fails folder_os (world handles_ctx)" "link_up folder_os handles_ctx"
    "max_packet_size handles_ctx = 32" "usb_wr_buffer_max_size handles_ctx = 64" "length (wrbuffer handles_ctx) = 64"
    "storages handles_ctx = sample_storages" "usb_out handles_ctx = []"
    by (simp_all add: handles_ctx_def folder_os_def link_up_def sample_ctx_def)
  note P = handles_packet_sample_params
  have "\<exists>ctx'. mtp_op_GetObjectHandles folder_os handles_ctx handles_packet_sample = reply ctx' MTP_RESPONSE_OK \<and> \<not> inotify_locked ctx' \<and>
     usb_out ctx' = usb_out handles_ctx @ map (Pair 0)
       (chunks (unat (max_packet_size handles_ctx))
         (handles_container (hdr_tx_id handles_packet_sample) (hdr_code handles_packet_sample) (the_db ?c2) (remaining_children (the_db ?c2)))
        @ zlp handles_ctx (16 + 4 * int 1))"
    by (rule object_handles_sent[OF ctx(1-3), where par = 0 and entry = "Some 0" and path = "[0x2F, 0x72]"])
       (simp_all only: P ctx folder hs, simp_all)
  then show ?thesis
    unfolding kids P out ctx(4,8) by (auto simp: zlp_def ctx(4) chunks_short)
qed

end
