(* ===== verification/Dispatch.thy ===== *)
theory Dispatch
  imports Ops Names
begin

text \<open>
  The responder of \<open>src/mtp.c\<close>: one packet from the host is read, its operation called, its
  response sent; events go out on the interrupt end point.
\<close>

section \<open>The start\<close>

definition CONFIG_READ_FILE_BUFFER_SIZE :: int where "CONFIG_READ_FILE_BUFFER_SIZE = 1024 * 1024"
definition CONFIG_MAX_TX_USB_BUFFER_SIZE :: int where "CONFIG_MAX_TX_USB_BUFFER_SIZE = 16 * 512"
definition CONFIG_MAX_RX_USB_BUFFER_SIZE :: int where "CONFIG_MAX_RX_USB_BUFFER_SIZE = 16 * 512"

text \<open>
  The configuration after \<open>memset\<close>. The identity of the process and the descriptor of
  \<open>inotify_handler_init\<close> are the kernel's answers.
\<close>

definition zero_cfg :: mtp_usb_cfg where
  "zero_cfg = \<lparr>usb_vendor_id = 0, usb_product_id = 0, usb_class = 0, usb_subclass = 0, usb_protocol = 0,
     usb_dev_version = 0, usb_max_packet_size = 0, usb_functionfs_mode = 0, usb_device_path = [],
     usb_endpoint_in = [], usb_endpoint_out = [], usb_endpoint_intin = [], usb_string_manufacturer = [],
     usb_string_product = [], usb_string_serial = [], usb_string_version = [], usb_string_mtp_extensions = [],
     usb_string_interface = [], synchronization_partner = [], battery_capacity = [], perceived_device_type = 0,
     wait_connection = 0, loop_on_disconnect = 0, show_hidden_files = 0, val_umask = 0\<rparr>"

definition mtp_init_responder :: "'w \<Rightarrow> int \<Rightarrow> int \<Rightarrow> int \<Rightarrow> usb_gadget \<Rightarrow> 'w mtp_ctx" where
  "mtp_init_responder w user_id group_id notify_fd no_gadget = \<lparr>session_id = 0, usb_cfg = zero_cfg, usb_ctx = no_gadget,
     wrbuffer = [], usb_wr_buffer_max_size = CONFIG_MAX_TX_USB_BUFFER_SIZE, rdbuffer = [], rdbuffer2 = [],
     usb_rd_buffer_max_size = CONFIG_MAX_RX_USB_BUFFER_SIZE, read_file_buffer = None,
     read_file_buffer_size = CONFIG_READ_FILE_BUFFER_SIZE, temp_array = replicate MAX_STORAGE_NB 0, fs_db = None,
     SendObjInfoHandle = 0, SendObjInfoSize = 0, SendObjInfoOffset = 0, SetObjectPropValue_Handle = 0xFFFFFFFF,
     SetObjectPropValue_PropCode = 0, max_packet_size = 0, storages = init_storages, inotify_fd = notify_fd,
     no_inotify = 0, sync_when_close = 0, ctx_uid = user_id, ctx_gid = group_id, default_uid = -1, default_gid = -1,
     cancel_req = 0, transferring_file_data = False, inotify_locked = False, usb_out = [], world = w\<rparr>"

definition mtp_set_usb_handle :: "'w mtp_ctx \<Rightarrow> usb_gadget \<Rightarrow> u32 \<Rightarrow> 'w mtp_ctx" where
  "mtp_set_usb_handle ctx handle max_packet = ctx\<lparr>usb_ctx := handle, max_packet_size := max_packet\<rparr>"

section \<open>Packets\<close>

definition dispatch :: "'w os \<Rightarrow> 'w mtp_ctx \<Rightarrow> buffer \<Rightarrow> int \<Rightarrow> 'w op_result" where
  "dispatch os ctx packet rawsize =
    (let code = hdr_code packet in
     if code = MTP_OPERATION_OPEN_SESSION then mtp_op_OpenSession os ctx packet
     else if code = MTP_OPERATION_CLOSE_SESSION then mtp_op_CloseSession os ctx
     else if code = MTP_OPERATION_GET_DEVICE_INFO then mtp_op_GetDeviceInfos os ctx packet
     else if code = MTP_OPERATION_GET_STORAGE_IDS then mtp_op_GetStorageIDs os ctx packet
     else if code = MTP_OPERATION_GET_STORAGE_INFO then mtp_op_GetStorageInfo os ctx packet
     else if code = MTP_OPERATION_GET_DEVICE_PROP_DESC then mtp_op_GetDevicePropDesc os ctx packet
     else if code = MTP_OPERATION_GET_DEVICE_PROP_VALUE then mtp_op_GetDevicePropValue os ctx packet
     else if code = MTP_OPERATION_GET_OBJECT_HANDLES then mtp_op_GetObjectHandles os ctx packet
     else if code = MTP_OPERATION_GET_OBJECT_INFO then mtp_op_GetObjectInfo os ctx packet
     else if code = MTP_OPERATION_GET_PARTIAL_OBJECT_64 \<or> code = MTP_OPERATION_GET_PARTIAL_OBJECT
       then mtp_op_GetPartialObject os ctx packet
     else if code = MTP_OPERATION_GET_OBJECT then mtp_op_GetObject os ctx packet
     else if code = MTP_OPERATION_SEND_OBJECT_INFO then mtp_op_SendObjectInfo os ctx packet
     else if code = MTP_OPERATION_SEND_PARTIAL_OBJECT \<or> code = MTP_OPERATION_SEND_OBJECT
       then mtp_op_SendObject os ctx packet rawsize
     else if code = MTP_OPERATION_DELETE_OBJECT then mtp_op_DeleteObject os ctx packet
     else if code = MTP_OPERATION_GET_OBJECT_PROPS_SUPPORTED then mtp_op_GetObjectPropsSupported os ctx packet
     else if code = MTP_OPERATION_GET_OBJECT_PROP_DESC then mtp_op_GetObjectPropDesc os ctx packet
     else if code = MTP_OPERATION_GET_OBJECT_PROP_VALUE then mtp_op_GetObjectPropValue os ctx packet
     else if code = MTP_OPERATION_SET_OBJECT_PROP_VALUE then mtp_op_SetObjectPropValue os ctx packet
     else if code = MTP_OPERATION_GET_OBJECT_PROP_LIST then mtp_op_GetObjectPropList os ctx packet
     else if code = MTP_OPERATION_GET_OBJECT_REFERENCES then mtp_op_GetObjectReferences os ctx packet
     else if code = MTP_OPERATION_BEGIN_EDIT_OBJECT then mtp_op_BeginEditObject os ctx packet
     else if code = MTP_OPERATION_END_EDIT_OBJECT then mtp_op_EndEditObject os ctx packet
     else if code = MTP_OPERATION_TRUNCATE_OBJECT then mtp_op_TruncateObject os ctx packet
     else reply ctx MTP_RESPONSE_OPERATION_NOT_SUPPORTED)"

definition send_status :: "'w os \<Rightarrow> 'w mtp_ctx \<Rightarrow> u32 \<Rightarrow> u16 \<Rightarrow> u32 list \<Rightarrow> 'w mtp_ctx" where
  "send_status os ctx tx_id response_code params =
    (if response_code \<noteq> MTP_RESPONSE_NO_RESPONSE then
       (case build_response tx_id MTP_CONTAINER_TYPE_RESPONSE response_code (wrbuffer ctx)
               (usb_wr_buffer_max_size ctx) (concat (map le32 params)) of
          (buf, sz) \<Rightarrow>
            (let ctx1 = ctx\<lparr>wrbuffer := buf\<rparr> in
             if sz \<ge> 0 then fst (write_usb os ctx1 EP_DESCRIPTOR_IN (take (nat sz) buf)) else ctx1))
     else ctx)"

definition process_in_packet :: "'w os \<Rightarrow> 'w mtp_ctx \<Rightarrow> buffer \<Rightarrow> int \<Rightarrow> 'w mtp_ctx option" where
  "process_in_packet os ctx packet rawsize =
    (case dispatch os ctx packet rawsize of
       None \<Rightarrow> None
     | Some (ctx1, response_code, params) \<Rightarrow> Some (send_status os ctx1 (hdr_tx_id packet) response_code params))"

text \<open>The context and the C result; the bytes received replace the front of \<open>rdbuffer\<close>.\<close>

definition mtp_incoming_packet :: "'w os \<Rightarrow> 'w mtp_ctx \<Rightarrow> ('w mtp_ctx \<times> int) option" where
  "mtp_incoming_packet os ctx =
    (case read_usb os ctx (usb_rd_buffer_max_size ctx) of
       (ctx1, None) \<Rightarrow> Some (ctx1, -1)
     | (ctx1, Some data) \<Rightarrow>
        (let ctx2 = ctx1\<lparr>rdbuffer := data @ drop (length data) (rdbuffer ctx1)\<rparr> in
         if data = [] then Some (ctx2, 0)
         else map_option (\<lambda>c. (c, 0)) (process_in_packet os ctx2 (rdbuffer ctx2) (int (length data)))))"

section \<open>Events\<close>

definition mtp_push_event :: "'w os \<Rightarrow> 'w mtp_ctx \<Rightarrow> u16 \<Rightarrow> u32 list \<Rightarrow> 'w mtp_ctx \<times> int" where
  "mtp_push_event os ctx event parameters =
    (case build_event_dataset ctx (replicate 64 0) 64 event parameters of
       (event_buffer, sz) \<Rightarrow>
         if sz < 0 then (ctx, -1)
         else write_usb os ctx EP_DESCRIPTOR_INT_IN (take (nat sz) event_buffer))"


section \<open>Properties\<close>

text \<open>The operations that need a session.\<close>

definition session_operations :: "u16 list" where
  "session_operations = [MTP_OPERATION_CLOSE_SESSION, MTP_OPERATION_GET_STORAGE_IDS, MTP_OPERATION_GET_STORAGE_INFO,
     MTP_OPERATION_GET_DEVICE_PROP_DESC, MTP_OPERATION_GET_DEVICE_PROP_VALUE, MTP_OPERATION_GET_OBJECT_HANDLES,
     MTP_OPERATION_GET_OBJECT_INFO, MTP_OPERATION_GET_PARTIAL_OBJECT_64, MTP_OPERATION_GET_PARTIAL_OBJECT,
     MTP_OPERATION_GET_OBJECT, MTP_OPERATION_SEND_OBJECT_INFO, MTP_OPERATION_SEND_PARTIAL_OBJECT,
     MTP_OPERATION_SEND_OBJECT, MTP_OPERATION_DELETE_OBJECT, MTP_OPERATION_GET_OBJECT_PROPS_SUPPORTED,
     MTP_OPERATION_GET_OBJECT_PROP_DESC, MTP_OPERATION_GET_OBJECT_PROP_VALUE, MTP_OPERATION_SET_OBJECT_PROP_VALUE,
     MTP_OPERATION_GET_OBJECT_PROP_LIST, MTP_OPERATION_GET_OBJECT_REFERENCES, MTP_OPERATION_BEGIN_EDIT_OBJECT,
     MTP_OPERATION_END_EDIT_OBJECT, MTP_OPERATION_TRUNCATE_OBJECT]"

lemmas session_op_defs = mtp_op_CloseSession_def mtp_op_GetStorageIDs_def mtp_op_GetStorageInfo_def
  mtp_op_GetDevicePropDesc_def mtp_op_GetDevicePropValue_def mtp_op_GetObjectHandles_def mtp_op_GetObjectInfo_def
  mtp_op_GetPartialObject_def mtp_op_GetObject_def mtp_op_SendObjectInfo_def mtp_op_SendObject_def mtp_op_DeleteObject_def
  mtp_op_GetObjectPropsSupported_def mtp_op_GetObjectPropDesc_def mtp_op_GetObjectPropValue_def
  mtp_op_SetObjectPropValue_def mtp_op_GetObjectPropList_def mtp_op_GetObjectReferences_def
  mtp_op_BeginEditObject_def mtp_op_EndEditObject_def mtp_op_TruncateObject_def

lemma no_session_dispatch:
  assumes "fs_db ctx = None" "hdr_code packet \<in> set session_operations"
  shows "dispatch os ctx packet rawsize = reply ctx MTP_RESPONSE_SESSION_NOT_OPEN"
  using assms by (auto simp: session_operations_def dispatch_def Let_def session_op_defs in_session_def)

lemma send_status_up:
  assumes "link_up os ctx" "12 + 4 * int (length params) < usb_wr_buffer_max_size ctx"
    "usb_wr_buffer_max_size ctx \<le> int (length (wrbuffer ctx))" "code \<noteq> MTP_RESPONSE_NO_RESPONSE"
  shows "\<exists>w. send_status os ctx tx code params =
    ctx\<lparr>wrbuffer := write_at (wrbuffer ctx) 0 (header_bytes (12 + 4 * word_of_nat (length params)) MTP_CONTAINER_TYPE_RESPONSE code tx @ concat (map le32 params)),
      world := w, usb_out := usb_out ctx @ [(0, header_bytes (12 + 4 * word_of_nat (length params)) MTP_CONTAINER_TYPE_RESPONSE code tx @ concat (map le32 params))]\<rparr>"
proof -
  let ?d = "concat (map le32 params)"
  have len: "length ?d = 4 * length params" by (induction params) (auto simp: le32_def)
  let ?h = "header_bytes (12 + 4 * word_of_nat (length params)) MTP_CONTAINER_TYPE_RESPONSE code tx @ ?d"
  let ?b = "write_at (wrbuffer ctx) 0 ?h"
  have br: "build_response tx MTP_CONTAINER_TYPE_RESPONSE code (wrbuffer ctx) (usb_wr_buffer_max_size ctx) ?d
      = (?b, 12 + 4 * int (length params))"
    using build_response_fits[of ?d "usb_wr_buffer_max_size ctx" "wrbuffer ctx" tx MTP_CONTAINER_TYPE_RESPONSE code] assms(2,3)
    unfolding len by simp
  have hl: "length ?h = 12 + 4 * length params" using len by simp
  have room: "12 + 4 * length params \<le> length (wrbuffer ctx)" using assms(2,3) by linarith
  have "take (12 + 4 * length params) ?b = ?h"
    using take_write_at_end[of 0 ?h "wrbuffer ctx"] room unfolding hl by simp
  moreover have "nat (12 + 4 * int (length params)) = 12 + 4 * length params" by linarith
  ultimately have out: "take (nat (12 + 4 * int (length params))) ?b = ?h" by simp
  have "link_up os (ctx\<lparr>wrbuffer := ?b\<rparr>)" using assms(1) by (simp add: link_up_def)
  then obtain w where "fst (write_usb os (ctx\<lparr>wrbuffer := ?b\<rparr>) 0 ?h)
      = ctx\<lparr>wrbuffer := ?b\<rparr>\<lparr>world := w, usb_out := usb_out (ctx\<lparr>wrbuffer := ?b\<rparr>) @ [(0, ?h)]\<rparr>"
    using write_usb_up by blast
  then show ?thesis
    using assms(4) by (intro exI[of _ w]) (simp add: send_status_def br out Let_def)
qed

text \<open>C15. Without a session every operation that needs one is answered by one packet, the response
  SESSION_NOT_OPEN of that transaction, and leaves the responder as it was.\<close>

theorem no_session_refused:
  assumes "fs_db ctx = None" "hdr_code packet \<in> set session_operations" "link_up os ctx"
    "12 < usb_wr_buffer_max_size ctx" "usb_wr_buffer_max_size ctx \<le> int (length (wrbuffer ctx))"
  shows "\<exists>w b. process_in_packet os ctx packet rawsize = Some (ctx\<lparr>wrbuffer := b, world := w,
    usb_out := usb_out ctx @ [(0, header_bytes 12 MTP_CONTAINER_TYPE_RESPONSE MTP_RESPONSE_SESSION_NOT_OPEN (hdr_tx_id packet))]\<rparr>)"
proof -
  obtain w where "send_status os ctx (hdr_tx_id packet) MTP_RESPONSE_SESSION_NOT_OPEN [] = ctx\<lparr>wrbuffer := write_at (wrbuffer ctx) 0
      (header_bytes 12 MTP_CONTAINER_TYPE_RESPONSE MTP_RESPONSE_SESSION_NOT_OPEN (hdr_tx_id packet)), world := w,
      usb_out := usb_out ctx @ [(0, header_bytes 12 MTP_CONTAINER_TYPE_RESPONSE MTP_RESPONSE_SESSION_NOT_OPEN (hdr_tx_id packet))]\<rparr>"
    using send_status_up[OF assms(3) _ assms(5), of "[]" MTP_RESPONSE_SESSION_NOT_OPEN "hdr_tx_id packet"] assms(4) by auto
  then show ?thesis
    unfolding process_in_packet_def no_session_dispatch[OF assms(1,2)] by auto
qed

definition get_object_sample :: buffer where
  "get_object_sample = [16, 0, 0, 0, 1, 0, 9, 0x10, 5, 0, 0, 0, 1, 0, 0, 0]"

lemma get_object_sample_header:
  "hdr_code get_object_sample = MTP_OPERATION_GET_OBJECT" "hdr_tx_id get_object_sample = 5"
  unfolding get_object_sample_def by code_simp+

lemma no_session_refused_witness:
  "\<exists>ctx'. process_in_packet plain_os (sample_ctx\<lparr>fs_db := None\<rparr>) get_object_sample 16 = Some ctx' \<and>
     usb_out ctx' = [(0, [12, 0, 0, 0, 3, 0, 3, 0x20, 5, 0, 0, 0])]"
proof -
  let ?c = "sample_ctx\<lparr>fs_db := None\<rparr>"
  have c: "link_up plain_os ?c" "usb_wr_buffer_max_size ?c = 64" "length (wrbuffer ?c) = 64" "usb_out ?c = []"
    by (simp_all add: link_up_def sample_ctx_def)
  have "header_bytes 12 3 0x2003 5 = [12, 0, 0, 0, 3, 0, 3, 0x20, 5, 0, 0, 0]" by code_simp
  moreover have "\<exists>w b. process_in_packet plain_os ?c get_object_sample 16 = Some (?c\<lparr>wrbuffer := b, world := w,
    usb_out := usb_out ?c @ [(0, header_bytes 12 3 0x2003 (hdr_tx_id get_object_sample))]\<rparr>)"
    by (rule no_session_refused) (simp_all only: c, simp_all add: get_object_sample_header session_operations_def)
  ultimately show ?thesis by (auto simp: get_object_sample_header c(4))
qed

lemma reply_data_code:
  "\<exists>c code. reply_data os ctx packet builder = reply c code \<and> code \<in> {MTP_RESPONSE_OK, MTP_RESPONSE_GENERAL_ERROR}"
  by (auto simp: reply_data_def split: prod.split)

lemma alloc_roots_code:
  "\<exists>c code. alloc_roots os ctx ss = reply c code \<and> code \<in> {MTP_RESPONSE_OK, MTP_RESPONSE_GENERAL_ERROR}"
  by (induction os ctx ss rule: alloc_roots.induct) auto

lemma supported_op_cases:
  "op \<in> set supported_op \<Longrightarrow> op \<in> set session_operations \<or> op = MTP_OPERATION_OPEN_SESSION \<or>
     op = MTP_OPERATION_GET_DEVICE_INFO \<or> op = MTP_OPERATION_SET_DEVICE_PROP_VALUE"
  by (simp add: supported_op_def session_operations_def) blast

text \<open>Of the operations the device announces, all but SetDevicePropValue are known to the dispatcher;
  that one is answered as not supported.\<close>

theorem announced_operations_dispatched:
  assumes "hdr_code packet \<in> set supported_op" "fs_db ctx = None"
  shows "(\<exists>c. dispatch os ctx packet rawsize = reply c MTP_RESPONSE_OPERATION_NOT_SUPPORTED)
    \<longleftrightarrow> hdr_code packet = MTP_OPERATION_SET_DEVICE_PROP_VALUE"
  using supported_op_cases[OF assms(1)]
proof (elim disjE)
  assume s: "hdr_code packet \<in> set session_operations"
  then have "hdr_code packet \<noteq> MTP_OPERATION_SET_DEVICE_PROP_VALUE" by (auto simp: session_operations_def)
  then show ?thesis by (simp add: no_session_dispatch[OF assms(2) s])
next
  assume o: "hdr_code packet = MTP_OPERATION_OPEN_SESSION"
  then have "dispatch os ctx packet rawsize = mtp_op_OpenSession os ctx packet" by (simp add: dispatch_def)
  then show ?thesis
    using o assms(2) alloc_roots_code[of os "ctx\<lparr>session_id := param packet 0, fs_db := Some init_fs_db\<rparr>" "storages ctx"]
    by (auto simp: mtp_op_OpenSession_def Let_def)
next
  assume o: "hdr_code packet = MTP_OPERATION_GET_DEVICE_INFO"
  then have "dispatch os ctx packet rawsize = mtp_op_GetDeviceInfos os ctx packet" by (simp add: dispatch_def)
  then show ?thesis
    using o reply_data_code[of os ctx packet "\<lambda>c b m. (c, build_deviceinfo_dataset c b m)"]
    by (auto simp: mtp_op_GetDeviceInfos_def)
qed (simp add: dispatch_def)

lemma announced_operations_dispatched_witness:
  "\<not> (\<exists>c. dispatch plain_os (sample_ctx\<lparr>fs_db := None\<rparr>) get_object_sample 16 = reply c MTP_RESPONSE_OPERATION_NOT_SUPPORTED)"
  using announced_operations_dispatched[of get_object_sample "sample_ctx\<lparr>fs_db := None\<rparr>" plain_os 16]
  by (simp add: get_object_sample_header supported_op_def)


end
