(* ===== verification/Gadget.thy ===== *)
theory Gadget
  imports Dispatch
begin

text \<open>
  The USB side of \<open>src/usb_gadget.c\<close>: the descriptors given to the kernel, the end points, the
  requests and events of end point 0 in the two modes (GadgetFS, FunctionFS), the start and the
  end of the gadget. The build is the one of \<open>inc/buildconf.h\<close>: full and high speed, no
  SuperSpeed, on a little-endian machine. A request or event is handled between two packets of the
  other thread, whose end \<open>pthread_join\<close> awaits.
\<close>

section \<open>Descriptors\<close>

text \<open>The structures of \<open>linux/usb/ch9.h\<close> as they lie in memory.\<close>

abbreviation (input) STRINGID_MANUFACTURER :: "'a::numeral" where "STRINGID_MANUFACTURER \<equiv> 1"
abbreviation (input) STRINGID_PRODUCT :: "'a::numeral" where "STRINGID_PRODUCT \<equiv> 2"
abbreviation (input) STRINGID_SERIAL :: "'a::numeral" where "STRINGID_SERIAL \<equiv> 3"
abbreviation (input) STRINGID_CONFIG_HS :: "'a::numeral" where "STRINGID_CONFIG_HS \<equiv> 4"
abbreviation (input) STRINGID_CONFIG_LS :: "'a::numeral" where "STRINGID_CONFIG_LS \<equiv> 5"
abbreviation (input) STRINGID_INTERFACE :: "'a::numeral" where "STRINGID_INTERFACE \<equiv> 6"
abbreviation (input) STRINGID_MAX :: "'a::numeral" where "STRINGID_MAX \<equiv> 7"

abbreviation (input) EP_INT_MODE :: u32 where "EP_INT_MODE \<equiv> 0"
abbreviation (input) EP_BULK_MODE :: u32 where "EP_BULK_MODE \<equiv> 1"
abbreviation (input) EP_IN_DIR :: u32 where "EP_IN_DIR \<equiv> 0"
abbreviation (input) EP_OUT_DIR :: u32 where "EP_OUT_DIR \<equiv> 2"
abbreviation (input) EP_HS_MODE :: u32 where "EP_HS_MODE \<equiv> 4"
abbreviation (input) EP_SS_MODE :: u32 where "EP_SS_MODE \<equiv> 8"

definition fill_config_descriptor :: "u16 \<Rightarrow> bool \<Rightarrow> byte list" where
  "fill_config_descriptor total_size hs =
    [9, 2] @ le16 (9 + total_size) @ [1, 1, if hs then STRINGID_CONFIG_HS else STRINGID_CONFIG_LS, 0x80, 1]"

definition fill_dev_descriptor :: "mtp_usb_cfg \<Rightarrow> byte list" where
  "fill_dev_descriptor cfg =
    [18, 1, 0, 0, usb_class cfg, usb_subclass cfg, usb_protocol cfg, 0] @ le16 (usb_vendor_id cfg) @
    le16 (usb_product_id cfg) @ le16 (usb_dev_version cfg) @
    [STRINGID_MANUFACTURER, STRINGID_PRODUCT, STRINGID_SERIAL, 1]"

definition fill_if_descriptor :: "mtp_usb_cfg \<Rightarrow> byte list" where
  "fill_if_descriptor cfg =
    [9, 4, 0, 0, 3, usb_class cfg, usb_subclass cfg, usb_protocol cfg,
     if usb_functionfs_mode cfg \<noteq> 0 then 1 else STRINGID_INTERFACE]"

definition fill_ep_descriptor :: "byte \<Rightarrow> u32 \<Rightarrow> byte list" where
  "fill_ep_descriptor index fl =
    (let address = (if has_flag fl EP_OUT_DIR then 0 else 0x80) OR index in
     if has_flag fl EP_BULK_MODE
     then [7, 5, address, 2] @
       le16 (if has_flag fl EP_SS_MODE then 1024 else if has_flag fl EP_HS_MODE then 512 else 64) @ [0]
     else [7, 5, address, 3] @ le16 28 @ [6])"

definition end_points :: "mtp_usb_cfg \<Rightarrow> u32 \<Rightarrow> EndPointsDesc" where
  "end_points cfg speed =
    \<lparr>if_desc = fill_if_descriptor cfg, ep_desc_in = fill_ep_descriptor 1 (EP_BULK_MODE OR EP_IN_DIR OR speed),
     ep_desc_out = fill_ep_descriptor 2 (EP_BULK_MODE OR EP_OUT_DIR OR speed),
     ep_desc_int_in = fill_ep_descriptor 3 (EP_INT_MODE OR EP_IN_DIR OR speed)\<rparr>"

definition desc_bytes :: "EndPointsDesc \<Rightarrow> byte list" where
  "desc_bytes d = if_desc d @ ep_desc_in d @ ep_desc_out d @ ep_desc_int_in d"

definition usb_cfg_bytes :: "usb_cfg_desc \<Rightarrow> byte list" where
  "usb_cfg_bytes c = le32 0 @ cfg_fs c @ desc_bytes (ep_desc_fs c) @ cfg_hs c @ desc_bytes (ep_desc_hs c) @ dev_desc c"

text \<open>Magic, length, flags and the number of descriptors per speed come first.\<close>

definition usb_ffs_cfg_bytes :: "usb_ffs_cfg \<Rightarrow> byte list" where
  "usb_ffs_cfg_bytes c =
    (let body = desc_bytes (ffs_desc_fs c) @ desc_bytes (ffs_desc_hs c)
     in le32 3 @ le32 (word_of_nat (20 + length body)) @ le32 (1 OR 2) @ le32 4 @ le32 4 @ body)"

text \<open>The string of the interface; the structure has 128 bytes for it, and \<open>None\<close> is an overflow of them.\<close>

definition ffs_strings_bytes :: "cstr \<Rightarrow> byte list option" where
  "ffs_strings_bytes str =
    (if length str + 1 > 128 then None
     else Some (le32 2 @ le32 (word_of_nat (16 + 2 + length str + 1)) @ le32 1 @ le32 1 @ le16 0x0409 @ str @ [0]))"

section \<open>End points\<close>

definition with_gadget :: "(usb_gadget \<Rightarrow> usb_gadget) \<Rightarrow> 'w mtp_ctx \<Rightarrow> 'w mtp_ctx" where
  "with_gadget f ctx = ctx\<lparr>usb_ctx := f (usb_ctx ctx)\<rparr>"

text \<open>The descriptor of an end point at high speed, copied for both speeds, behind the head.\<close>

definition ep_cfg_bytes :: "usb_gadget \<Rightarrow> nat \<Rightarrow> byte list" where
  "ep_cfg_bytes g index =
    (let d = (case usb_ffs_config g of
                Some c \<Rightarrow> ffs_desc_hs c
              | None \<Rightarrow> (case usb_config g of Some c \<Rightarrow> ep_desc_hs c
                         | None \<Rightarrow> \<lparr>if_desc = [], ep_desc_in = [], ep_desc_out = [], ep_desc_int_in = []\<rparr>));
         e = (if index = EP_DESCRIPTOR_IN then ep_desc_in d
              else if index = EP_DESCRIPTOR_OUT then ep_desc_out d else ep_desc_int_in d)
     in le32 1 @ e @ e)"

text \<open>A failed write closes the descriptor but leaves it in \<open>ep_handles\<close>.\<close>

definition init_ep :: "'w os \<Rightarrow> 'w mtp_ctx \<Rightarrow> nat \<Rightarrow> bool \<Rightarrow> 'w mtp_ctx \<times> int" where
  "init_ep os ctx index ffs_mode =
    (case os_open os (world ctx) (ep_path (usb_ctx ctx) ! index) [O_RDWR] of
       (w, fd) \<Rightarrow>
        (if fd < 0 then (ctx\<lparr>world := w\<rparr>, -1)
         else
          (let cfg = ep_cfg_bytes (usb_ctx ctx) index;
               ctx1 = with_gadget (\<lambda>g. g\<lparr>ep_handles := (ep_handles g)[index := fd], ep_config := (ep_config g)[index := cfg]\<rparr>)
                        (ctx\<lparr>world := w\<rparr>)
           in if \<not> ffs_mode then
                (case os_write os (world ctx1) fd cfg of
                   (w2, ret) \<Rightarrow> if ret \<noteq> int (length cfg) then (ctx1\<lparr>world := os_close os w2 fd\<rparr>, -1)
                               else (ctx1\<lparr>world := w2\<rparr>, fd))
              else (ctx1, fd))))"

definition init_eps :: "'w os \<Rightarrow> 'w mtp_ctx \<Rightarrow> bool \<Rightarrow> 'w mtp_ctx \<times> int" where
  "init_eps os ctx ffs_mode =
    (case init_ep os ctx EP_DESCRIPTOR_IN ffs_mode of
       (ctx1, r1) \<Rightarrow> if r1 < 0 then (ctx1, 1) else
    (case init_ep os ctx1 EP_DESCRIPTOR_OUT ffs_mode of
       (ctx2, r2) \<Rightarrow> if r2 < 0 then (ctx2, 1) else
    (case init_ep os ctx2 EP_DESCRIPTOR_INT_IN ffs_mode of
       (ctx3, r3) \<Rightarrow> if r3 < 0 then (ctx3, 1) else (ctx3, 0))))"

text \<open>The host has configured the device: end points that are not open yet are, and the thread started.\<close>

definition enable :: "'w os \<Rightarrow> 'w mtp_ctx \<Rightarrow> bool \<Rightarrow> 'w mtp_ctx" where
  "enable os ctx ffs_mode =
    (case (if ep_handles (usb_ctx ctx) ! EP_DESCRIPTOR_IN \<le> 0 then init_eps os ctx ffs_mode else (ctx, 0)) of
       (ctx1, status) \<Rightarrow>
         if status = 0 then
           (let ctx2 = with_gadget (\<lambda>g. g\<lparr>stop := False\<rparr>) ctx1 in
            if thread_not_started (usb_ctx ctx2) \<noteq> 0 then
              (case os_thread_create os (world ctx2) of
                 (w, ret) \<Rightarrow> with_gadget (\<lambda>g. g\<lparr>thread_not_started := ret\<rparr>) (ctx2\<lparr>world := w\<rparr>))
            else ctx2)
         else ctx1)"

section \<open>Requests of the host\<close>

record usb_ctrlrequest =
  bRequestType :: byte
  bRequest :: byte
  wValue :: u16
  wIndex :: u16
  wLength :: u16

text \<open>What the code does on end point 0: data, an acknowledgement, a stall (by a transfer in the wrong direction).\<close>

datatype ep0_action = Data "byte list" | Ack | Stall_read | Stall_write

text \<open>A cancellation: the transfer is told to stop, or an old request forgotten.\<close>

definition request_cancel :: "'w os \<Rightarrow> 'w mtp_ctx \<Rightarrow> 'w mtp_ctx" where
  "request_cancel os ctx =
    (if os_lock_fails os (world ctx) then ctx
     else if transferring_file_data ctx then ctx\<lparr>cancel_req := 2, world := os_thread_stop os (world ctx)\<rparr>
     else ctx\<lparr>cancel_req := 0\<rparr>)"

text \<open>The status of the device: the context and the code.\<close>

definition device_status :: "'w os \<Rightarrow> 'w mtp_ctx \<Rightarrow> 'w mtp_ctx \<times> u16" where
  "device_status os ctx =
    (if cancel_req ctx \<noteq> 2
     then (if \<not> transferring_file_data ctx then ctx\<lparr>cancel_req := 0\<rparr> else ctx, MTP_RESPONSE_OK)
     else (if \<not> os_lock_fails os (world ctx) then ctx\<lparr>cancel_req := 1\<rparr> else ctx, MTP_RESPONSE_DEVICE_BUSY))"

definition stall :: "usb_ctrlrequest \<Rightarrow> ep0_action" where
  "stall setup = (if has_flag (bRequestType setup) 0x80 then Stall_read else Stall_write)"

text \<open>Data are written to end point 0; a failure leads to a stall.\<close>

definition ep0_write :: "'w os \<Rightarrow> 'w mtp_ctx \<Rightarrow> usb_ctrlrequest \<Rightarrow> byte list \<Rightarrow> 'w mtp_ctx \<times> ep0_action list" where
  "ep0_write os ctx setup data =
    (case os_write os (world ctx) (usb_device (usb_ctx ctx)) data of
       (w, ret) \<Rightarrow> (ctx\<lparr>world := w\<rparr>, if ret < 0 then [Data data, stall setup] else [Data data]))"

definition handle_setup_request :: "'w os \<Rightarrow> 'w mtp_ctx \<Rightarrow> usb_ctrlrequest \<Rightarrow> 'w mtp_ctx \<times> ep0_action list" where
  "handle_setup_request os ctx setup =
    (let req = bRequest setup in
     if req = 6 then
       (if bRequestType setup \<noteq> 0x80 then (ctx, [stall setup])
        else if drop_bit 8 (wValue setup) = 3 then
          (case usb_gadget_get_string \<lparr>language = 0x0409, strings = stringtab (usb_ctx ctx)\<rparr> (unat (wValue setup AND 0xFF)) of
             None \<Rightarrow> (ctx, [stall setup])
           | Some buffer \<Rightarrow> ep0_write os ctx setup buffer)
        else (ctx, [stall setup]))
     else if req = 9 then
       (if bRequestType setup \<noteq> 0 then (ctx, [stall setup])
        else ((if wValue setup = 1 then enable os ctx False
               else if wValue setup = 0 then with_gadget (\<lambda>g. g\<lparr>stop := True\<rparr>) ctx else ctx), [Ack]))
     else if req = 10 then ep0_write os ctx setup [0]
     else if req = 11 then
       (ctx\<lparr>world := foldl (os_clear_halt os) (world ctx) (ep_handles (usb_ctx ctx))\<rparr>, [Ack])
     else if req = 0x64 then (request_cancel os ctx, [])
     else if req = 0x66 then (ctx, [Ack])
     else if req = 0x67 then
       (case device_status os ctx of (ctx1, code) \<Rightarrow> ep0_write os ctx1 setup (le16 4 @ le16 code))
     else (ctx, [stall setup]))"

section \<open>The events of end point 0\<close>

datatype ffs_event = FUNCTIONFS_ENABLE | FUNCTIONFS_DISABLE | FUNCTIONFS_SETUP usb_ctrlrequest | FUNCTIONFS_BIND
  | FUNCTIONFS_UNBIND | FUNCTIONFS_SUSPEND | FUNCTIONFS_RESUME | FUNCTIONFS_OTHER

datatype gadgetfs_event = GADGETFS_CONNECT | GADGETFS_DISCONNECT | GADGETFS_SETUP usb_ctrlrequest | GADGETFS_NOP
  | GADGETFS_SUSPEND | GADGETFS_OTHER

text \<open>The seconds of the time limit follow the context.\<close>

definition ffs_disable :: "'w os \<Rightarrow> 'w mtp_ctx \<Rightarrow> 'w mtp_ctx" where
  "ffs_disable os ctx =
    (let ctx1 = (if thread_not_started (usb_ctx ctx) = 0 then
           (let c = (if transferring_file_data ctx \<and> \<not> os_lock_fails os (world ctx)
                     then ctx\<lparr>cancel_req := 2, world := os_thread_stop os (world ctx)\<rparr> else ctx)
            in with_gadget (\<lambda>g. g\<lparr>thread_not_started := 1\<rparr>) (c\<lparr>world := os_thread_stop os (world c)\<rparr>)) else ctx);
         ctx2 = with_gadget (\<lambda>g. g\<lparr>stop := False\<rparr>) ctx1
     in if os_lock_fails os (world ctx2) then ctx2
        else unlock_inotify ((deinit_fs_db os (lock_inotify ctx2))\<lparr>fs_db := None\<rparr>))"

definition ffs_event_step :: "'w os \<Rightarrow> 'w mtp_ctx \<times> int \<Rightarrow> ffs_event \<Rightarrow> ('w mtp_ctx \<times> int) \<times> ep0_action list" where
  "ffs_event_step os st event =
    (case st of (ctx, timeout) \<Rightarrow>
      (case event of
         FUNCTIONFS_ENABLE \<Rightarrow> ((enable os ctx True, timeout), [])
       | FUNCTIONFS_DISABLE \<Rightarrow> ((ffs_disable os ctx, 0), [])
       | FUNCTIONFS_SETUP setup \<Rightarrow> (case handle_setup_request os ctx setup of (c, acts) \<Rightarrow> ((c, timeout), acts))
       | _ \<Rightarrow> ((ctx, timeout), [])))"

text \<open>The wait for the end of a transfer: \<open>polls\<close> are the values read; true when it is given up.\<close>

function wait_cancel :: "(nat \<Rightarrow> int) \<Rightarrow> nat \<Rightarrow> bool" where
  "wait_cancel polls cnt = (if polls cnt \<noteq> 0 then (if cnt > 250 then True else wait_cancel polls (Suc cnt)) else False)"
  by pat_completeness auto
termination by (relation "measure (\<lambda>(_, cnt). 252 - cnt)") auto

declare wait_cancel.simps [simp del]

definition gadgetfs_suspend :: "'w os \<Rightarrow> 'w mtp_ctx \<Rightarrow> (nat \<Rightarrow> int) \<Rightarrow> 'w mtp_ctx" where
  "gadgetfs_suspend os ctx polls =
    (if transferring_file_data ctx then
       (let ctx1 = request_cancel os ctx in
        if wait_cancel (\<lambda>k. if k = 0 then cancel_req ctx1 else polls k) 0
        then ctx1\<lparr>world := os_thread_stop os (world ctx1)\<rparr> else ctx1)
     else ctx)"

definition gadgetfs_event_step ::
  "'w os \<Rightarrow> (nat \<Rightarrow> int) \<Rightarrow> 'w mtp_ctx \<times> int \<Rightarrow> gadgetfs_event \<Rightarrow> ('w mtp_ctx \<times> int) \<times> ep0_action list" where
  "gadgetfs_event_step os polls st event =
    (case st of (ctx, timeout) \<Rightarrow>
      (case event of
         GADGETFS_DISCONNECT \<Rightarrow>
           (let ctx1 = with_gadget (\<lambda>g. g\<lparr>stop := True\<rparr>) ctx in
            ((if thread_not_started (usb_ctx ctx1) = 0
              then with_gadget (\<lambda>g. g\<lparr>thread_not_started := 1\<rparr>) (ctx1\<lparr>world := os_thread_stop os (world ctx1)\<rparr>)
              else ctx1, 1), []))
       | GADGETFS_SETUP setup \<Rightarrow> (case handle_setup_request os ctx setup of (c, acts) \<Rightarrow> ((c, timeout), acts))
       | GADGETFS_SUSPEND \<Rightarrow> ((gadgetfs_suspend os ctx polls, timeout), [])
       | _ \<Rightarrow> ((ctx, timeout), [])))"

text \<open>
  What a turn of the loop meets: \<open>select\<close> fails (with the program told to shut down or not) or runs
  out of time, the read fails or gives events; \<open>Others\<close> is what the other threads do to the context in
  between. Linux leaves no time in the limit when it has run out.
\<close>

datatype ('w, 'e) ep0_round = Select_failed bool | Select_timeout | Read_failed | Events "'e list"
  | Others "'w mtp_ctx \<Rightarrow> 'w mtp_ctx"

text \<open>The context and the result of the handler; no result as long as it waits.\<close>

fun ep0_loop ::
  "('w mtp_ctx \<times> int \<Rightarrow> 'e \<Rightarrow> ('w mtp_ctx \<times> int) \<times> ep0_action list) \<Rightarrow> 'w mtp_ctx \<times> int \<Rightarrow> ('w, 'e) ep0_round list \<Rightarrow>
   'w mtp_ctx \<times> int option" where
  "ep0_loop step (ctx, timeout) rounds =
    (if stop (usb_ctx ctx) then (ctx, Some 1)
     else (case rounds of
        [] \<Rightarrow> (ctx, None)
      | r # rs \<Rightarrow>
         (case r of
            Select_timeout \<Rightarrow> if gadget_wait (usb_ctx ctx) \<noteq> 0 then ep0_loop step (ctx, 0) rs else (ctx, Some 0)
          | Select_failed shutdown \<Rightarrow>
              if shutdown then (with_gadget (\<lambda>g. g\<lparr>stop := True\<rparr>) ctx, Some 1) else ep0_loop step (ctx, timeout) rs
          | Read_failed \<Rightarrow> (ctx, Some 1)
          | Events es \<Rightarrow> ep0_loop step (foldl (\<lambda>st e. fst (step st e)) (ctx, 0) es) rs
          | Others f \<Rightarrow> ep0_loop step (f ctx, timeout) rs)))"

definition handle_ep0 ::
  "'w os \<Rightarrow> (nat \<Rightarrow> int) \<Rightarrow> 'w mtp_ctx \<Rightarrow> ('w, gadgetfs_event) ep0_round list \<Rightarrow> 'w mtp_ctx \<times> int option" where
  "handle_ep0 os polls ctx rounds = ep0_loop (gadgetfs_event_step os polls) (ctx, 4) rounds"

definition handle_ffs_ep0 ::
  "'w os \<Rightarrow> 'w mtp_ctx \<Rightarrow> ('w, ffs_event) ep0_round list \<Rightarrow> 'w mtp_ctx \<times> int option" where
  "handle_ffs_ep0 os ctx rounds = ep0_loop (ffs_event_step os) (ctx, 40) rounds"

section \<open>Start and end of the gadget\<close>

abbreviation (input) MAX_USB_STRING :: nat where "MAX_USB_STRING \<equiv> 16"

definition add_usb_string ::
  "(nat \<times> cstr option) list \<Rightarrow> nat \<Rightarrow> cstr option \<Rightarrow> (nat \<times> cstr option) list \<times> int" where
  "add_usb_string tab id' str =
    (case find (\<lambda>i. fst (tab ! i) = 0) [0..<MAX_USB_STRING] of
       Some i \<Rightarrow> (tab[i := (id', str)], int i)
     | None \<Rightarrow> (tab, -1))"

definition gadget_strings :: "mtp_usb_cfg \<Rightarrow> (nat \<times> cstr option) list" where
  "gadget_strings cfg =
    foldl (\<lambda>tab (id', str). fst (add_usb_string tab id' str)) (replicate MAX_USB_STRING (0, None))
      [(STRINGID_MANUFACTURER, Some (usb_string_manufacturer cfg)), (STRINGID_PRODUCT, Some (usb_string_product cfg)),
       (STRINGID_SERIAL, Some (usb_string_serial cfg)), (STRINGID_CONFIG_HS, Some (bytes_of ''High speed configuration'')),
       (STRINGID_CONFIG_LS, Some (bytes_of ''Low speed configuration'')),
       (STRINGID_INTERFACE, Some (usb_string_interface cfg)), (STRINGID_MAX, None)]"

definition new_gadget :: "mtp_usb_cfg \<Rightarrow> usb_gadget" where
  "new_gadget cfg = \<lparr>ep_handles = [-1, -1, -1], stop = False, usb_device = -1, usb_config = None, usb_ffs_config = None,
     ep_config = replicate 3 (replicate 18 0), ep_path = [usb_endpoint_in cfg, usb_endpoint_out cfg, usb_endpoint_intin cfg],
     stringtab = gadget_strings cfg, gadget_wait = wait_connection cfg, thread_not_started = 1\<rparr>"

text \<open>The end: descriptors closed, the thread stopped, the buffers given back; \<open>None\<close> is a gadget not allocated.\<close>

definition deinit_usb_mtp_gadget :: "'w os \<Rightarrow> 'w mtp_ctx \<Rightarrow> usb_gadget option \<Rightarrow> 'w mtp_ctx" where
  "deinit_usb_mtp_gadget os ctx usbctx =
    (let ctx1 = (case usbctx of
           None \<Rightarrow> ctx
         | Some g \<Rightarrow>
            (let w1 = foldl (\<lambda>w fd. if fd \<ge> 0 then os_close os w fd else w) (world ctx) (ep_handles g);
                 w2 = (if usb_device g \<ge> 0 then os_close os w1 (usb_device g) else w1);
                 w3 = (if thread_not_started g = 0 then os_thread_stop os w2 else w2)
             in ctx\<lparr>world := w3\<rparr>))
     in ctx1\<lparr>wrbuffer := [], rdbuffer := [], rdbuffer2 := []\<rparr>)"

text \<open>A block of bytes given to the kernel, whole or not at all.\<close>

definition write_whole :: "'w os \<Rightarrow> 'w \<Rightarrow> int \<Rightarrow> byte list \<Rightarrow> 'w \<times> bool" where
  "write_whole os w fd bytes = (case os_write os w fd bytes of (w', ret) \<Rightarrow> (w', ret = int (length bytes)))"

text \<open>The two configurations.\<close>

definition ffs_config_of :: "mtp_usb_cfg \<Rightarrow> usb_ffs_cfg" where
  "ffs_config_of cfg = \<lparr>ffs_desc_fs = end_points cfg 0, ffs_desc_hs = end_points cfg EP_HS_MODE\<rparr>"

definition gadgetfs_config_of :: "mtp_usb_cfg \<Rightarrow> usb_cfg_desc" where
  "gadgetfs_config_of cfg =
    (let cfg_size = 9 + 7 * 3
     in \<lparr>cfg_fs = fill_config_descriptor cfg_size False, ep_desc_fs = end_points cfg 0,
         cfg_hs = fill_config_descriptor cfg_size True, ep_desc_hs = end_points cfg EP_HS_MODE,
         dev_desc = fill_dev_descriptor cfg\<rparr>)"

definition ffs_setup ::
  "'w os \<Rightarrow> 'w mtp_ctx \<Rightarrow> usb_gadget \<Rightarrow> ('w mtp_ctx \<times> usb_gadget option) option" where
  "ffs_setup os ctx g =
    (let c = ffs_config_of (usb_cfg ctx);
         g1 = g\<lparr>usb_ffs_config := Some c\<rparr>
     in case write_whole os (world ctx) (usb_device g) (usb_ffs_cfg_bytes c) of
          (w, False) \<Rightarrow> Some (deinit_usb_mtp_gadget os (ctx\<lparr>world := w\<rparr>) (Some g1), None)
        | (w, True) \<Rightarrow>
           (case ffs_strings_bytes (usb_string_interface (usb_cfg ctx)) of
              None \<Rightarrow> None
            | Some bytes \<Rightarrow>
               (case write_whole os w (usb_device g) bytes of
                  (w2, ok) \<Rightarrow> if ok then Some (ctx\<lparr>world := w2\<rparr>, Some g1)
                              else Some (deinit_usb_mtp_gadget os (ctx\<lparr>world := w2\<rparr>) (Some g1), None))))"

definition gadgetfs_setup :: "'w os \<Rightarrow> 'w mtp_ctx \<Rightarrow> usb_gadget \<Rightarrow> 'w mtp_ctx \<times> usb_gadget option" where
  "gadgetfs_setup os ctx g =
    (let c = gadgetfs_config_of (usb_cfg ctx);
         g1 = g\<lparr>usb_config := Some c\<rparr>
     in case write_whole os (world ctx) (usb_device g) (usb_cfg_bytes c) of
          (w, ok) \<Rightarrow> if ok then (ctx\<lparr>world := w\<rparr>, Some g1)
                     else (deinit_usb_mtp_gadget os (ctx\<lparr>world := w\<rparr>) (Some g1), None))"

text \<open>
  The gadget, or NULL. A negative buffer size, as an \<open>int\<close>, is a request \<open>malloc\<close> refuses; \<open>None\<close> is the
  overflow of the interface string.
\<close>

definition init_usb_mtp_gadget :: "'w os \<Rightarrow> 'w mtp_ctx \<Rightarrow> ('w mtp_ctx \<times> usb_gadget option) option" where
  "init_usb_mtp_gadget os ctx =
    (if usb_wr_buffer_max_size ctx < 0 \<or> usb_rd_buffer_max_size ctx < 0
     then Some (deinit_usb_mtp_gadget os ctx None, None)
     else
      (let ctx1 = ctx\<lparr>wrbuffer := replicate (nat (usb_wr_buffer_max_size ctx)) 0,
                      rdbuffer := replicate (nat (usb_rd_buffer_max_size ctx)) 0,
                      rdbuffer2 := replicate (nat (usb_rd_buffer_max_size ctx)) 0\<rparr>;
           g = new_gadget (usb_cfg ctx)
       in case os_open os (world ctx1) (usb_device_path (usb_cfg ctx)) [O_RDWR, O_SYNC] of
            (w, fd) \<Rightarrow>
             (let ctx2 = ctx1\<lparr>world := w\<rparr>; g1 = g\<lparr>usb_device := fd\<rparr> in
              if fd < 0 then Some (deinit_usb_mtp_gadget os ctx2 (Some g1), None)
              else if usb_functionfs_mode (usb_cfg ctx) \<noteq> 0 then ffs_setup os ctx2 g1
              else Some (gadgetfs_setup os ctx2 g1))))"

section \<open>The descriptors are read back\<close>

text \<open>How a host walks over a block of descriptors: each begins with its own length.\<close>

function descriptors :: "byte list \<Rightarrow> byte list list option" where
  "descriptors bs =
    (case bs of
       [] \<Rightarrow> Some []
     | n # _ \<Rightarrow> if n = 0 \<or> length bs < unat n then None
                else map_option (Cons (take (unat n) bs)) (descriptors (drop (unat n) bs)))"
  by pat_completeness auto
termination
proof (relation "measure length")
  fix bs n and ds :: "byte list"
  assume "bs = n # ds" "\<not> (n = 0 \<or> length bs < unat n)"
  moreover from this have "0 < unat n" by (simp add: unat_eq_zero neq0_conv[symmetric] del: neq0_conv)
  ultimately show "(drop (unat n) bs, bs) \<in> measure length" by simp
qed simp

declare descriptors.simps [simp del]

definition self_delimited :: "byte list \<Rightarrow> bool" where
  "self_delimited d \<longleftrightarrow> d \<noteq> [] \<and> unat (hd d) = length d"

lemma descriptors_Cons:
  assumes "self_delimited d"
  shows "descriptors (d @ rest) = map_option (Cons d) (descriptors rest)"
proof -
  obtain n ds where d: "d = n # ds" "unat n = Suc (length ds)" using assms by (cases d) (auto simp: self_delimited_def)
  moreover have "n \<noteq> 0" using d(2) by auto
  ultimately show ?thesis by (subst descriptors.simps) (simp add: unat_eq_zero)
qed

lemma descriptors_concat: "\<forall>d\<in>set ds. self_delimited d \<Longrightarrow> descriptors (concat ds) = Some ds"
  by (induction ds) (simp_all add: descriptors_Cons, subst descriptors.simps, simp)

lemma filled_descriptors:
  "self_delimited (fill_config_descriptor n hs)" "length (fill_config_descriptor n hs) = 9"
  "self_delimited (fill_dev_descriptor cfg)" "length (fill_dev_descriptor cfg) = 18"
  "self_delimited (fill_if_descriptor cfg)" "length (fill_if_descriptor cfg) = 9"
  "self_delimited (fill_ep_descriptor i fl)" "length (fill_ep_descriptor i fl) = 7"
  by (simp_all add: self_delimited_def fill_config_descriptor_def fill_dev_descriptor_def fill_if_descriptor_def
      fill_ep_descriptor_def Let_def)

text \<open>The descriptors of one speed, in order.\<close>

definition speed_descriptors :: "mtp_usb_cfg \<Rightarrow> bool \<Rightarrow> byte list list" where
  "speed_descriptors cfg hs =
    [fill_if_descriptor cfg, [7, 5, 0x81, 2] @ le16 (if hs then 512 else 64) @ [0],
     [7, 5, 0x02, 2] @ le16 (if hs then 512 else 64) @ [0], [7, 5, 0x83, 3] @ le16 28 @ [6]]"

lemma desc_bytes_speed: "desc_bytes (end_points cfg (if hs then EP_HS_MODE else 0)) = concat (speed_descriptors cfg hs)"
  by (cases hs) (simp_all add: desc_bytes_def end_points_def speed_descriptors_def fill_ep_descriptor_def has_flag_def)

lemma speed_descriptors_delimited:
  "d \<in> set (speed_descriptors cfg hs) \<Longrightarrow> self_delimited d" "length (concat (speed_descriptors cfg hs)) = 30"
  by (auto simp: speed_descriptors_def filled_descriptors self_delimited_def[of "_ # _"])

lemma gadgetfs_blocks:
  "usb_cfg_bytes (gadgetfs_config_of cfg) = le32 0 @ concat
     ((fill_config_descriptor 30 False # speed_descriptors cfg False) @
      (fill_config_descriptor 30 True # speed_descriptors cfg True) @ [fill_dev_descriptor cfg])"
  using desc_bytes_speed[of cfg True] desc_bytes_speed[of cfg False]
  by (simp add: usb_cfg_bytes_def gadgetfs_config_of_def)

lemma ffs_blocks:
  "usb_ffs_cfg_bytes (ffs_config_of cfg) =
     le32 3 @ le32 80 @ le32 3 @ le32 4 @ le32 4 @ concat (speed_descriptors cfg False @ speed_descriptors cfg True)"
  using desc_bytes_speed[of cfg True] desc_bytes_speed[of cfg False]
  by (simp add: usb_ffs_cfg_bytes_def ffs_config_of_def Let_def speed_descriptors_delimited)

lemma config_length_field:
  "peek (fill_config_descriptor 30 hs) 2 2 = 39"
  by (cases hs) (code_simp, code_simp)

text \<open>C26. What the gadget writes to the kernel is read back descriptor by descriptor: in GadgetFS mode,
  behind the head, a configuration for each speed whose announced total length is the number of its
  bytes (39), its interface with exactly its three end points (bulk in 0x81, bulk out 0x02 with
  packets of 64 or 512 bytes, interrupt in 0x83), then the device; in FunctionFS mode, behind a
  header whose length field is the length of the block and whose two counts are the numbers of
  descriptors, the same interfaces.
\<close>

theorem descriptors_read_back:
  "descriptors (drop 4 (usb_cfg_bytes (gadgetfs_config_of cfg))) =
     Some ((fill_config_descriptor 30 False # speed_descriptors cfg False) @
           (fill_config_descriptor 30 True # speed_descriptors cfg True) @ [fill_dev_descriptor cfg]) \<and>
   (\<forall>hs. peek (fill_config_descriptor 30 hs) 2 2 =
      word_of_nat (length (fill_config_descriptor 30 hs @ concat (speed_descriptors cfg hs)))) \<and>
   descriptors (drop 20 (usb_ffs_cfg_bytes (ffs_config_of cfg))) =
     Some (speed_descriptors cfg False @ speed_descriptors cfg True) \<and>
   peek (usb_ffs_cfg_bytes (ffs_config_of cfg)) 4 4 = word_of_nat (length (usb_ffs_cfg_bytes (ffs_config_of cfg))) \<and>
   peek (usb_ffs_cfg_bytes (ffs_config_of cfg)) 12 4 = word_of_nat (length (speed_descriptors cfg False)) \<and>
   peek (usb_ffs_cfg_bytes (ffs_config_of cfg)) 16 4 = word_of_nat (length (speed_descriptors cfg True))"
proof -
  have d: "\<forall>d\<in>set ((fill_config_descriptor 30 False # speed_descriptors cfg False) @
      (fill_config_descriptor 30 True # speed_descriptors cfg True) @ [fill_dev_descriptor cfg]). self_delimited d"
    by (auto simp: filled_descriptors speed_descriptors_delimited)
  have f: "\<forall>d\<in>set (speed_descriptors cfg False @ speed_descriptors cfg True). self_delimited d"
    by (auto simp: speed_descriptors_delimited)
  have l: "length (usb_ffs_cfg_bytes (ffs_config_of cfg)) = 80"
    by (simp add: ffs_blocks speed_descriptors_delimited del: length_concat)
  have s: "length (speed_descriptors cfg hs) = 4" for hs by (simp add: speed_descriptors_def)
  have w: "length (fill_config_descriptor 30 hs @ concat (speed_descriptors cfg hs)) = 39" for hs
    by (simp only: length_append filled_descriptors speed_descriptors_delimited)
  have p: "peek (usb_ffs_cfg_bytes (ffs_config_of cfg)) 4 4 = 80" "peek (usb_ffs_cfg_bytes (ffs_config_of cfg)) 12 4 = 4"
    "peek (usb_ffs_cfg_bytes (ffs_config_of cfg)) 16 4 = 4"
    by (simp_all add: ffs_blocks le32_def peek_4 join32_def)
  show ?thesis
    unfolding w l s p using descriptors_concat[OF d] descriptors_concat[OF f]
    by (simp add: gadgetfs_blocks ffs_blocks config_length_field)
qed

section \<open>The end points are there when the thread runs\<close>

lemma with_gadget_simps [simp]:
  "usb_ctx (with_gadget f ctx) = f (usb_ctx ctx)" "world (with_gadget f ctx) = world ctx"
  "fs_db (with_gadget f ctx) = fs_db ctx" "storages (with_gadget f ctx) = storages ctx"
  "cancel_req (with_gadget f ctx) = cancel_req ctx"
  "inotify_locked (with_gadget f ctx) = inotify_locked ctx" "the_db (with_gadget f ctx) = the_db ctx"
  by (simp_all add: with_gadget_def the_db_def)

text \<open>What \<open>init_ep\<close> and \<open>init_eps\<close> change: the descriptors, the configurations of the end points and the world.\<close>

lemma init_ep_shape:
  assumes "init_ep os ctx i m = (ctx', r)"
  shows "\<exists>hs cs w. ctx' = with_gadget (\<lambda>g. g\<lparr>ep_handles := hs, ep_config := cs\<rparr>) (ctx\<lparr>world := w\<rparr>) \<and>
    length hs = length (ep_handles (usb_ctx ctx)) \<and>
    (\<forall>j. j \<noteq> i \<longrightarrow> hs ! j = ep_handles (usb_ctx ctx) ! j) \<and>
    (r \<ge> 0 \<and> i < length (ep_handles (usb_ctx ctx)) \<longrightarrow> hs ! i = r)"
  using assms
  by (cases ctx; cases "usb_ctx ctx")
    (auto simp: init_ep_def with_gadget_def Let_def split: prod.splits if_splits intro!: exI)

lemma init_eps_shape:
  assumes "init_eps os ctx m = (ctx', r)" "length (ep_handles (usb_ctx ctx)) = 3"
  shows "\<exists>hs cs w. ctx' = with_gadget (\<lambda>g. g\<lparr>ep_handles := hs, ep_config := cs\<rparr>) (ctx\<lparr>world := w\<rparr>) \<and>
    length hs = 3 \<and> (r = 0 \<longrightarrow> (\<forall>i<3. 0 \<le> hs ! i))"
proof -
  obtain c1 r1 where 1: "init_ep os ctx 0 m = (c1, r1)" by fastforce
  obtain c2 r2 where 2: "init_ep os c1 1 m = (c2, r2)" by fastforce
  obtain c3 r3 where 3: "init_ep os c2 2 m = (c3, r3)" by fastforce
  obtain h1 g1 w1 where s1: "c1 = with_gadget (\<lambda>g. g\<lparr>ep_handles := h1, ep_config := g1\<rparr>) (ctx\<lparr>world := w1\<rparr>)"
    "length h1 = 3" "r1 \<ge> 0 \<longrightarrow> h1 ! 0 = r1" using init_ep_shape[OF 1] assms(2) by auto
  obtain h2 g2 w2 where s2: "c2 = with_gadget (\<lambda>g. g\<lparr>ep_handles := h2, ep_config := g2\<rparr>) (c1\<lparr>world := w2\<rparr>)"
    "length h2 = 3" "h2 ! 0 = h1 ! 0" "r2 \<ge> 0 \<longrightarrow> h2 ! 1 = r2" using init_ep_shape[OF 2] s1 by auto
  obtain h3 g3 w3 where s3: "c3 = with_gadget (\<lambda>g. g\<lparr>ep_handles := h3, ep_config := g3\<rparr>) (c2\<lparr>world := w3\<rparr>)"
    "length h3 = 3" "h3 ! 0 = h2 ! 0" "h3 ! 1 = h2 ! 1" "r3 \<ge> 0 \<longrightarrow> h3 ! 2 = r3" using init_ep_shape[OF 3] s2 by auto
  have e2: "c2 = with_gadget (\<lambda>g. g\<lparr>ep_handles := h2, ep_config := g2\<rparr>) (ctx\<lparr>world := w2\<rparr>)"
    and e3: "c3 = with_gadget (\<lambda>g. g\<lparr>ep_handles := h3, ep_config := g3\<rparr>) (ctx\<lparr>world := w3\<rparr>)"
    unfolding s3 s2 s1 by (cases ctx; simp add: with_gadget_def)+
  have "init_eps os ctx m = (if r1 < 0 then (c1, 1) else if r2 < 0 then (c2, 1) else if r3 < 0 then (c3, 1) else (c3, 0))"
    by (simp only: init_eps_def 1 2 3 prod.case)
  with assms(1) have f: "(ctx', r) = (c1, 1) \<or> (ctx', r) = (c2, 1) \<or> (ctx', r) = (c3, 1) \<or>
      (ctx', r) = (c3, 0) \<and> r1 \<ge> 0 \<and> r2 \<ge> 0 \<and> r3 \<ge> 0" by (auto split: if_splits)
  have "\<forall>i<3. 0 \<le> h3 ! i" if "r1 \<ge> 0" "r2 \<ge> 0" "r3 \<ge> 0"
    using s1 s2 s3 that by (simp add: less_Suc_eq numeral_3_eq_3 numeral_2_eq_2 all_conj_distrib imp_conjL)
  with f consider "ctx' = c1 \<and> r = 1" | "ctx' = c2 \<and> r = 1" | "ctx' = c3" "r = 0 \<longrightarrow> (\<forall>i<3. 0 \<le> h3 ! i)"
    by auto
  then show ?thesis
  proof cases
    case 1
    then show ?thesis using s1 by (intro exI[of _ h1] exI[of _ g1] exI[of _ w1]) simp
  next
    case 2
    then show ?thesis using e2 s2(2) by (intro exI[of _ h2] exI[of _ g2] exI[of _ w2]) simp
  next
    case 3
    then show ?thesis using e3 s3(2) by (intro exI[of _ h3] exI[of _ g3] exI[of _ w3]) simp
  qed
qed

lemma enable_shape:
  assumes "length (ep_handles (usb_ctx ctx)) = 3"
  shows "\<exists>hs cs st w t. enable os ctx m =
      with_gadget (\<lambda>g. g\<lparr>ep_handles := hs, ep_config := cs, stop := st, thread_not_started := t\<rparr>) (ctx\<lparr>world := w\<rparr>) \<and>
    length hs = 3 \<and> (ep_handles (usb_ctx ctx) ! 0 \<le> 0 \<and> thread_not_started (usb_ctx ctx) \<noteq> 0 \<and> t = 0 \<longrightarrow>
       \<not> st \<and> (\<forall>i<3. 0 \<le> hs ! i)) \<and>
    (ep_handles (usb_ctx ctx) ! 0 > 0 \<longrightarrow> hs = ep_handles (usb_ctx ctx) \<and> cs = ep_config (usb_ctx ctx) \<and> \<not> st)"
proof -
  let ?open = "ep_handles (usb_ctx ctx) ! 0 \<le> 0"
  obtain c1 r where r: "(if ?open then init_eps os ctx m else (ctx, 0)) = (c1, r)" by fastforce
  obtain hs cs w where c1: "c1 = with_gadget (\<lambda>g. g\<lparr>ep_handles := hs, ep_config := cs\<rparr>) (ctx\<lparr>world := w\<rparr>)"
    "length hs = 3" "?open \<longrightarrow> r = 0 \<longrightarrow> (\<forall>i<3. 0 \<le> hs ! i)"
    "\<not> ?open \<longrightarrow> hs = ep_handles (usb_ctx ctx) \<and> cs = ep_config (usb_ctx ctx) \<and> r = 0"
  proof (cases ?open)
    case True
    then show thesis using init_eps_shape[of os ctx m c1 r] r assms that by auto
  next
    case False
    then show thesis using r assms that[where hs = "ep_handles (usb_ctx ctx)" and cs = "ep_config (usb_ctx ctx)" and w = "world ctx"]
      by (cases ctx) (auto simp: with_gadget_def)
  qed
  obtain w' ret where t: "os_thread_create os w = (w', ret)" by fastforce
  have e: "enable os ctx m = (if r = 0 then
      (if thread_not_started (usb_ctx ctx) \<noteq> 0
       then with_gadget (\<lambda>g. g\<lparr>thread_not_started := ret\<rparr>) (with_gadget (\<lambda>g. g\<lparr>stop := False\<rparr>) c1\<lparr>world := w'\<rparr>)
       else with_gadget (\<lambda>g. g\<lparr>stop := False\<rparr>) c1) else c1)"
    unfolding enable_def r prod.case Let_def using t by (simp add: c1)
  let ?t = "if r = 0 \<and> thread_not_started (usb_ctx ctx) \<noteq> 0 then ret else thread_not_started (usb_ctx ctx)"
  have s: "enable os ctx m = with_gadget (\<lambda>g. g\<lparr>ep_handles := hs, ep_config := cs,
      stop := (r \<noteq> 0 \<and> stop (usb_ctx ctx)), thread_not_started := ?t\<rparr>)
      (ctx\<lparr>world := if r = 0 \<and> thread_not_started (usb_ctx ctx) \<noteq> 0 then w' else w\<rparr>)"
    unfolding e c1(1) by (cases ctx; cases "usb_ctx ctx") (simp add: with_gadget_def)
  show ?thesis
    apply (rule exI)+
    apply (rule conjI, rule s)
    using c1(2-) by auto
qed

text \<open>When the host configures a gadget with its initial end points and the thread is started by it,
  all three end points are open and the gadget is not stopped; a gadget that had its bulk input open
  keeps its end points as they are.
\<close>

theorem enable_opens_end_points:
  assumes "ep_handles (usb_ctx ctx) = [-1, -1, -1]" "thread_not_started (usb_ctx ctx) \<noteq> 0"
    and "thread_not_started (usb_ctx (enable os ctx m)) = 0"
  shows "length (ep_handles (usb_ctx (enable os ctx m))) = 3"
    "\<forall>i<3. 0 \<le> ep_handles (usb_ctx (enable os ctx m)) ! i" "\<not> stop (usb_ctx (enable os ctx m))"
  using enable_shape[of ctx os m] assms by auto

text \<open>The first end point opens, the second does not; the host configures the device again.\<close>

lemma enable_twice:
  assumes "ep_handles (usb_ctx ctx) = [-1, -1, -1]"
    and "os_open os (world ctx) (ep_path (usb_ctx ctx) ! 0) [O_RDWR] = (w1, fd)" "0 < fd"
    and "os_open os w1 (ep_path (usb_ctx ctx) ! 1) [O_RDWR] = (w2, -1)" "os_thread_create os w2 = (w3, 0)"
    and "thread_not_started (usb_ctx ctx) = 1"
  shows "thread_not_started (usb_ctx (enable os ctx True)) = 1"
    "ep_handles (usb_ctx (enable os (enable os ctx True) True)) = [fd, -1, -1]"
    "thread_not_started (usb_ctx (enable os (enable os ctx True) True)) = 0"
proof -
  let ?c = "with_gadget (\<lambda>g. g\<lparr>ep_handles := [fd, -1, -1], ep_config := (ep_config g)[0 := ep_cfg_bytes (usb_ctx ctx) 0]\<rparr>)
      (ctx\<lparr>world := w2\<rparr>)"
  have 0: "init_ep os ctx EP_DESCRIPTOR_IN True =
      (with_gadget (\<lambda>g. g\<lparr>ep_handles := [fd, -1, -1], ep_config := (ep_config g)[0 := ep_cfg_bytes (usb_ctx ctx) 0]\<rparr>)
        (ctx\<lparr>world := w1\<rparr>), fd)" (is "_ = (?d, _)")
    using assms by (simp add: init_ep_def Let_def with_gadget_def)
  have 1: "init_ep os ?d EP_DESCRIPTOR_OUT True = (?c, -1)"
    using assms by (simp add: init_ep_def with_gadget_def)
  have e: "init_eps os ctx True = (?c, 1)"
    unfolding init_eps_def 0 prod.case using assms(3) 1 by simp
  have f: "enable os ctx True = ?c" using assms(1) by (simp add: enable_def e)
  then show "thread_not_started (usb_ctx (enable os ctx True)) = 1" using assms by simp
  have g: "enable os ?c True = with_gadget (\<lambda>g. g\<lparr>thread_not_started := 0\<rparr>)
      (with_gadget (\<lambda>g. g\<lparr>stop := False\<rparr>) ?c\<lparr>world := w3\<rparr>)"
    using assms by (simp add: enable_def Let_def)
  show "ep_handles (usb_ctx (enable os (enable os ctx True) True)) = [fd, -1, -1]"
    "thread_not_started (usb_ctx (enable os (enable os ctx True) True)) = 0"
    unfolding f g by simp_all
qed

lemma closed_gadget: "ep_handles (new_gadget cfg) = [-1, -1, -1]" "thread_not_started (new_gadget cfg) = 1"
  "stringtab (new_gadget cfg) = gadget_strings cfg" "\<not> stop (new_gadget cfg)"
  by (simp_all add: new_gadget_def)

definition thread_os :: "nat os" where
  "thread_os = plain_os\<lparr>os_open := (\<lambda>w path fl. if path = [0x6F] then (w, -1) else (w, 5)),
     os_thread_create := (\<lambda>w. (Suc w, 0))\<rparr>"

lemma thread_os_simps [simp]:
  "os_open thread_os w path fl = (if path = [0x6F] then (w, -1) else (w, 5))" "os_thread_create thread_os w = (Suc w, 0)"
  by (simp_all add: thread_os_def)

definition fresh_ctx :: "nat mtp_ctx" where
  "fresh_ctx = sample_ctx\<lparr>usb_ctx := (new_gadget sample_cfg)\<lparr>ep_path := [[0x61], [0x62], [0x63]]\<rparr>\<rparr>"

theorem enable_opens_end_points_witness:
  "\<forall>i<3. 0 \<le> ep_handles (usb_ctx (enable thread_os fresh_ctx True)) ! i"
proof (rule enable_opens_end_points(2))
  show "ep_handles (usb_ctx fresh_ctx) = [-1, -1, -1]" "thread_not_started (usb_ctx fresh_ctx) \<noteq> 0"
    by (simp_all add: fresh_ctx_def new_gadget_def)
  show "thread_not_started (usb_ctx (enable thread_os fresh_ctx True)) = 0"
    by (simp add: enable_def fresh_ctx_def new_gadget_def init_eps_def init_ep_def Let_def)
qed

text \<open>An end point that could not be opened is forgotten: when the bulk input opens and the bulk
  output does not, the first configuration by the host starts nothing, but the second one sees the
  input open, tries no end point again and starts the thread with the output and the interrupt end
  point closed.
\<close>

theorem enable_retry_incomplete:
  assumes "ep_handles (usb_ctx ctx) = [-1, -1, -1]" "thread_not_started (usb_ctx ctx) = 1"
    and "os_open os (world ctx) (ep_path (usb_ctx ctx) ! 0) [O_RDWR] = (w1, fd)" "0 < fd"
    and "os_open os w1 (ep_path (usb_ctx ctx) ! 1) [O_RDWR] = (w2, -1)" "os_thread_create os w2 = (w3, 0)"
  shows "thread_not_started (usb_ctx (enable os ctx True)) = 1 \<and>
    thread_not_started (usb_ctx (enable os (enable os ctx True) True)) = 0 \<and>
    ep_handles (usb_ctx (enable os (enable os ctx True) True)) = [fd, -1, -1]"
  using enable_twice[OF assms(1,3,4,5,6,2)] by simp

theorem enable_retry_incomplete_witness:
  "ep_handles (usb_ctx (enable thread_os (enable thread_os
      (fresh_ctx\<lparr>usb_ctx := (usb_ctx fresh_ctx)\<lparr>ep_path := [[0x61], [0x6F], [0x63]]\<rparr>\<rparr>) True) True)) = [5, -1, -1]"
proof -
  let ?c = "fresh_ctx\<lparr>usb_ctx := (usb_ctx fresh_ctx)\<lparr>ep_path := [[0x61], [0x6F], [0x63]]\<rparr>\<rparr>"
  have "ep_handles (usb_ctx ?c) = [-1, -1, -1]" "thread_not_started (usb_ctx ?c) = 1"
    "ep_path (usb_ctx ?c) = [[0x61], [0x6F], [0x63]]" "world ?c = 0"
    by (simp_all add: fresh_ctx_def new_gadget_def)
  then show ?thesis using enable_retry_incomplete[of ?c thread_os 0 5 0 "Suc 0"] by simp
qed

section \<open>Cancellation\<close>

lemma control_requests:
  assumes "bRequest r = 0x64" "bRequest s = 0x67"
  shows "handle_setup_request os ctx r = (request_cancel os ctx, [])"
    "handle_setup_request os ctx s =
       (case device_status os ctx of (c, code) \<Rightarrow> ep0_write os c s (le16 4 @ le16 code))"
  using assms by (simp_all add: handle_setup_request_def)

lemma ep0_write_frame:
  assumes "ep0_write os ctx s bs = (ctx', acts)"
  shows "\<exists>w. ctx' = ctx\<lparr>world := w\<rparr>" "Data bs \<in> set acts"
  using assms by (auto simp: ep0_write_def split: prod.splits if_splits)



section \<open>The host leaves and comes back\<close>

lemma fold_rmwatch_step:
  "fs_step ctx (fold (\<lambda>p c. if wd p \<noteq> -1 then inotify_handler_rmwatch os c (wd p) else c) ps ctx)"
proof (induction ps arbitrary: ctx)
  case (Cons p ps)
  have "fs_step ctx (if wd p \<noteq> -1 then inotify_handler_rmwatch os ctx (wd p) else ctx)"
    by (simp add: inotify_handler_rmwatch_def)
  from fs_step_trans[OF this Cons] show ?case by simp
qed simp

lemma deinit_fs_db_step: "fs_step ctx (deinit_fs_db os ctx)"
proof -
  have "fs_step c (entry_close os c p)" for c :: "'a mtp_ctx" and p
    by (simp add: entry_close_def Let_def split: option.splits)
  then show ?thesis
    unfolding deinit_fs_db_def Let_def by (rule fs_step_trans[OF fold_rmwatch_step])
qed

text \<open>C28. When the host leaves a FunctionFS gadget the thread is gone, the database is dropped and the
  end points stay open; when it comes back a new thread is started and nothing is opened again.
\<close>

theorem ffs_leaves_and_returns:
  assumes "\<And>w. \<not> os_lock_fails os w" "thread_not_started (usb_ctx ctx) = 0" "0 < ep_handles (usb_ctx ctx) ! 0"
    and "ffs_disable os ctx = c1"
    and "os_thread_create os (world c1) = (w, ret)"
  shows "fs_db c1 = None \<and> thread_not_started (usb_ctx c1) = 1 \<and> \<not> stop (usb_ctx c1) \<and>
      ep_handles (usb_ctx c1) = ep_handles (usb_ctx ctx) \<and> storages c1 = storages ctx \<and> \<not> inotify_locked c1 \<and>
    enable os c1 True = with_gadget (\<lambda>g. g\<lparr>thread_not_started := ret\<rparr>) (c1\<lparr>world := w\<rparr>)"
proof -
  let ?c = "(if transferring_file_data ctx then ctx\<lparr>cancel_req := 2, world := os_thread_stop os (world ctx)\<rparr> else ctx)"
  let ?d = "with_gadget (\<lambda>g. g\<lparr>thread_not_started := 1, stop := False\<rparr>) (?c\<lparr>world := os_thread_stop os (world ?c)\<rparr>)"
  have "c1 = unlock_inotify ((deinit_fs_db os (lock_inotify ?d))\<lparr>fs_db := None\<rparr>)"
    using assms(1,2,4) by (simp add: ffs_disable_def Let_def with_gadget_def comp_def)
  moreover obtain w' db where "deinit_fs_db os (lock_inotify ?d) = (lock_inotify ?d)\<lparr>world := w', fs_db := db\<rparr>"
    using fs_step_shape[OF deinit_fs_db_step[of "lock_inotify ?d" os]] by blast
  ultimately have c1: "c1 = ?d\<lparr>world := w', fs_db := None, inotify_locked := False\<rparr>"
    by (simp add: lock_inotify_def unlock_inotify_def with_gadget_def)
  have 1: "fs_db c1 = None \<and> thread_not_started (usb_ctx c1) = 1 \<and> \<not> stop (usb_ctx c1) \<and>
      ep_handles (usb_ctx c1) = ep_handles (usb_ctx ctx) \<and> storages c1 = storages ctx \<and> \<not> inotify_locked c1"
    unfolding c1 by simp
  have "with_gadget (\<lambda>g. g\<lparr>stop := False\<rparr>) c1 = c1"
    using 1 by (cases c1; cases "usb_ctx c1") (simp add: with_gadget_def)
  then have "enable os c1 True = with_gadget (\<lambda>g. g\<lparr>thread_not_started := ret\<rparr>) (c1\<lparr>world := w\<rparr>)"
    using 1 assms(3,5) by (simp add: enable_def Let_def)
  with 1 show ?thesis by blast
qed

theorem ffs_leaves_and_returns_witness:
  "fs_db (ffs_disable plain_os sample_ctx) = None"
  using ffs_leaves_and_returns[of plain_os sample_ctx "ffs_disable plain_os sample_ctx"
      "fst (os_thread_create plain_os (world (ffs_disable plain_os sample_ctx)))"
      "snd (os_thread_create plain_os (world (ffs_disable plain_os sample_ctx)))"]
  by (simp add: sample_ctx_def sample_gadget_def)

section \<open>The gadget is built whole or not at all\<close>

lemma option_pair_cases:
  obtains (crash) "r = None" | (null) c where "r = Some (c, None)" | (gadget) c g where "r = Some (c, Some g)"
  by (cases r; cases "snd (the r)") auto

lemma init_gadget_facts:
  "case init_usb_mtp_gadget os ctx of
     None \<Rightarrow> usb_functionfs_mode (usb_cfg ctx) \<noteq> 0 \<and> 128 \<le> length (usb_string_interface (usb_cfg ctx))
   | Some (ctx', None) \<Rightarrow> wrbuffer ctx' = [] \<and> rdbuffer ctx' = [] \<and> rdbuffer2 ctx' = [] \<and> storages ctx' = storages ctx \<and>
       fs_db ctx' = fs_db ctx \<and> inotify_locked ctx' = inotify_locked ctx
   | Some (ctx', Some g) \<Rightarrow>
       usb_device g \<ge> 0 \<and> ep_handles g = [-1, -1, -1] \<and> thread_not_started g = 1 \<and> \<not> stop g \<and>
       stringtab g = gadget_strings (usb_cfg ctx) \<and>
       int (length (wrbuffer ctx')) = usb_wr_buffer_max_size ctx \<and>
       int (length (rdbuffer ctx')) = usb_rd_buffer_max_size ctx \<and>
       int (length (rdbuffer2 ctx')) = usb_rd_buffer_max_size ctx \<and> storages ctx' = storages ctx \<and>
       fs_db ctx' = fs_db ctx \<and> inotify_locked ctx' = inotify_locked ctx \<and>
       (if usb_functionfs_mode (usb_cfg ctx) \<noteq> 0
        then usb_ffs_config g = Some (ffs_config_of (usb_cfg ctx)) \<and> usb_config g = None
        else usb_config g = Some (gadgetfs_config_of (usb_cfg ctx)) \<and> usb_ffs_config g = None)"
proof -
  have d: "wrbuffer (deinit_usb_mtp_gadget os c g) = []" "rdbuffer (deinit_usb_mtp_gadget os c g) = []"
    "rdbuffer2 (deinit_usb_mtp_gadget os c g) = []" "storages (deinit_usb_mtp_gadget os c g) = storages c"
    "fs_db (deinit_usb_mtp_gadget os c g) = fs_db c"
    "inotify_locked (deinit_usb_mtp_gadget os c g) = inotify_locked c" for c g
    by (simp_all add: deinit_usb_mtp_gadget_def Let_def split: option.splits)
  have f: "case ffs_setup os c g of
      None \<Rightarrow> 128 \<le> length (usb_string_interface (usb_cfg c))
    | Some (c', None) \<Rightarrow> wrbuffer c' = [] \<and> rdbuffer c' = [] \<and> rdbuffer2 c' = [] \<and> storages c' = storages c \<and> fs_db c' = fs_db c \<and>
        inotify_locked c' = inotify_locked c
    | Some (c', Some g') \<Rightarrow> c'\<lparr>world := world c\<rparr> = c \<and> g' = g\<lparr>usb_ffs_config := Some (ffs_config_of (usb_cfg c))\<rparr>" for c g
  proof -
    obtain w ok where w: "write_whole os (world c) (usb_device g) (usb_ffs_cfg_bytes (ffs_config_of (usb_cfg c))) = (w, ok)"
      by fastforce
    obtain w2 ok2 where w2: "write_whole os w (usb_device g)
        (the (ffs_strings_bytes (usb_string_interface (usb_cfg c)))) = (w2, ok2)" by fastforce
    show ?thesis
      using w2 by (cases ok; cases ok2; cases "128 \<le> length (usb_string_interface (usb_cfg c))")
        (simp_all add: ffs_setup_def w ffs_strings_bytes_def d Let_def)
  qed
  have q: "case gadgetfs_setup os c g of
      (c', None) \<Rightarrow> wrbuffer c' = [] \<and> rdbuffer c' = [] \<and> rdbuffer2 c' = [] \<and> storages c' = storages c \<and> fs_db c' = fs_db c \<and>
        inotify_locked c' = inotify_locked c
    | (c', Some g') \<Rightarrow> c'\<lparr>world := world c\<rparr> = c \<and> g' = g\<lparr>usb_config := Some (gadgetfs_config_of (usb_cfg c))\<rparr>" for c g
    by (cases "write_whole os (world c) (usb_device g) (usb_cfg_bytes (gadgetfs_config_of (usb_cfg c)))")
      (simp add: gadgetfs_setup_def d Let_def)
  have fr: "wrbuffer c' = wrbuffer c" "rdbuffer c' = rdbuffer c" "rdbuffer2 c' = rdbuffer2 c" "storages c' = storages c" "fs_db c' = fs_db c"
    "inotify_locked c' = inotify_locked c" if "c'\<lparr>world := world c\<rparr> = c" for c c'
    by (subst that[symmetric], simp)+
  show ?thesis
  proof (cases "usb_wr_buffer_max_size ctx < 0 \<or> usb_rd_buffer_max_size ctx < 0")
    case True
    then show ?thesis by (simp add: init_usb_mtp_gadget_def d)
  next
    case False
    obtain w fd where o: "os_open os (world ctx) (usb_device_path (usb_cfg ctx)) [O_RDWR, O_SYNC] = (w, fd)" by fastforce
    let ?c = "ctx\<lparr>wrbuffer := replicate (nat (usb_wr_buffer_max_size ctx)) 0,
        rdbuffer := replicate (nat (usb_rd_buffer_max_size ctx)) 0,
        rdbuffer2 := replicate (nat (usb_rd_buffer_max_size ctx)) 0, world := w\<rparr>"
    let ?g = "(new_gadget (usb_cfg ctx))\<lparr>usb_device := fd\<rparr>"
    have i: "init_usb_mtp_gadget os ctx = (if fd < 0 then Some (deinit_usb_mtp_gadget os ?c (Some ?g), None)
        else if usb_functionfs_mode (usb_cfg ctx) \<noteq> 0 then ffs_setup os ?c ?g else Some (gadgetfs_setup os ?c ?g))"
      using False o by (simp add: init_usb_mtp_gadget_def Let_def)
    have g: "ep_handles ?g = [-1, -1, -1]" "thread_not_started ?g = 1" "\<not> stop ?g" "stringtab ?g = gadget_strings (usb_cfg ctx)"
      "usb_ffs_config ?g = None" "usb_config ?g = None" by (simp_all add: new_gadget_def)
    define ok where "ok c' g' \<longleftrightarrow> usb_device g' \<ge> 0 \<and> ep_handles g' = [-1, -1, -1] \<and> thread_not_started g' = 1 \<and> \<not> stop g' \<and>
       stringtab g' = gadget_strings (usb_cfg ctx) \<and>
       int (length (wrbuffer c')) = usb_wr_buffer_max_size ctx \<and>
       int (length (rdbuffer c')) = usb_rd_buffer_max_size ctx \<and>
       int (length (rdbuffer2 c')) = usb_rd_buffer_max_size ctx \<and> storages c' = storages ctx \<and> fs_db c' = fs_db ctx \<and> inotify_locked c' = inotify_locked ctx \<and>
       (if usb_functionfs_mode (usb_cfg ctx) \<noteq> 0
        then usb_ffs_config g' = Some (ffs_config_of (usb_cfg ctx)) \<and> usb_config g' = None
        else usb_config g' = Some (gadgetfs_config_of (usb_cfg ctx)) \<and> usb_ffs_config g' = None)" for c' :: "'a mtp_ctx" and g' :: usb_gadget
    have sizes: "ok c' g'" if "c'\<lparr>world := world ?c\<rparr> = ?c" "ok ?c g'" for c' g'
      using that(2) unfolding ok_def by (simp add: fr[OF that(1)])
    consider (closed) "fd < 0" | (ffs) "\<not> fd < 0" "usb_functionfs_mode (usb_cfg ctx) \<noteq> 0"
      | (gadgetfs) "\<not> fd < 0" "usb_functionfs_mode (usb_cfg ctx) = 0" by blast
    then have "case init_usb_mtp_gadget os ctx of
         None \<Rightarrow> usb_functionfs_mode (usb_cfg ctx) \<noteq> 0 \<and> 128 \<le> length (usb_string_interface (usb_cfg ctx))
       | Some (c', None) \<Rightarrow> wrbuffer c' = [] \<and> rdbuffer c' = [] \<and> rdbuffer2 c' = [] \<and> storages c' = storages ctx \<and> fs_db c' = fs_db ctx \<and> inotify_locked c' = inotify_locked ctx
       | Some (c', Some g') \<Rightarrow> ok c' g'" (is ?claim)
    proof cases
      case closed
      then show ?claim by (simp add: i d)
    next
      case ffs
      let ?h = "?g\<lparr>usb_ffs_config := Some (ffs_config_of (usb_cfg ctx))\<rparr>"
      have "init_usb_mtp_gadget os ctx = ffs_setup os ?c ?g" using ffs by (simp add: i)
      moreover have "ok ?c ?h" unfolding ok_def using ffs False g by simp
      ultimately show ?claim
        using f[of ?c ?g] ffs(2) sizes[of _ ?h]
        by (cases "ffs_setup os ?c ?g" rule: option_pair_cases) simp_all
    next
      case gadgetfs
      let ?h = "?g\<lparr>usb_config := Some (gadgetfs_config_of (usb_cfg ctx))\<rparr>"
      have "init_usb_mtp_gadget os ctx = Some (gadgetfs_setup os ?c ?g)" using gadgetfs by (simp add: i)
      moreover have "ok ?c ?h" unfolding ok_def using gadgetfs False g by simp
      ultimately show ?claim
        using q[of ?c ?g] sizes[of _ ?h]
        by (cases "Some (gadgetfs_setup os ?c ?g)" rule: option_pair_cases) simp_all
    qed
    then show ?thesis unfolding ok_def .
  qed
qed

lemma init_gadget_started:
  assumes "init_usb_mtp_gadget os ctx = Some (c, Some g)"
  shows "usb_device g \<ge> 0" "ep_handles g = [-1, -1, -1]" "thread_not_started g = 1" "\<not> stop g"
    "storages c = storages ctx" "fs_db c = fs_db ctx" "inotify_locked c = inotify_locked ctx"
  using init_gadget_facts[where os = os and ctx = ctx] by (simp_all add: assms)

lemma init_gadget_failed:
  assumes "init_usb_mtp_gadget os ctx = Some (c, None)"
  shows "wrbuffer c = []" "rdbuffer c = []" "rdbuffer2 c = []" "storages c = storages ctx" "fs_db c = fs_db ctx" "inotify_locked c = inotify_locked ctx"
  using init_gadget_facts[where os = os and ctx = ctx] by (simp_all add: assms)

text \<open>C27. The start of the gadget gives one whose device is open, whose end points are closed, whose
  thread is not running and whose buffers have the configured sizes, or none with the buffers given
  back; it fails to return only when the interface string of a FunctionFS gadget does not fit its
  128 bytes.
\<close>

theorem init_gadget_result:
  "case init_usb_mtp_gadget os ctx of
     None \<Rightarrow> usb_functionfs_mode (usb_cfg ctx) \<noteq> 0 \<and> 128 \<le> length (usb_string_interface (usb_cfg ctx))
   | Some (ctx', None) \<Rightarrow> wrbuffer ctx' = [] \<and> rdbuffer ctx' = [] \<and> rdbuffer2 ctx' = [] \<and> storages ctx' = storages ctx \<and>
       fs_db ctx' = fs_db ctx \<and> inotify_locked ctx' = inotify_locked ctx
   | Some (ctx', Some g) \<Rightarrow>
       usb_device g \<ge> 0 \<and> ep_handles g = [-1, -1, -1] \<and> thread_not_started g = 1 \<and> \<not> stop g \<and>
       stringtab g = gadget_strings (usb_cfg ctx) \<and>
       int (length (wrbuffer ctx')) = usb_wr_buffer_max_size ctx \<and>
       int (length (rdbuffer ctx')) = usb_rd_buffer_max_size ctx \<and>
       int (length (rdbuffer2 ctx')) = usb_rd_buffer_max_size ctx \<and> storages ctx' = storages ctx \<and>
       fs_db ctx' = fs_db ctx \<and> inotify_locked ctx' = inotify_locked ctx \<and>
       (if usb_functionfs_mode (usb_cfg ctx) \<noteq> 0
        then usb_ffs_config g = Some (ffs_config_of (usb_cfg ctx)) \<and> usb_config g = None
        else usb_config g = Some (gadgetfs_config_of (usb_cfg ctx)) \<and> usb_ffs_config g = None)"
  by (rule init_gadget_facts)

section \<open>Strings\<close>

lemma gadget_strings_explicit:
  "gadget_strings cfg =
    [(1, Some (usb_string_manufacturer cfg)), (2, Some (usb_string_product cfg)), (3, Some (usb_string_serial cfg)),
     (4, Some (bytes_of ''High speed configuration'')), (5, Some (bytes_of ''Low speed configuration'')),
     (6, Some (usb_string_interface cfg)), (7, None)] @ replicate 9 (0, None)"
  by (simp add: gadget_strings_def add_usb_string_def numeral_eq_Suc)

definition ascii_descriptor :: "cstr \<Rightarrow> byte list" where
  "ascii_descriptor str = [word_of_nat (2 * length str + 2), 3] @ concat (map (\<lambda>c. [c, 0]) str)"

lemma string_of_id:
  assumes "(i, Some str) \<in> set (gadget_strings cfg)" "\<forall>c\<in>set str. c \<noteq> 0 \<and> \<not> bit c 7" "length str \<le> 126"
  shows "usb_gadget_get_string \<lparr>language = 0x0409, strings = gadget_strings cfg\<rparr> i = Some (ascii_descriptor str)"
proof -
  have "i \<noteq> 0" "find (\<lambda>s. fst s = i) (takeWhile (\<lambda>s. snd s \<noteq> None) (gadget_strings cfg)) = Some (i, Some str)"
    using assms(1) by (auto simp: gadget_strings_explicit)
  moreover have "ucast (drop_bit 8 (ucast c :: u16)) = (0 :: byte)" for c :: byte
    by (rule bit_word_eqI) (auto simp: bit_simps dest: bit_imp_le_length)
  moreover have "ucast (ucast c :: u16) = c" for c :: byte by (rule bit_word_eqI) (simp add: bit_simps)
  ultimately have l: "le16 (ucast c) = [c, 0]" and f: "i \<noteq> 0"
    "find (\<lambda>s. fst s = i) (takeWhile (\<lambda>s. snd s \<noteq> None) (gadget_strings cfg)) = Some (i, Some str)" for c :: byte by (simp_all add: le16_def)
  from l have "concat (map le16 (map ucast str)) = concat (map (\<lambda>c. [c, 0]) str)" by (induction str) simp_all
  then show ?thesis
    using assms(2,3) f by (simp add: usb_gadget_get_string_def utf8_to_utf16le_ascii ascii_descriptor_def)
qed

text \<open>A host that asks for a string of the gadget gets it: every configured string of at most 126 plain
  characters, under its identifier, as its own length, the type and its UTF-16 units; an identifier
  nobody has is stalled.
\<close>

theorem strings_served:
  assumes "bRequest setup = 6" "bRequestType setup = 0x80" "drop_bit 8 (wValue setup) = 3"
    and "unat (wValue setup AND 0xFF) = i"
    and "stringtab (usb_ctx ctx) = gadget_strings cfg"
  shows "(i, Some str) \<in> set (gadget_strings cfg) \<Longrightarrow> \<forall>c\<in>set str. c \<noteq> 0 \<and> \<not> bit c 7 \<Longrightarrow> length str \<le> 126 \<Longrightarrow>
      handle_setup_request os ctx setup =
        ep0_write os ctx setup ([word_of_nat (2 * length str + 2), 3] @ concat (map (\<lambda>c. [c, 0]) str))"
    "6 < i \<Longrightarrow> handle_setup_request os ctx setup = (ctx, [Stall_read])"
proof -
  have r: "handle_setup_request os ctx setup =
    (case usb_gadget_get_string \<lparr>language = 0x0409, strings = gadget_strings cfg\<rparr> i of
       None \<Rightarrow> (ctx, [stall setup]) | Some buffer \<Rightarrow> ep0_write os ctx setup buffer)"
    using assms by (simp add: handle_setup_request_def Let_def)
  show "handle_setup_request os ctx setup =
        ep0_write os ctx setup ([word_of_nat (2 * length str + 2), 3] @ concat (map (\<lambda>c. [c, 0]) str))"
    if "(i, Some str) \<in> set (gadget_strings cfg)" "\<forall>c\<in>set str. c \<noteq> 0 \<and> \<not> bit c 7" "length str \<le> 126"
    using string_of_id[OF that] by (simp add: r ascii_descriptor_def)
  show "handle_setup_request os ctx setup = (ctx, [Stall_read])" if "6 < i"
  proof -
    have "usb_gadget_get_string \<lparr>language = 0x0409, strings = gadget_strings cfg\<rparr> i = None"
      using that by (simp add: usb_gadget_get_string_def gadget_strings_explicit)
    then show ?thesis using assms(2) by (simp add: r stall_def has_flag_def)
  qed
qed

theorem strings_served_witness:
  "let setup = \<lparr>bRequestType = 0x80, bRequest = 6, wValue = 0x302, wIndex = 0x0409, wLength = 255\<rparr>;
       ctx = sample_ctx\<lparr>usb_ctx := new_gadget (sample_cfg\<lparr>usb_string_product := [0x4D]\<rparr>)\<rparr>
   in handle_setup_request plain_os ctx setup = ep0_write plain_os ctx setup [4, 3, 0x4D, 0]"
  unfolding Let_def
  by (subst strings_served(1)[where i = 2 and str = "[0x4D]" and cfg = "sample_cfg\<lparr>usb_string_product := [0x4D]\<rparr>"])
    (simp_all add: new_gadget_def gadget_strings_explicit)

end
