(* ===== verification/Config.thy ===== *)
theory Config
  imports Ops "HOL-Library.List_Lexorder"
begin

text \<open>
  The configuration of \<open>src/mtp_cfg.c\<close>: words of a line, flags of a storage, the table of keywords
  and the commands behind it, and the loading of the files. A position in a line is the rest of
  the line there; the contents of files and directories are parameters.
\<close>

abbreviation (input) MAX_CFG_STRING_SIZE :: nat where "MAX_CFG_STRING_SIZE \<equiv> 512"

section \<open>Words of a line\<close>

definition is_end_line :: "byte \<Rightarrow> bool" where
  "is_end_line c \<longleftrightarrow> c = 0 \<or> c = 0x23 \<or> c = 0x0D \<or> c = 0x0A"

definition is_space :: "byte \<Rightarrow> bool" where
  "is_space c \<longleftrightarrow> c = 0x20 \<or> c = 0x09"

text \<open>Only blanks are skipped, not tabulators.\<close>

fun get_next_word :: "cstr \<Rightarrow> cstr" where
  "get_next_word [] = []"
| "get_next_word (c # cs) = (if \<not> is_end_line c \<and> c = 0x20 then get_next_word cs else c # cs)"

text \<open>The parameter and the position behind it; \<open>i\<close> is what was copied so far.\<close>

fun copy_param_loop :: "cstr \<Rightarrow> bool \<Rightarrow> nat \<Rightarrow> cstr \<times> cstr" where
  "copy_param_loop [] insidequote i = ([], [])"
| "copy_param_loop (c # cs) insidequote i =
    (if \<not> is_end_line c \<and> (insidequote \<or> \<not> is_space c) \<and> i < MAX_CFG_STRING_SIZE - 1 then
       (if c \<noteq> 0x22 then (case copy_param_loop cs insidequote (Suc i) of (dest, rest) \<Rightarrow> (c # dest, rest))
        else copy_param_loop cs (\<not> insidequote) i)
     else ([], c # cs))"

definition copy_param :: "cstr \<Rightarrow> cstr \<times> cstr" where
  "copy_param line = copy_param_loop line False 0"

text \<open>\<open>None\<close> is the offset -1: the line, or its comment, comes before the parameter.\<close>

fun skip_params :: "nat \<Rightarrow> cstr \<Rightarrow> cstr option" where
  "skip_params 0 line = Some line"
| "skip_params (Suc n) line =
    (let rest = get_next_word (snd (copy_param line))
     in if at rest 0 = 0 \<or> at rest 0 = 0x23 then None else skip_params n rest)"

definition get_param_offset :: "cstr \<Rightarrow> nat \<Rightarrow> cstr option" where
  "get_param_offset line k = skip_params k (get_next_word line)"

definition get_param :: "cstr \<Rightarrow> nat \<Rightarrow> cstr option" where
  "get_param line k = map_option (\<lambda>rest. fst (copy_param rest)) (get_param_offset line k)"

definition extract_cmd :: "cstr \<Rightarrow> cstr" where
  "extract_cmd line =
    take (MAX_CFG_STRING_SIZE - 1) (takeWhile (\<lambda>c. \<not> is_end_line c \<and> \<not> is_space c) (get_next_word line))"

section \<open>Flags\<close>

definition strncmp_eq :: "cstr \<Rightarrow> cstr \<Rightarrow> bool" where
  "strncmp_eq s flag \<longleftrightarrow> take (length flag) s = flag"

text \<open>The result, and the parameter behind an equal sign when there is one.\<close>

fun test_flag_loop :: "cstr \<Rightarrow> cstr \<Rightarrow> byte \<Rightarrow> bool \<times> cstr option" where
  "test_flag_loop [] flag previous_char = (False, None)"
| "test_flag_loop (c # cs) flag previous_char =
    (let next_char = at (c # cs) (length flag) in
     if strncmp_eq (c # cs) flag \<and> (previous_char = 0 \<or> previous_char = 0x2C) \<and>
        (next_char = 0 \<or> next_char = 0x2C \<or> next_char = 0x3D)
     then (True, if next_char = 0x3D
                 then Some (take (MAX_CFG_STRING_SIZE - 1)
                        (takeWhile (\<lambda>b. b \<noteq> 0x2C \<and> b \<noteq> 0x20) (drop (length flag + 1) (c # cs))))
                 else None)
     else test_flag_loop cs flag c)"

definition test_flag :: "cstr \<Rightarrow> cstr \<Rightarrow> bool \<times> cstr option" where
  "test_flag str flag = test_flag_loop str flag 0"

section \<open>Numbers\<close>

text \<open>
  \<open>strtoul\<close> and \<open>atoi\<close> of the C library: white space, a sign, for base 16 a 0x, then digits as far
  as they go. What does not fit is ULONG_MAX for the one, the nearest LONG for the other.
\<close>

definition c_isspace :: "byte \<Rightarrow> bool" where
  "c_isspace c \<longleftrightarrow> c = 0x20 \<or> (0x09 \<le> c \<and> c \<le> 0x0D)"

definition digit_of :: "byte \<Rightarrow> nat option" where
  "digit_of c = (if 0x30 \<le> c \<and> c \<le> 0x39 then Some (unat c - 0x30)
                 else if 0x61 \<le> c \<and> c \<le> 0x66 then Some (unat c - 0x57)
                 else if 0x41 \<le> c \<and> c \<le> 0x46 then Some (unat c - 0x37) else None)"

fun digits_value :: "nat \<Rightarrow> cstr \<Rightarrow> nat \<Rightarrow> nat" where
  "digits_value base [] acc = acc"
| "digits_value base (c # cs) acc =
    (case digit_of c of Some d \<Rightarrow> if d < base then digits_value base cs (acc * base + d) else acc | None \<Rightarrow> acc)"

definition strip_sign :: "cstr \<Rightarrow> bool \<times> cstr" where
  "strip_sign s = (let t = dropWhile c_isspace s in
     if at t 0 = 0x2D then (True, drop 1 t) else if at t 0 = 0x2B then (False, drop 1 t) else (False, t))"

definition strip_0x :: "nat \<Rightarrow> cstr \<Rightarrow> cstr" where
  "strip_0x base s =
    (if base = 16 \<and> at s 0 = 0x30 \<and> (at s 1 = 0x78 \<or> at s 1 = 0x58) \<and> digit_of (at s 2) \<noteq> None then drop 2 s else s)"

definition strtoul :: "cstr \<Rightarrow> nat \<Rightarrow> u64" where
  "strtoul s base =
    (let (neg, t) = strip_sign s; v = digits_value base (strip_0x base t) 0
     in if v \<ge> 2 ^ 64 then 0xFFFFFFFFFFFFFFFF else if neg then - word_of_nat v else word_of_nat v)"

definition int_of_ulong :: "u64 \<Rightarrow> int" where
  "int_of_ulong v = sint (ucast v :: u32)"

definition atoi :: "cstr \<Rightarrow> int" where
  "atoi s =
    (let (neg, t) = strip_sign s; v = int (digits_value 10 t 0);
         l = (if neg then max (- (2 ^ 63)) (- v) else min (2 ^ 63 - 1) v)
     in sint (word_of_int l :: u32))"

section \<open>Storages\<close>

definition add_storage :: "'w os \<Rightarrow> 'w mtp_ctx \<Rightarrow> cstr \<Rightarrow> cstr \<Rightarrow> int \<Rightarrow> int \<Rightarrow> u32 \<Rightarrow> 'w mtp_ctx" where
  "add_storage os ctx path descr u g fl =
    ctx\<lparr>storages := fst (mtp_add_storage
      (\<lambda>p. case os_realpath os (world ctx) p of Inr r \<Rightarrow> Some r | Inl _ \<Rightarrow> None) (storages ctx) path descr u g fl)\<rparr>"

definition has_option :: "cstr \<Rightarrow> string \<Rightarrow> bool" where
  "has_option options flag = fst (test_flag options (bytes_of flag))"

text \<open>The flags of the storage; \<open>rw\<close> adds none.\<close>

definition storage_flags_of :: "cstr \<Rightarrow> u32" where
  "storage_flags_of options =
    UMTP_STORAGE_READWRITE OR (if has_option options ''ro'' then UMTP_STORAGE_READONLY else 0) OR
    (if has_option options ''rw'' then UMTP_STORAGE_READWRITE else 0) OR
    (if has_option options ''notmounted'' then UMTP_STORAGE_NOTMOUNTED else 0) OR
    (if has_option options ''removable'' then UMTP_STORAGE_REMOVABLE else 0) OR
    (if has_option options ''locked'' then UMTP_STORAGE_LOCKABLE OR UMTP_STORAGE_LOCKED else 0)"

text \<open>
  An identity named without a value is read from a buffer the code has not written: \<open>stack\<close> is
  what is there.
\<close>

definition storage_ids_of :: "cstr \<Rightarrow> cstr \<Rightarrow> int \<times> int" where
  "storage_ids_of stack options =
    (let (u_found, u_val) = test_flag options (bytes_of ''uid'');
         tmpstr1 = (case u_val of Some v \<Rightarrow> v | None \<Rightarrow> stack);
         (g_found, g_val) = test_flag options (bytes_of ''gid'');
         tmpstr2 = (case g_val of Some v \<Rightarrow> v | None \<Rightarrow> tmpstr1)
     in (if u_found then atoi tmpstr1 else -1, if g_found then atoi tmpstr2 else -1))"

definition mtp_add_storage_from_line :: "cstr \<Rightarrow> 'w os \<Rightarrow> 'w mtp_ctx \<Rightarrow> cstr \<Rightarrow> nat \<Rightarrow> 'w mtp_ctx" where
  "mtp_add_storage_from_line stack os ctx line idx =
    (case (get_param line (idx + 1), get_param line idx) of
       (Some storagename, Some storagepath) \<Rightarrow>
         (case get_param line (idx + 2) of
            None \<Rightarrow> add_storage os ctx storagepath storagename (-1) (-1) UMTP_STORAGE_READWRITE
          | Some options \<Rightarrow>
              (case storage_ids_of stack options of
                 (u, g) \<Rightarrow> add_storage os ctx storagepath storagename u g (storage_flags_of options)))
     | _ \<Rightarrow> ctx)"

definition mtp_remove_storage_from_line :: "'w mtp_ctx \<Rightarrow> cstr \<Rightarrow> nat \<Rightarrow> 'w mtp_ctx \<times> int" where
  "mtp_remove_storage_from_line ctx name idx =
    (case get_param name idx of
       None \<Rightarrow> (ctx, -1)
     | Some storagename \<Rightarrow> (case mtp_remove_storage (storages ctx) storagename of
         (sts, r) \<Rightarrow> (ctx\<lparr>storages := sts\<rparr>, r)))"

section \<open>Commands\<close>

datatype cfg_cmd = STORAGE_CMD
  | USBVENDORID_CMD | USBPRODUCTID_CMD | USBCLASS_CMD | USBSUBCLASS_CMD | USBPROTOCOL_CMD | USBDEVVERSION_CMD
  | USBMAXPACKETSIZE_CMD | USBFUNCTIONFSMODE_CMD | USBMAXRDBUFFERSIZE_CMD | USBMAXWRBUFFERSIZE_CMD | READBUFFERSIZE_CMD
  | USB_DEV_PATH_CMD | USB_EPIN_PATH_CMD | USB_EPOUT_PATH_CMD | USB_EPINT_PATH_CMD
  | MANUFACTURER_STRING_CMD | PRODUCT_STRING_CMD | SERIAL_STRING_CMD | VERSION_STRING_CMD
  | MTP_EXTENSIONS_STRING_CMD | MTP_SYNC_PARTNER_STRING_CMD | INTERFACE_STRING_CMD
  | BATTERY_CAPACITY_CMD | PERCEIVED_DEVICE_TYPE_CMD | WAIT_CONNECTION | LOOP_ON_DISCONNECT
  | SHOW_HIDDEN_FILES | UMASK | DEFAULT_UID_CMD | DEFAULT_GID_CMD | NO_INOTIFY | SYNC_WHEN_CLOSE

datatype kw_func = get_storage_params | get_hex_param | get_str_param | get_oct_param | get_dec_param

definition with_cfg :: "(mtp_usb_cfg \<Rightarrow> mtp_usb_cfg) \<Rightarrow> 'w mtp_ctx \<Rightarrow> 'w mtp_ctx" where
  "with_cfg f ctx = ctx\<lparr>usb_cfg := f (usb_cfg ctx)\<rparr>"

definition set_hex :: "'w mtp_ctx \<Rightarrow> cfg_cmd \<Rightarrow> u64 \<Rightarrow> 'w mtp_ctx" where
  "set_hex ctx cmd v =
    (case cmd of
       USBVENDORID_CMD \<Rightarrow> if v < 0x10000 then with_cfg (\<lambda>c. c\<lparr>usb_vendor_id := ucast v\<rparr>) ctx else ctx
     | USBPRODUCTID_CMD \<Rightarrow> if v < 0x10000 then with_cfg (\<lambda>c. c\<lparr>usb_product_id := ucast v\<rparr>) ctx else ctx
     | USBCLASS_CMD \<Rightarrow> if v < 256 then with_cfg (\<lambda>c. c\<lparr>usb_class := ucast v\<rparr>) ctx else ctx
     | USBSUBCLASS_CMD \<Rightarrow> if v < 256 then with_cfg (\<lambda>c. c\<lparr>usb_subclass := ucast v\<rparr>) ctx else ctx
     | USBPROTOCOL_CMD \<Rightarrow> if v < 256 then with_cfg (\<lambda>c. c\<lparr>usb_protocol := ucast v\<rparr>) ctx else ctx
     | USBDEVVERSION_CMD \<Rightarrow> if v < 0x10000 then with_cfg (\<lambda>c. c\<lparr>usb_dev_version := ucast v\<rparr>) ctx else ctx
     | USBMAXPACKETSIZE_CMD \<Rightarrow> with_cfg (\<lambda>c. c\<lparr>usb_max_packet_size := (if v < 0x10000 then ucast v else 512)\<rparr>) ctx
     | USBMAXRDBUFFERSIZE_CMD \<Rightarrow> ctx\<lparr>usb_rd_buffer_max_size := int_of_ulong (v AND NOT 511)\<rparr>
     | USBMAXWRBUFFERSIZE_CMD \<Rightarrow> ctx\<lparr>usb_wr_buffer_max_size := int_of_ulong (v AND NOT 511)\<rparr>
     | READBUFFERSIZE_CMD \<Rightarrow> ctx\<lparr>read_file_buffer_size := int_of_ulong v\<rparr>
     | USBFUNCTIONFSMODE_CMD \<Rightarrow> with_cfg (\<lambda>c. c\<lparr>usb_functionfs_mode := (if v \<noteq> 0 then 1 else 0)\<rparr>) ctx
     | WAIT_CONNECTION \<Rightarrow> with_cfg (\<lambda>c. c\<lparr>wait_connection := int_of_ulong v\<rparr>) ctx
     | LOOP_ON_DISCONNECT \<Rightarrow> with_cfg (\<lambda>c. c\<lparr>loop_on_disconnect := int_of_ulong v\<rparr>) ctx
     | SHOW_HIDDEN_FILES \<Rightarrow> with_cfg (\<lambda>c. c\<lparr>show_hidden_files := int_of_ulong v\<rparr>) ctx
     | NO_INOTIFY \<Rightarrow> ctx\<lparr>no_inotify := int_of_ulong v\<rparr>
     | SYNC_WHEN_CLOSE \<Rightarrow> ctx\<lparr>sync_when_close := int_of_ulong v\<rparr>
     | PERCEIVED_DEVICE_TYPE_CMD \<Rightarrow> with_cfg (\<lambda>c. c\<lparr>perceived_device_type := ucast v\<rparr>) ctx
     | _ \<Rightarrow> ctx)"

definition set_str :: "'w mtp_ctx \<Rightarrow> cfg_cmd \<Rightarrow> cstr \<Rightarrow> 'w mtp_ctx" where
  "set_str ctx cmd v =
    (case cmd of
       USB_DEV_PATH_CMD \<Rightarrow> with_cfg (\<lambda>c. c\<lparr>usb_device_path := v\<rparr>) ctx
     | USB_EPIN_PATH_CMD \<Rightarrow> with_cfg (\<lambda>c. c\<lparr>usb_endpoint_in := v\<rparr>) ctx
     | USB_EPOUT_PATH_CMD \<Rightarrow> with_cfg (\<lambda>c. c\<lparr>usb_endpoint_out := v\<rparr>) ctx
     | USB_EPINT_PATH_CMD \<Rightarrow> with_cfg (\<lambda>c. c\<lparr>usb_endpoint_intin := v\<rparr>) ctx
     | MANUFACTURER_STRING_CMD \<Rightarrow> with_cfg (\<lambda>c. c\<lparr>usb_string_manufacturer := v\<rparr>) ctx
     | PRODUCT_STRING_CMD \<Rightarrow> with_cfg (\<lambda>c. c\<lparr>usb_string_product := v\<rparr>) ctx
     | SERIAL_STRING_CMD \<Rightarrow> with_cfg (\<lambda>c. c\<lparr>usb_string_serial := v\<rparr>) ctx
     | VERSION_STRING_CMD \<Rightarrow> with_cfg (\<lambda>c. c\<lparr>usb_string_version := v\<rparr>) ctx
     | MTP_EXTENSIONS_STRING_CMD \<Rightarrow> with_cfg (\<lambda>c. c\<lparr>usb_string_mtp_extensions := v\<rparr>) ctx
     | MTP_SYNC_PARTNER_STRING_CMD \<Rightarrow> with_cfg (\<lambda>c. c\<lparr>synchronization_partner := v\<rparr>) ctx
     | INTERFACE_STRING_CMD \<Rightarrow> with_cfg (\<lambda>c. c\<lparr>usb_string_interface := v\<rparr>) ctx
     | BATTERY_CAPACITY_CMD \<Rightarrow> with_cfg (\<lambda>c. c\<lparr>battery_capacity := v\<rparr>) ctx
     | _ \<Rightarrow> ctx)"

definition set_oct :: "'w mtp_ctx \<Rightarrow> cfg_cmd \<Rightarrow> u64 \<Rightarrow> 'w mtp_ctx" where
  "set_oct ctx cmd v = (case cmd of UMASK \<Rightarrow> with_cfg (\<lambda>c. c\<lparr>val_umask := int_of_ulong v\<rparr>) ctx | _ \<Rightarrow> ctx)"

definition set_dec :: "'w mtp_ctx \<Rightarrow> cfg_cmd \<Rightarrow> u64 \<Rightarrow> 'w mtp_ctx" where
  "set_dec ctx cmd v =
    (case cmd of
       DEFAULT_UID_CMD \<Rightarrow> ctx\<lparr>default_uid := int_of_ulong v\<rparr>
     | DEFAULT_GID_CMD \<Rightarrow> ctx\<lparr>default_gid := int_of_ulong v\<rparr>
     | _ \<Rightarrow> ctx)"

text \<open>The functions of the keyword table.\<close>

definition run_kw :: "cstr \<Rightarrow> 'w os \<Rightarrow> kw_func \<Rightarrow> 'w mtp_ctx \<Rightarrow> cstr \<Rightarrow> cfg_cmd \<Rightarrow> 'w mtp_ctx" where
  "run_kw stack os f ctx line cmd =
    (case f of
       get_storage_params \<Rightarrow> mtp_add_storage_from_line stack os ctx line 1
     | get_hex_param \<Rightarrow> (case get_param line 1 of Some t \<Rightarrow> set_hex ctx cmd (strtoul t 16) | None \<Rightarrow> ctx)
     | get_str_param \<Rightarrow> (case get_param line 1 of Some t \<Rightarrow> set_str ctx cmd t | None \<Rightarrow> ctx)
     | get_oct_param \<Rightarrow> (case get_param line 1 of Some t \<Rightarrow> set_oct ctx cmd (strtoul t 8) | None \<Rightarrow> ctx)
     | get_dec_param \<Rightarrow> (case get_param line 1 of Some t \<Rightarrow> set_dec ctx cmd (strtoul t 10) | None \<Rightarrow> ctx))"

definition kwlist :: "(string \<times> kw_func \<times> cfg_cmd) list" where
  "kwlist = [
     (''storage'', get_storage_params, STORAGE_CMD),
     (''usb_vendor_id'', get_hex_param, USBVENDORID_CMD),
     (''usb_product_id'', get_hex_param, USBPRODUCTID_CMD),
     (''usb_class'', get_hex_param, USBCLASS_CMD),
     (''usb_subclass'', get_hex_param, USBSUBCLASS_CMD),
     (''usb_protocol'', get_hex_param, USBPROTOCOL_CMD),
     (''usb_dev_version'', get_hex_param, USBDEVVERSION_CMD),
     (''usb_max_packet_size'', get_hex_param, USBMAXPACKETSIZE_CMD),
     (''usb_max_rd_buffer_size'', get_hex_param, USBMAXRDBUFFERSIZE_CMD),
     (''usb_max_wr_buffer_size'', get_hex_param, USBMAXWRBUFFERSIZE_CMD),
     (''read_buffer_cache_size'', get_hex_param, READBUFFERSIZE_CMD),
     (''usb_functionfs_mode'', get_hex_param, USBFUNCTIONFSMODE_CMD),
     (''usb_dev_path'', get_str_param, USB_DEV_PATH_CMD),
     (''usb_epin_path'', get_str_param, USB_EPIN_PATH_CMD),
     (''usb_epout_path'', get_str_param, USB_EPOUT_PATH_CMD),
     (''usb_epint_path'', get_str_param, USB_EPINT_PATH_CMD),
     (''manufacturer'', get_str_param, MANUFACTURER_STRING_CMD),
     (''product'', get_str_param, PRODUCT_STRING_CMD),
     (''serial'', get_str_param, SERIAL_STRING_CMD),
     (''firmware_version'', get_str_param, VERSION_STRING_CMD),
     (''interface'', get_str_param, INTERFACE_STRING_CMD),
     (''mtp_extensions'', get_str_param, MTP_EXTENSIONS_STRING_CMD),
     (''mtp_sync_partner'', get_str_param, MTP_SYNC_PARTNER_STRING_CMD),
     (''battery_capacity'', get_str_param, BATTERY_CAPACITY_CMD),
     (''perceived_device_type'', get_hex_param, PERCEIVED_DEVICE_TYPE_CMD),
     (''wait'', get_hex_param, WAIT_CONNECTION),
     (''loop_on_disconnect'', get_hex_param, LOOP_ON_DISCONNECT),
     (''show_hidden_files'', get_hex_param, SHOW_HIDDEN_FILES),
     (''umask'', get_oct_param, UMASK),
     (''default_uid'', get_dec_param, DEFAULT_UID_CMD),
     (''default_gid'', get_dec_param, DEFAULT_GID_CMD),
     (''no_inotify'', get_hex_param, NO_INOTIFY),
     (''sync_when_close'', get_hex_param, SYNC_WHEN_CLOSE)]"

definition exec_cmd :: "cstr \<Rightarrow> 'w os \<Rightarrow> 'w mtp_ctx \<Rightarrow> cstr \<Rightarrow> cstr \<Rightarrow> 'w mtp_ctx \<times> bool" where
  "exec_cmd stack os ctx command line =
    (case find (\<lambda>(keyword, f, cmd). bytes_of keyword = command) kwlist of
       Some (keyword, f, cmd) \<Rightarrow> (run_kw stack os f ctx line cmd, True)
     | None \<Rightarrow> (ctx, False))"

definition execute_line :: "cstr \<Rightarrow> 'w os \<Rightarrow> 'w mtp_ctx \<Rightarrow> cstr \<Rightarrow> 'w mtp_ctx \<times> bool" where
  "execute_line stack os ctx line =
    (let command = extract_cmd line in if command \<noteq> [] then exec_cmd stack os ctx command line else (ctx, False))"

section \<open>Files\<close>

text \<open>What \<open>fgets\<close> gives: up to 511 bytes, up to and with a newline, as a C string.\<close>

function fgets_lines :: "byte list \<Rightarrow> cstr list" where
  "fgets_lines bytes =
    (if bytes = [] then []
     else (let head = take (MAX_CFG_STRING_SIZE - 1) bytes;
               n = (if 0x0A \<in> set head then Suc (length (takeWhile (\<lambda>c. c \<noteq> 0x0A) head)) else length head)
           in takeWhile (\<lambda>c. c \<noteq> 0) (take n bytes) # fgets_lines (drop n bytes)))"
  by pat_completeness auto
termination by (relation "measure length") (auto simp: Let_def)

declare fgets_lines.simps [simp del]

text \<open>The files and directories there are; \<open>None\<close>: it cannot be opened.\<close>

record conf_files =
  file_bytes :: "cstr \<Rightarrow> byte list option"
  dir_names :: "cstr \<Rightarrow> cstr list option"

definition load_config_file :: "cstr \<Rightarrow> 'w os \<Rightarrow> conf_files \<Rightarrow> 'w mtp_ctx \<Rightarrow> cstr \<Rightarrow> 'w mtp_ctx" where
  "load_config_file stack os cf ctx conffile =
    (case file_bytes cf conffile of
       None \<Rightarrow> ctx
     | Some bytes \<Rightarrow> foldl (\<lambda>c line. fst (execute_line stack os c line)) ctx (fgets_lines bytes))"

definition conf_name_filter :: "cstr \<Rightarrow> bool" where
  "conf_name_filter d_name \<longleftrightarrow> 5 < length d_name \<and> drop (length d_name - 5) d_name = bytes_of ''.conf''"

text \<open>\<open>alphasort\<close> is \<open>strcmp\<close> order, as the program sets no locale.\<close>

definition load_config_dir :: "cstr \<Rightarrow> 'w os \<Rightarrow> conf_files \<Rightarrow> 'w mtp_ctx \<Rightarrow> cstr \<Rightarrow> 'w mtp_ctx" where
  "load_config_dir stack os cf ctx conffile =
    (let dirpath = conffile @ bytes_of ''.d'' in
     if length dirpath \<ge> MAX_CFG_STRING_SIZE then ctx
     else (case dir_names cf dirpath of
        None \<Rightarrow> ctx
      | Some names \<Rightarrow>
          foldl (\<lambda>c d_name. load_config_file stack os cf c (take 1023 (dirpath @ [SLASH] @ d_name)))
            ctx (sort (filter conf_name_filter names))))"

definition default_cfg :: "mtp_usb_cfg" where
  "default_cfg = \<lparr>usb_vendor_id = 0x1D6B, usb_product_id = 0x0100, usb_class = 6, usb_subclass = 1, usb_protocol = 1,
     usb_dev_version = 0x3008, usb_max_packet_size = 512, usb_functionfs_mode = 1,
     usb_device_path = bytes_of ''/dev/ffs-mtp/ep0'', usb_endpoint_in = bytes_of ''/dev/ffs-mtp/ep1'',
     usb_endpoint_out = bytes_of ''/dev/ffs-mtp/ep2'', usb_endpoint_intin = bytes_of ''/dev/ffs-mtp/ep3'',
     usb_string_manufacturer = bytes_of ''Viveris Technologies'', usb_string_product = bytes_of ''The Viveris Product !'',
     usb_string_serial = bytes_of ''01234567'', usb_string_version = bytes_of ''Rev A'', usb_string_mtp_extensions = [],
     usb_string_interface = bytes_of ''MTP'', synchronization_partner = [], battery_capacity = [],
     perceived_device_type = 0, wait_connection = 0, loop_on_disconnect = 0, show_hidden_files = 1, val_umask = -1\<rparr>"

text \<open>The context, and the file creation mask that is set when one is configured.\<close>

definition mtp_load_config_file ::
  "cstr \<Rightarrow> 'w os \<Rightarrow> conf_files \<Rightarrow> 'w mtp_ctx \<Rightarrow> cstr \<Rightarrow> 'w mtp_ctx \<times> int option" where
  "mtp_load_config_file stack os cf ctx conffile =
    (let ctx0 = ctx\<lparr>usb_cfg := default_cfg, default_gid := -1, default_uid := -1, no_inotify := 0, sync_when_close := 0\<rparr>;
         ctx1 = load_config_dir stack os cf (load_config_file stack os cf ctx0 conffile) conffile;
         mask = val_umask (usb_cfg ctx1)
     in (ctx1, if mask \<ge> 0 then Some mask else None))"

section \<open>Parameters of a line\<close>

text \<open>A parameter in quotes, as the configuration files write it.\<close>

definition quoted :: "cstr \<Rightarrow> cstr" where
  "quoted w = 0x22 # w @ [0x22, 0x20]"

definition plain_word :: "cstr \<Rightarrow> bool" where
  "plain_word w \<longleftrightarrow> length w < MAX_CFG_STRING_SIZE - 1 \<and> (\<forall>c \<in> set w. \<not> is_end_line c \<and> c \<noteq> 0x22)"

lemma copy_loop_word:
  "(\<forall>c \<in> set w. \<not> is_end_line c \<and> c \<noteq> 0x22) \<Longrightarrow> i + length w < MAX_CFG_STRING_SIZE - 1 \<Longrightarrow>
   copy_param_loop (w @ 0x22 # 0x20 # rest) True i = (w, 0x20 # rest)"
proof (induction w arbitrary: i)
  case Nil then show ?case by (simp add: is_end_line_def is_space_def)
next
  case (Cons c w)
  then have "copy_param_loop (w @ 0x22 # 0x20 # rest) True (Suc i) = (w, 0x20 # rest)" by simp
  then show ?case using Cons.prems by simp
qed

lemma copy_param_quoted: "plain_word w \<Longrightarrow> copy_param (quoted w @ rest) = (w, 0x20 # rest)"
proof -
  assume w: "plain_word w"
  have "copy_param (quoted w @ rest) = copy_param_loop (w @ 0x22 # 0x20 # rest) True 0"
    by (simp add: copy_param_def quoted_def is_end_line_def is_space_def)
  also have "\<dots> = (w, 0x20 # rest)" by (rule copy_loop_word) (use w in \<open>simp_all add: plain_word_def\<close>)
  finally show ?thesis .
qed

lemma skip_quoted:
  assumes "\<forall>w \<in> set ws. plain_word w" "k < length ws"
  shows "skip_params k (concat (map quoted ws) @ rest) = Some (concat (map quoted (drop k ws)) @ rest)"
  using assms
proof (induction k arbitrary: ws)
  case 0 then show ?case by simp
next
  case (Suc k)
  then obtain w ws' where ws: "ws = w # ws'" "plain_word w" "k < length ws'" by (cases ws) auto
  then obtain w2 ws2 where ws': "ws' = w2 # ws2" by (cases ws') auto
  have "get_next_word (0x20 # concat (map quoted ws') @ rest) = concat (map quoted ws') @ rest"
    by (simp add: ws' quoted_def is_end_line_def)
  moreover have "at (concat (map quoted ws') @ rest) 0 = 0x22" by (simp add: ws' quoted_def at_def)
  ultimately show ?case
    using Suc.IH[of ws'] Suc.prems(1) ws copy_param_quoted[OF ws(2), of "concat (map quoted ws') @ rest"] by simp
qed

lemma get_quoted:
  assumes "\<forall>w \<in> set ws. plain_word w" "k < length ws"
  shows "get_param (concat (map quoted ws) @ rest) k = Some (ws ! k)"
proof -
  have "get_next_word (concat (map quoted ws) @ rest) = concat (map quoted ws) @ rest"
    using assms(2) by (cases ws) (auto simp: quoted_def is_end_line_def)
  moreover have "drop k ws = ws ! k # drop (Suc k) ws" using assms(2) by (rule Cons_nth_drop_Suc[symmetric])
  ultimately show ?thesis
    using skip_quoted[OF assms, of rest] copy_param_quoted[of "ws ! k" "concat (map quoted (drop (Suc k) ws)) @ rest"] assms
    by (simp add: get_param_def get_param_offset_def)
qed

text \<open>Parameters round trip: whatever strings without quotes, line ends and comment signs are written
  on a line, each in quotes, are read back by their position.\<close>

theorem get_param_roundtrip:
  assumes "\<forall>w \<in> set ws. plain_word w" "k < length ws"
  shows "get_param (concat (map quoted ws) @ rest) k = Some (ws ! k)"
  using assms by (rule get_quoted)

lemma get_param_roundtrip_witness:
  "get_param (concat (map quoted [bytes_of ''storage'', bytes_of ''/my data'', bytes_of ''Disk''])) 1 = Some (bytes_of ''/my data'')"
proof -
  let ?ws = "[bytes_of ''storage'', bytes_of ''/my data'', bytes_of ''Disk'']"
  have "\<forall>w \<in> set ?ws. plain_word w" by code_simp
  then have "get_param (concat (map quoted ?ws) @ []) 1 = Some (?ws ! 1)"
    by (rule get_param_roundtrip) simp
  then show ?thesis by (simp only: append_Nil2 nth_Cons_numeral nth_Cons_0 One_nat_def nth_Cons_Suc)
qed

section \<open>Lines\<close>

definition command_word :: "cstr \<Rightarrow> bool" where
  "command_word w \<longleftrightarrow> w \<noteq> [] \<and> (\<forall>c \<in> set w. \<not> is_end_line c \<and> \<not> is_space c \<and> c \<noteq> 0x22) \<and> length w < MAX_CFG_STRING_SIZE - 1"

lemma next_command: "command_word w \<Longrightarrow> get_next_word (w @ rest) = w @ rest"
  by (cases w) (auto simp: is_space_def command_word_def)

lemma copy_command:
  assumes "command_word w" "rest = [] \<or> is_end_line (hd rest) \<or> is_space (hd rest)"
  shows "copy_param (w @ rest) = (w, rest)"
proof -
  have "(\<forall>c \<in> set v. \<not> is_end_line c \<and> \<not> is_space c \<and> c \<noteq> 0x22) \<Longrightarrow> i + length v < MAX_CFG_STRING_SIZE - 1 \<Longrightarrow>
      copy_param_loop (v @ rest) False i = (v, rest)" for v i
  proof (induction v arbitrary: i)
    case Nil then show ?case using assms(2) by (cases rest) auto
  next
    case (Cons c v)
    then have "copy_param_loop (v @ rest) False (Suc i) = (v, rest)" by simp
    then show ?case using Cons.prems by simp
  qed
  from this[of w 0] show ?thesis using assms(1) by (simp add: command_word_def copy_param_def)
qed

lemma get_next_quoted: "ws \<noteq> [] \<Longrightarrow> get_next_word (concat (map quoted ws) @ rest) = concat (map quoted ws) @ rest"
  by (cases ws) (auto simp: quoted_def is_end_line_def)

lemma get_param_after_command:
  assumes "command_word w" "ws \<noteq> []"
  shows "get_param (w @ 0x20 # concat (map quoted ws) @ rest) (Suc k) = get_param (concat (map quoted ws) @ rest) k"
proof -
  let ?r = "concat (map quoted ws) @ rest"
  have "get_next_word (0x20 # ?r) = ?r" using get_next_quoted[OF assms(2)] by (simp add: is_end_line_def)
  moreover have "at ?r 0 = 0x22" using assms(2) by (cases ws) (simp_all add: quoted_def at_def)
  moreover have "copy_param (w @ 0x20 # ?r) = (w, 0x20 # ?r)" "get_next_word (w @ 0x20 # ?r) = w @ 0x20 # ?r"
    using copy_command[OF assms(1), of "0x20 # ?r"] next_command[OF assms(1)] by (simp_all add: is_space_def)
  ultimately show ?thesis using get_next_quoted[OF assms(2)] by (simp add: get_param_def get_param_offset_def)
qed

lemma extract_command:
  assumes "command_word w"
  shows "extract_cmd (w @ 0x20 # rest) = w"
proof -
  have "takeWhile (\<lambda>c. \<not> is_end_line c \<and> \<not> is_space c) (w @ 0x20 # rest) = w"
    using assms by (simp add: command_word_def takeWhile_append is_space_def)
  then show ?thesis
    using assms next_command[OF assms] by (simp add: extract_cmd_def command_word_def)
qed

text \<open>
  A parameter that is missing at the end of a line that is not the last of the file reads as the
  empty string, not as an absent one: only the end of the text or a comment is.
\<close>

lemma copy_loop_end: "copy_param [0x0A] = ([], [0x0A])"
  by (simp add: copy_param_def is_end_line_def)

lemma missing_param_empty:
  assumes "command_word w"
  shows "get_param (w @ [0x0A]) 1 = Some []" "get_param w 1 = None"
  using copy_command[OF assms, of "[0x0A]"] copy_command[OF assms, of "[]"] next_command[OF assms, of "[0x0A]"] next_command[OF assms, of "[]"]
    copy_loop_end
  by (simp_all add: get_param_def get_param_offset_def is_end_line_def at_def)

section \<open>Options of a storage\<close>

definition plain_flag :: "cstr \<Rightarrow> bool" where
  "plain_flag f \<longleftrightarrow> f \<noteq> [] \<and> (\<forall>c \<in> set f. c \<noteq> 0 \<and> c \<noteq> 0x2C \<and> c \<noteq> 0x3D)"

fun comma_list :: "cstr list \<Rightarrow> cstr" where
  "comma_list [] = []"
| "comma_list [f] = f"
| "comma_list (f # fs) = f @ 0x2C # comma_list fs"

lemma test_flag_inside:
  "(\<forall>c \<in> set f. c \<noteq> 0 \<and> c \<noteq> 0x2C) \<Longrightarrow> previous_char \<noteq> 0 \<Longrightarrow> previous_char \<noteq> 0x2C \<Longrightarrow>
   \<exists>p. p \<noteq> 0 \<and> p \<noteq> 0x2C \<and> test_flag_loop (f @ rest) flag previous_char = test_flag_loop rest flag p"
  by (induction f arbitrary: previous_char) (auto simp: Let_def)

lemma strncmp_eq_shorter:
  assumes "strncmp_eq (f @ rest) flag" "plain_flag flag" "rest = [] \<or> (\<exists>r. rest = 0x2C # r)"
  shows "\<exists>g. f = flag @ g"
proof (cases "length flag \<le> length f")
  case True
  then have "take (length flag) f = flag" using assms(1) by (simp add: strncmp_eq_def)
  then show ?thesis by (metis append_take_drop_id)
next
  case False
  then have "flag = f @ take (length flag - length f) rest" using assms(1) by (simp add: strncmp_eq_def)
  moreover have "length flag - length f = Suc (length flag - length f - 1)" using False by simp
  ultimately have "rest = [] \<or> 0x2C \<in> set flag" using assms(3) by (metis in_set_conv_decomp take_Suc_Cons)
  then show ?thesis using assms(2) False \<open>flag = _\<close> by (auto simp: plain_flag_def)
qed

lemma test_flag_other:
  assumes "plain_flag f" "plain_flag flag" "f \<noteq> flag" "rest = [] \<or> (\<exists>r. rest = 0x2C # r)"
    "previous_char = 0 \<or> previous_char = 0x2C"
  shows "\<exists>p. p \<noteq> 0 \<and> p \<noteq> 0x2C \<and> test_flag_loop (f @ rest) flag previous_char = test_flag_loop rest flag p"
proof -
  have no: "\<not> (strncmp_eq (f @ rest) flag \<and> (at (f @ rest) (length flag) = 0 \<or> at (f @ rest) (length flag) = 0x2C
      \<or> at (f @ rest) (length flag) = 0x3D))"
  proof (intro notI, elim conjE)
    assume s: "strncmp_eq (f @ rest) flag" and n: "at (f @ rest) (length flag) = 0 \<or> at (f @ rest) (length flag) = 0x2C
      \<or> at (f @ rest) (length flag) = 0x3D"
    obtain g where g: "f = flag @ g" using strncmp_eq_shorter[OF s assms(2,4)] by blast
    then obtain c g' where "g = c # g'" using assms(3) by (cases g) auto
    then show False using n g assms(1) by (auto simp: at_def nth_append plain_flag_def)
  qed
  obtain c f' where f: "f = c # f'" using assms(1) by (cases f) (auto simp: plain_flag_def)
  have "test_flag_loop (f @ rest) flag previous_char = test_flag_loop (f' @ rest) flag c"
    using no unfolding f by (auto simp: Let_def)
  then show ?thesis using test_flag_inside[of f' c rest flag] assms(1) f by (auto simp: plain_flag_def)
qed

lemma test_flag_loop_list:
  assumes "\<forall>f \<in> set fs. plain_flag f" "plain_flag flag" "previous_char = 0 \<or> previous_char = 0x2C"
  shows "test_flag_loop (comma_list fs) flag previous_char = (flag \<in> set fs, None)"
  using assms
proof (induction fs arbitrary: previous_char rule: comma_list.induct)
  case 1 then show ?case by simp
next
  case (2 f)
  show ?case
  proof (cases "f = flag")
    case True
    then show ?thesis using 2 by (cases flag) (auto simp: strncmp_eq_def at_def plain_flag_def Let_def)
  next
    case False
    then show ?thesis using test_flag_other[of f flag "[]" previous_char] 2 by auto
  qed
next
  case (3 f f2 fs)
  let ?rest = "0x2C # comma_list (f2 # fs)"
  show ?case
  proof (cases "f = flag")
    case True
    then have "test_flag_loop (flag @ ?rest) flag previous_char = (True, None)"
      using 3 by (cases flag) (auto simp: strncmp_eq_def at_def plain_flag_def Let_def)
    then show ?thesis using True by simp
  next
    case False
    obtain p where p: "p \<noteq> 0" "p \<noteq> 0x2C"
        "test_flag_loop (f @ ?rest) flag previous_char = test_flag_loop ?rest flag p"
      using test_flag_other[of f flag ?rest previous_char] 3 False by auto
    have "test_flag_loop ?rest flag p = test_flag_loop (comma_list (f2 # fs)) flag 0x2C"
      using p by (simp add: Let_def)
    also have "\<dots> = (flag \<in> set (f2 # fs), None)" by (rule 3(1)) (use 3 in auto)
    finally show ?thesis using p(3) False by auto
  qed
qed

text \<open>The options of a storage are a list with commas: a flag is found exactly when it is one of its
  elements, wherever it stands and whatever the others begin or end with.\<close>

theorem test_flag_list:
  assumes "\<forall>f \<in> set fs. plain_flag f" "plain_flag flag"
  shows "test_flag (comma_list fs) flag = (flag \<in> set fs, None)"
  unfolding test_flag_def using assms by (rule test_flag_loop_list) simp

lemma test_flag_list_witness:
  "test_flag (comma_list [bytes_of ''ro'', bytes_of ''notmounted'']) (bytes_of ''mounted'') = (False, None) \<and>
   test_flag (comma_list [bytes_of ''ro'', bytes_of ''notmounted'']) (bytes_of ''notmounted'') = (True, None)"
proof -
  have a: "\<forall>f \<in> set [bytes_of ''ro'', bytes_of ''notmounted'']. plain_flag f" by code_simp
  have b: "plain_flag (bytes_of ''mounted'')" "plain_flag (bytes_of ''notmounted'')" by code_simp+
  have "bytes_of ''mounted'' \<notin> set [bytes_of ''ro'', bytes_of ''notmounted'']"
    "bytes_of ''notmounted'' \<in> set [bytes_of ''ro'', bytes_of ''notmounted'']" by code_simp+
  then show ?thesis using test_flag_list[OF a b(1)] test_flag_list[OF a b(2)] by simp
qed

lemma plain_options:
  assumes "\<forall>f \<in> set fs. plain_flag f"
  shows "storage_flags_of (comma_list fs) =
    UMTP_STORAGE_READWRITE OR (if bytes_of ''ro'' \<in> set fs then UMTP_STORAGE_READONLY else 0) OR
    (if bytes_of ''rw'' \<in> set fs then UMTP_STORAGE_READWRITE else 0) OR
    (if bytes_of ''notmounted'' \<in> set fs then UMTP_STORAGE_NOTMOUNTED else 0) OR
    (if bytes_of ''removable'' \<in> set fs then UMTP_STORAGE_REMOVABLE else 0) OR
    (if bytes_of ''locked'' \<in> set fs then UMTP_STORAGE_LOCKABLE OR UMTP_STORAGE_LOCKED else 0)"
    "bytes_of ''uid'' \<notin> set fs \<Longrightarrow> bytes_of ''gid'' \<notin> set fs \<Longrightarrow> storage_ids_of stack (comma_list fs) = (-1, -1)"
proof -
  have p: "plain_flag (bytes_of ''ro'')" "plain_flag (bytes_of ''rw'')" "plain_flag (bytes_of ''notmounted'')"
    "plain_flag (bytes_of ''removable'')" "plain_flag (bytes_of ''locked'')" "plain_flag (bytes_of ''uid'')" "plain_flag (bytes_of ''gid'')"
    by code_simp+
  have t: "plain_flag f \<Longrightarrow> test_flag (comma_list fs) f = (f \<in> set fs, None)" for f
    unfolding test_flag_def using assms by (intro test_flag_loop_list) simp_all
  show "storage_flags_of (comma_list fs) =
    UMTP_STORAGE_READWRITE OR (if bytes_of ''ro'' \<in> set fs then UMTP_STORAGE_READONLY else 0) OR
    (if bytes_of ''rw'' \<in> set fs then UMTP_STORAGE_READWRITE else 0) OR
    (if bytes_of ''notmounted'' \<in> set fs then UMTP_STORAGE_NOTMOUNTED else 0) OR
    (if bytes_of ''removable'' \<in> set fs then UMTP_STORAGE_REMOVABLE else 0) OR
    (if bytes_of ''locked'' \<in> set fs then UMTP_STORAGE_LOCKABLE OR UMTP_STORAGE_LOCKED else 0)"
    by (simp only: storage_flags_of_def has_option_def t[OF p(1)] t[OF p(2)] t[OF p(3)] t[OF p(4)] t[OF p(5)] fst_conv)
  show "bytes_of ''uid'' \<notin> set fs \<Longrightarrow> bytes_of ''gid'' \<notin> set fs \<Longrightarrow> storage_ids_of stack (comma_list fs) = (-1, -1)"
    by (simp only: storage_ids_of_def t[OF p(6)] t[OF p(7)] prod.case Let_def if_False)
qed

text \<open>A storage line adds one storage, with the path and the description as they stand in quotes, blanks
  included, with no identity of its own, and with exactly the flags its options name.\<close>

theorem storage_line_adds:
  assumes "plain_word path" "plain_word descr" "plain_word (comma_list fs)" "\<forall>f \<in> set fs. plain_flag f"
    "bytes_of ''uid'' \<notin> set fs" "bytes_of ''gid'' \<notin> set fs"
  shows "execute_line stack os ctx (bytes_of ''storage'' @ 0x20 # concat (map quoted [path, descr, comma_list fs]) @ rest) =
    (add_storage os ctx path descr (-1) (-1)
      ((if bytes_of ''ro'' \<in> set fs then UMTP_STORAGE_READONLY else 0) OR
       (if bytes_of ''notmounted'' \<in> set fs then UMTP_STORAGE_NOTMOUNTED else 0) OR
       (if bytes_of ''removable'' \<in> set fs then UMTP_STORAGE_REMOVABLE else 0) OR
       (if bytes_of ''locked'' \<in> set fs then UMTP_STORAGE_LOCKABLE OR UMTP_STORAGE_LOCKED else 0)), True)"
proof -
  let ?ws = "[path, descr, comma_list fs]"
  let ?line = "bytes_of ''storage'' @ 0x20 # concat (map quoted ?ws) @ rest"
  have cmd: "command_word (bytes_of ''storage'')" by code_simp
  have ws: "\<forall>w \<in> set ?ws. plain_word w" using assms(1-3) by simp
  have g: "get_param ?line (Suc k) = Some (?ws ! k)" if "k < 3" for k
    using get_param_after_command[OF cmd, of ?ws rest k] get_quoted[OF ws, of k rest] that by simp
  have params: "get_param ?line 1 = Some path" "get_param ?line (1 + 1) = Some descr" "get_param ?line (1 + 2) = Some (comma_list fs)"
    using g[of 0] g[of 1] g[of 2] by (simp_all add: numeral_3_eq_3)
  have find: "find (\<lambda>(keyword, f, cmd). bytes_of keyword = bytes_of ''storage'') kwlist = Some (''storage'', get_storage_params, STORAGE_CMD)"
    unfolding kwlist_def by simp
  have "execute_line stack os ctx ?line = (mtp_add_storage_from_line stack os ctx ?line 1, True)"
    unfolding execute_line_def extract_command[OF cmd] Let_def exec_cmd_def find by (simp add: run_kw_def)
  also have "mtp_add_storage_from_line stack os ctx ?line 1 = add_storage os ctx path descr (-1) (-1) (storage_flags_of (comma_list fs))"
    unfolding mtp_add_storage_from_line_def params option.case plain_options(2)[OF assms(4-6)] prod.case ..
  finally show ?thesis unfolding plain_options(1)[OF assms(4)] by simp
qed

lemma storage_line_adds_witness:
  "storages (fst (execute_line [] plain_os (sample_ctx\<lparr>storages := init_storages\<rparr>)
      (bytes_of ''storage'' @ 0x20 # concat (map quoted [bytes_of ''/my data'', bytes_of ''Disk'', comma_list [bytes_of ''ro'', bytes_of ''removable'']]) @ [0x0A]))) ! 0
    = \<lparr>root_path = Some (bytes_of ''/my data''), description = Some (bytes_of ''Disk''), storage_id = 0xFFFF0001, flags = 5, uid = -1, gid = -1\<rparr>"
proof -
  let ?fs = "[bytes_of ''ro'', bytes_of ''removable'']"
  have w: "plain_word (bytes_of ''/my data'')" "plain_word (bytes_of ''Disk'')" "plain_word (comma_list ?fs)" by code_simp+
  have f: "\<forall>f \<in> set ?fs. plain_flag f" "bytes_of ''uid'' \<notin> set ?fs" "bytes_of ''gid'' \<notin> set ?fs" by code_simp+
  have m: "bytes_of ''ro'' \<in> set ?fs" "bytes_of ''notmounted'' \<notin> set ?fs" "bytes_of ''removable'' \<in> set ?fs"
    "bytes_of ''locked'' \<notin> set ?fs" by code_simp+
  have fl: "(1 OR 0 OR 4 OR 0 :: u32) = 5" by code_simp
  have "(add_storage plain_os (sample_ctx\<lparr>storages := init_storages\<rparr>) (bytes_of ''/my data'') (bytes_of ''Disk'') (-1) (-1) 5)
      = sample_ctx\<lparr>storages := fst (mtp_add_storage Some init_storages (bytes_of ''/my data'') (bytes_of ''Disk'') (-1) (-1) 5)\<rparr>"
    by (simp add: add_storage_def)
  moreover have "fst (mtp_add_storage Some init_storages (bytes_of ''/my data'') (bytes_of ''Disk'') (-1) (-1) 5) ! 0
    = \<lparr>root_path = Some (bytes_of ''/my data''), description = Some (bytes_of ''Disk''), storage_id = 0xFFFF0001, flags = 5, uid = -1, gid = -1\<rparr>"
    by code_simp
  ultimately show ?thesis
    unfolding storage_line_adds[OF w f] using m fl by simp
qed


end
