(* ===== verification/Inotify.thy ===== *)
theory Inotify
  imports Dispatch
begin

text \<open>
  The file system events of \<open>src/inotify.c\<close>. One round of the thread reads a buffer of events and
  handles them in order; each handler walks over the entries that carry the watch descriptor, one
  critical section of \<open>inotify_mutex\<close> per entry. \<open>None\<close> is the end of the thread. The kernel's event
  has a header of 16 bytes and a name padded with NUL to \<open>ev_len\<close> bytes; \<open>ev_name\<close> is the memory from
  the name on.
\<close>

section \<open>Events\<close>

abbreviation (input) IN_MODIFY :: u32 where "IN_MODIFY \<equiv> 0x02"
abbreviation (input) IN_MOVED_FROM :: u32 where "IN_MOVED_FROM \<equiv> 0x40"
abbreviation (input) IN_MOVED_TO :: u32 where "IN_MOVED_TO \<equiv> 0x80"
abbreviation (input) IN_CREATE :: u32 where "IN_CREATE \<equiv> 0x100"
abbreviation (input) IN_DELETE :: u32 where "IN_DELETE \<equiv> 0x200"
abbreviation (input) INOTIFY_RD_BUF_SIZE :: nat where "INOTIFY_RD_BUF_SIZE \<equiv> 32768"

record inotify_event =
  ev_wd :: int
  ev_mask :: u32
  ev_len :: nat
  ev_name :: "byte list"

definition c_string :: "byte list \<Rightarrow> cstr" where
  "c_string bytes = takeWhile (\<lambda>c. c \<noteq> 0) bytes"

definition event_at :: "buffer \<Rightarrow> nat \<Rightarrow> inotify_event" where
  "event_at buf i = \<lparr>ev_wd = sint (peek buf i 4), ev_mask = peek buf (i + 4) 4,
     ev_len = unat (peek buf (i + 12) 4), ev_name = drop (i + 16) buf\<rparr>"

section \<open>Handlers\<close>

text \<open>
  What is known of the file an event is about; \<open>None\<close> is the result 0. A file that is gone already
  leaves the result of a failed \<open>fs_entry_stat\<close>: an empty name.
\<close>

definition get_file_info ::
  "'w os \<Rightarrow> 'w mtp_ctx \<Rightarrow> inotify_event \<Rightarrow> ptr \<Rightarrow> filefoundinfo \<Rightarrow> bool \<Rightarrow> filefoundinfo option" where
  "get_file_info os ctx event entry fileinfo gone =
    (case path_of os ctx entry of
       None \<Rightarrow> None
     | Some path \<Rightarrow>
        (let tmp_path = path @ SLASH # c_string (take (ev_len event) (ev_name event))
         in Some (if \<not> gone then fst (fs_entry_stat os (world ctx) tmp_path fileinfo)
                  else \<lparr>isdirectory = False, filename = take 256 (c_string (ev_name event)), fsize = 0\<rparr>)))"

text \<open>The handlers of the three kinds of events give the handle to announce, if any.\<close>

definition created :: "'w os \<Rightarrow> 'w mtp_ctx \<Rightarrow> filefoundinfo \<Rightarrow> ptr \<Rightarrow> 'w mtp_ctx \<times> u32 option" where
  "created os ctx fileinfo p =
    (let e = entry_at (the_db ctx) p in
     case search_entry (the_db ctx) fileinfo (e_handle e) (e_storage e) of
       Some old_entry \<Rightarrow> (ctx, None)
     | None \<Rightarrow> (case add_entry (the_db ctx) fileinfo (e_handle e) (e_storage e) of
         (db, q) \<Rightarrow> (set_db db ctx, Some (e_handle (entry_at db q)))))"

definition modified :: "'w os \<Rightarrow> 'w mtp_ctx \<Rightarrow> filefoundinfo \<Rightarrow> ptr \<Rightarrow> 'w mtp_ctx \<times> u32 option" where
  "modified os ctx fileinfo p =
    (let e = entry_at (the_db ctx) p in
     (ctx, map_option (\<lambda>q. e_handle (entry_at (the_db ctx) q))
             (search_entry (the_db ctx) fileinfo (e_handle e) (e_storage e))))"

definition removed :: "'w os \<Rightarrow> 'w mtp_ctx \<Rightarrow> filefoundinfo \<Rightarrow> ptr \<Rightarrow> 'w mtp_ctx \<times> u32 option" where
  "removed os ctx fileinfo p =
    (let e = entry_at (the_db ctx) p in
     case search_entry (the_db ctx) fileinfo (e_handle e) (e_storage e) of
       None \<Rightarrow> (ctx, None)
     | Some q \<Rightarrow> (mark_entry os ctx q, Some (e_handle (entry_at (the_db ctx) q))))"

type_synonym 'w handler = "'w os \<Rightarrow> 'w mtp_ctx \<Rightarrow> filefoundinfo \<Rightarrow> ptr \<Rightarrow> 'w mtp_ctx \<times> u32 option"

definition IN_CREATE_handler :: "'w handler \<times> bool \<times> u16" where
  "IN_CREATE_handler = (created, False, MTP_EVENT_OBJECT_ADDED)"

definition IN_MODIFY_handler :: "'w handler \<times> bool \<times> u16" where
  "IN_MODIFY_handler = (modified, True, MTP_EVENT_OBJECT_INFO_CHANGED)"

definition IN_DELETE_handler :: "'w handler \<times> bool \<times> u16" where
  "IN_DELETE_handler = (removed, True, MTP_EVENT_OBJECT_REMOVED)"

text \<open>One turn of the do-while loop; the rest of the list from the entry's successor is its result.\<close>

definition notify_entry ::
  "'w os \<Rightarrow> 'w handler \<times> bool \<times> u16 \<Rightarrow> inotify_event \<Rightarrow> 'w mtp_ctx \<Rightarrow> filefoundinfo \<Rightarrow> ptr list \<Rightarrow>
   ('w mtp_ctx \<times> filefoundinfo \<times> ptr list) option" where
  "notify_entry os h event ctx fileinfo start =
    (case h of (act, gone, code) \<Rightarrow>
      (if os_lock_fails os (world ctx) then None
       else
        (let ctx1 = lock_inotify ctx;
             entry = get_entry_by_wd (the_db ctx1) (ev_wd event) start;
             (ctx2, fileinfo', handle) =
               (case entry of
                  [] \<Rightarrow> (ctx1, fileinfo, None)
                | p # _ \<Rightarrow>
                   (case get_file_info os ctx1 event p fileinfo gone of
                      None \<Rightarrow> (ctx1, fileinfo, None)
                    | Some fi \<Rightarrow> (case act os ctx1 fi p of (c, k) \<Rightarrow> (c, fi, k))));
             ctx3 = unlock_inotify ctx2;
             ctx4 = (case handle of Some k \<Rightarrow> fst (mtp_push_event os ctx3 code [k]) | None \<Rightarrow> ctx3)
         in Some (ctx4, fileinfo', tl entry))))"

lemma notify_entry_rest:
  "notify_entry os h event ctx fileinfo start = Some (ctx', fi', rest) \<Longrightarrow>
   rest = tl (get_entry_by_wd (the_db ctx) (ev_wd event) start)"
  by (auto simp: notify_entry_def Let_def lock_inotify_def the_db_def split: prod.splits if_splits)

lemma length_tl_by_wd:
  "tl (get_entry_by_wd db wd start) \<noteq> [] \<Longrightarrow>
   length (tl (get_entry_by_wd db wd start)) < (if start = [] then Suc (length (entry_list db)) else length start)"
proof -
  assume ne: "tl (get_entry_by_wd db wd start) \<noteq> []"
  let ?l = "if start = [] then entry_list db else start"
  have "length (get_entry_by_wd db wd start) \<le> length ?l" by (simp add: get_entry_by_wd_def length_dropWhile_le)
  with ne show ?thesis by (cases "get_entry_by_wd db wd start") (auto split: if_splits)
qed

lemma notify_entry_shorter:
  "notify_entry os h event ctx fileinfo start = Some (ctx', fi', rest) \<Longrightarrow> rest \<noteq> [] \<Longrightarrow>
   length rest < (if start = [] then Suc (length (entry_list (the_db ctx))) else length start)"
  using length_tl_by_wd[of "the_db ctx" "ev_wd event" start] by (auto dest!: notify_entry_rest)

function notify_loop ::
  "'w os \<Rightarrow> 'w handler \<times> bool \<times> u16 \<Rightarrow> inotify_event \<Rightarrow> 'w mtp_ctx \<Rightarrow> filefoundinfo \<Rightarrow> ptr list \<Rightarrow>
   ('w mtp_ctx \<times> filefoundinfo) option" where
  "notify_loop os h event ctx fileinfo start =
    (case notify_entry os h event ctx fileinfo start of
       None \<Rightarrow> None
     | Some (ctx', fileinfo', rest) \<Rightarrow>
         if rest \<noteq> [] then notify_loop os h event ctx' fileinfo' rest else Some (ctx', fileinfo'))"
  by pat_completeness auto
termination
  by (relation "measure (\<lambda>(_, _, event, ctx, _, start). if start = [] then Suc (length (entry_list (the_db ctx))) else length start)")
     (auto dest: notify_entry_shorter[OF sym] notify_entry_shorter)

declare notify_loop.simps [simp del]

text \<open>The handlers of the kinds the mask names, in the order of the code.\<close>

definition run_if ::
  "bool \<Rightarrow> ('w mtp_ctx \<Rightarrow> filefoundinfo \<Rightarrow> ('w mtp_ctx \<times> filefoundinfo) option) \<Rightarrow>
   ('w mtp_ctx \<times> filefoundinfo) option \<Rightarrow> ('w mtp_ctx \<times> filefoundinfo) option" where
  "run_if b f res = (case res of None \<Rightarrow> None | Some (ctx, fi) \<Rightarrow> if b then f ctx fi else Some (ctx, fi))"

definition handle_event ::
  "'w os \<Rightarrow> inotify_event \<Rightarrow> 'w mtp_ctx \<Rightarrow> filefoundinfo \<Rightarrow> ('w mtp_ctx \<times> filefoundinfo) option" where
  "handle_event os event ctx fi =
    run_if (has_flag (ev_mask event) IN_DELETE \<or> has_flag (ev_mask event) IN_MOVED_FROM)
        (\<lambda>c f. notify_loop os IN_DELETE_handler event c f [])
      (run_if (has_flag (ev_mask event) IN_MODIFY) (\<lambda>c f. notify_loop os IN_MODIFY_handler event c f [])
        (run_if (has_flag (ev_mask event) IN_CREATE \<or> has_flag (ev_mask event) IN_MOVED_TO)
          (\<lambda>c f. notify_loop os IN_CREATE_handler event c f []) (Some (ctx, fi))))"

section \<open>The thread\<close>

text \<open>The walk over the buffer read; the counter \<open>i\<close> does not overflow, as no name has 2 to the 31 bytes.\<close>

function notify_events ::
  "'w os \<Rightarrow> buffer \<Rightarrow> nat \<Rightarrow> nat \<Rightarrow> 'w mtp_ctx \<Rightarrow> filefoundinfo \<Rightarrow> ('w mtp_ctx \<times> filefoundinfo) option" where
  "notify_events os buf len i ctx fi =
    (if i < len \<and> i < INOTIFY_RD_BUF_SIZE then
       (let event = event_at buf i in
        case run_if (ev_len event \<noteq> 0 \<and> i + (16 + ev_len event) < INOTIFY_RD_BUF_SIZE)
               (handle_event os event) (Some (ctx, fi)) of
          None \<Rightarrow> None
        | Some (ctx', fi') \<Rightarrow> notify_events os buf len (i + (16 + ev_len event)) ctx' fi')
     else Some (ctx, fi))"
  by pat_completeness auto
termination by (relation "measure (\<lambda>(_, _, len, i, _, _). len - i)") auto

declare notify_events.simps [simp del]

text \<open>One round: the buffer is cleared, read, and what it holds handled.\<close>

definition inotify_round ::
  "'w os \<Rightarrow> 'w mtp_ctx \<Rightarrow> filefoundinfo \<Rightarrow> ('w mtp_ctx \<times> filefoundinfo) option" where
  "inotify_round os ctx fi =
    (case os_read os (world ctx) (inotify_fd ctx) (int INOTIFY_RD_BUF_SIZE) of
       (w, None) \<Rightarrow> None
     | (w, Some bytes) \<Rightarrow>
         notify_events os (bytes @ replicate (INOTIFY_RD_BUF_SIZE - length bytes) 0) (length bytes) 0 (ctx\<lparr>world := w\<rparr>) fi)"

section \<open>The life of the handler\<close>

text \<open>The descriptor of \<open>inotify_init1\<close>; the result is that of the C function, for a context that is there.\<close>

definition inotify_handler_init :: "'w mtp_ctx \<Rightarrow> int \<Rightarrow> 'w mtp_ctx \<times> int" where
  "inotify_handler_init ctx fd = (ctx\<lparr>inotify_fd := fd\<rparr>, 1)"

definition inotify_handler_deinit :: "'w os \<Rightarrow> 'w mtp_ctx \<Rightarrow> 'w mtp_ctx \<times> int" where
  "inotify_handler_deinit os ctx =
    (if inotify_fd ctx \<noteq> -1 then (ctx\<lparr>world := os_close os (world ctx) (inotify_fd ctx), inotify_fd := -1\<rparr>, 1) else (ctx, 1))"

section \<open>Announcing\<close>

definition event_message :: "'w mtp_ctx \<Rightarrow> u16 \<Rightarrow> u32 \<Rightarrow> byte list" where
  "event_message ctx code k = header_bytes 16 MTP_CONTAINER_TYPE_EVENT code (session_id ctx) @ le32 k"

text \<open>The interrupt end point takes messages and nobody cancels.\<close>

definition events_up :: "'w os \<Rightarrow> 'w mtp_ctx \<Rightarrow> bool" where
  "events_up os ctx \<longleftrightarrow> (\<forall>w. \<not> os_cancel os w) \<and> cancel_req ctx = 0 \<and> ep_handles (usb_ctx ctx) ! 2 \<ge> 0 \<and> \<not> stop (usb_ctx ctx)"

lemma push_event_up:
  assumes "events_up os ctx"
  shows "\<exists>w. fst (mtp_push_event os ctx code [k]) = ctx\<lparr>world := w, usb_out := usb_out ctx @ [(2, event_message ctx code k)]\<rparr>"
proof -
  have m: "build_event_dataset ctx (replicate 64 0) 64 code [k]
      = (write_at (replicate 64 0) 0 (event_message ctx code k), 16)"
    using event_dataset_bytes[of 64 "replicate 64 0" "[k]" ctx code] by (simp add: event_message_def)
  have "length (event_message ctx code k) = 16" by (simp add: event_message_def)
  then have "take (nat 16) (write_at (replicate 64 0) 0 (event_message ctx code k)) = event_message ctx code k"
    using take_write_at_end[of 0 "event_message ctx code k" "replicate 64 0"] by simp
  then have "mtp_push_event os ctx code [k] = write_usb os ctx 2 (event_message ctx code k)"
    by (simp add: mtp_push_event_def m)
  then show ?thesis
    using assms by (cases ctx) (auto simp: write_usb_def events_up_def is_usb_up_def after_transfer_def split: prod.splits)
qed

section \<open>One entry watches\<close>

lemma notify_entry_hit:
  assumes "\<not> os_lock_fails os (world ctx)" "get_entry_by_wd (the_db ctx) (ev_wd event) start = p # rest"
    "get_file_info os (lock_inotify ctx) event p fi gone = Some fi'"
    "act os (lock_inotify ctx) fi' p = (c, Some k)" "events_up os c"
  shows "\<exists>w. notify_entry os (act, gone, code) event ctx fi start =
    Some (c\<lparr>inotify_locked := False, world := w, usb_out := usb_out c @ [(2, event_message c code k)]\<rparr>, fi', rest)"
proof -
  have up: "events_up os (unlock_inotify c)" using assms(5) by (simp add: events_up_def unlock_inotify_def)
  obtain w where "fst (mtp_push_event os (unlock_inotify c) code [k]) = (unlock_inotify c)\<lparr>world := w,
      usb_out := usb_out (unlock_inotify c) @ [(2, event_message (unlock_inotify c) code k)]\<rparr>"
    using push_event_up[OF up] by blast
  moreover have "the_db (lock_inotify ctx) = the_db ctx" by (simp add: lock_inotify_def the_db_def)
  ultimately show ?thesis
    using assms by (intro exI[of _ w]) (simp add: notify_entry_def Let_def unlock_inotify_def event_message_def)
qed

lemma notify_entry_none:
  assumes "\<not> os_lock_fails os (world ctx)" "get_entry_by_wd (the_db ctx) (ev_wd event) start = []" "\<not> inotify_locked ctx"
  shows "notify_entry os h event ctx fi start = Some (ctx, fi, [])"
proof -
  have "the_db (lock_inotify ctx) = the_db ctx" "unlock_inotify (lock_inotify ctx) = ctx"
    using assms(3) by (simp_all add: lock_inotify_def unlock_inotify_def the_db_def)
  then show ?thesis using assms(1,2) by (simp add: notify_entry_def Let_def split: prod.split)
qed

lemma notify_loop_once:
  assumes "notify_entry os h event ctx fi [] = Some (c, fi', rest)" "\<not> inotify_locked c"
    "\<not> os_lock_fails os (world c)" "rest \<noteq> [] \<Longrightarrow> get_entry_by_wd (the_db c) (ev_wd event) rest = []"
  shows "notify_loop os h event ctx fi [] = Some (c, fi')"
proof (cases "rest = []")
  case True then show ?thesis using assms(1) by (simp add: notify_loop.simps)
next
  case False
  then have "notify_entry os h event c fi' rest = Some (c, fi', [])"
    using assms by (intro notify_entry_none) simp_all
  then have "notify_loop os h event c fi' rest = Some (c, fi')" by (simp add: notify_loop.simps)
  then show ?thesis using False assms(1) by (simp add: notify_loop.simps)
qed

text \<open>The one entry that watches the folder an event is about.\<close>

definition sole_watcher :: "fs_handles_db \<Rightarrow> int \<Rightarrow> ptr \<Rightarrow> ptr list \<Rightarrow> bool" where
  "sole_watcher db wd p rest \<longleftrightarrow> get_entry_by_wd db wd [] = p # rest \<and>
     (\<forall>q \<in> set rest. deleted (entry_at db q) \<or> e_wd (entry_at db q) \<noteq> wd)"

lemma no_watcher:
  assumes "rest \<noteq> []" "\<forall>q \<in> set rest. deleted (entry_at db q) \<or> e_wd (entry_at db q) \<noteq> wd"
  shows "get_entry_by_wd db wd rest = []"
  using assms by (simp add: get_entry_by_wd_def)

lemma sole_watcher_ptrs:
  assumes "sole_watcher db wd p rest" "db_inv db"
  shows "p \<in> ptrs db" "set rest \<subseteq> ptrs db"
  using assms dropWhile_rest_subset[of _ "entry_list db" p rest] db_inv_entry_list[OF assms(2)]
  by (auto simp: sole_watcher_def get_entry_by_wd_def)

lemma notify_sole:
  assumes "sole_watcher (the_db ctx) (ev_wd event) p rest" "\<forall>w. \<not> os_lock_fails os w"
    "get_file_info os (lock_inotify ctx) event p fi gone = Some fi'"
    "act os (lock_inotify ctx) fi' p = (c, Some k)" "events_up os c"
    "\<And>q. q \<in> set rest \<Longrightarrow> deleted (entry_at (the_db c) q) \<or> entry_at (the_db c) q = entry_at (the_db ctx) q"
  shows "\<exists>w. notify_loop os (act, gone, code) event ctx fi [] =
    Some (c\<lparr>inotify_locked := False, world := w, usb_out := usb_out c @ [(2, event_message c code k)]\<rparr>, fi')"
proof -
  have by_wd: "get_entry_by_wd (the_db ctx) (ev_wd event) [] = p # rest"
    and others: "\<forall>q \<in> set rest. deleted (entry_at (the_db ctx) q) \<or> e_wd (entry_at (the_db ctx) q) \<noteq> ev_wd event"
    using assms(1) by (simp_all add: sole_watcher_def)
  have nl: "\<not> os_lock_fails os (world ctx)" using assms(2) by simp
  obtain w where one: "notify_entry os (act, gone, code) event ctx fi [] =
      Some (c\<lparr>inotify_locked := False, world := w, usb_out := usb_out c @ [(2, event_message c code k)]\<rparr>, fi', rest)"
    using notify_entry_hit[where act = act and code = code and gone = gone, OF nl by_wd assms(3-5)] by blast
  have "the_db (c\<lparr>inotify_locked := False, world := w, usb_out := u\<rparr>) = the_db c" for u by (simp add: the_db_def)
  moreover have "\<forall>q \<in> set rest. deleted (entry_at (the_db c) q) \<or> e_wd (entry_at (the_db c) q) \<noteq> ev_wd event"
    using others assms(6) by metis
  ultimately have "notify_loop os (act, gone, code) event ctx fi [] =
      Some (c\<lparr>inotify_locked := False, world := w, usb_out := usb_out c @ [(2, event_message c code k)]\<rparr>, fi')"
    using assms(2) by (intro notify_loop_once[OF one] no_watcher) simp_all
  then show ?thesis by blast
qed

section \<open>The name of a new file\<close>

lemma base_index_name:
  "SLASH \<notin> set nm \<Longrightarrow> a \<noteq> [] \<Longrightarrow> length a \<le> n \<Longrightarrow> base_index (a @ SLASH # nm) n = Suc (length a)"
proof (induction n)
  case 0 then show ?case by simp
next
  case (Suc n)
  show ?case
  proof (cases "length a = Suc n")
    case True
    then have "at (a @ SLASH # nm) (Suc n) = SLASH" by (simp add: at_def nth_append)
    then show ?thesis using True by simp
  next
    case False
    then obtain k where k: "Suc n = Suc (length a) + k" using Suc.prems(3) by (metis Suc_leI le_Suc_ex le_neq_implies_less)
    then have "at (a @ SLASH # nm) (Suc n) \<noteq> SLASH"
      using Suc.prems(1) nth_mem[of k nm] by (auto simp: at_def nth_append simp del: nth_mem)
    then show ?thesis using Suc False by simp
  qed
qed

lemma fs_entry_stat_name:
  assumes "os_stat os w (path @ SLASH # nm) = Some st" "SLASH \<notin> set nm" "path \<noteq> []" "length nm \<le> 256"
  shows "fst (fs_entry_stat os w (path @ SLASH # nm) fi) = \<lparr>isdirectory = st_isdir st, filename = nm, fsize = st_size st\<rparr>"
  using assms base_index_name[of nm path "length (path @ SLASH # nm)"]
  by (simp add: fs_entry_stat_def)


lemma handle_event_only:
  assumes "notify_loop os h event ctx fi [] = r"
  shows "ev_mask event = IN_CREATE \<or> ev_mask event = IN_MOVED_TO \<Longrightarrow> h = IN_CREATE_handler \<Longrightarrow> handle_event os event ctx fi = r"
    "ev_mask event = IN_MODIFY \<Longrightarrow> h = IN_MODIFY_handler \<Longrightarrow> handle_event os event ctx fi = r"
    "ev_mask event = IN_DELETE \<or> ev_mask event = IN_MOVED_FROM \<Longrightarrow> h = IN_DELETE_handler \<Longrightarrow> handle_event os event ctx fi = r"
  using assms by (auto simp: handle_event_def run_if_def has_flag_def split: option.split)

section \<open>Properties\<close>

text \<open>C17. A file that appears in a watched folder and has no entry yet gets one, under the folder and
  with the next handle, and the host is told its handle by one ObjectAdded event.\<close>

theorem created_file_announced:
  assumes "ev_mask event = IN_CREATE \<or> ev_mask event = IN_MOVED_TO" "nm = c_string (take (ev_len event) (ev_name event))"
    "SLASH \<notin> set nm" "length nm \<le> 256"
    "fs_db ctx = Some db" "db_inv db" "sole_watcher db (ev_wd event) p rest"
    "path_of os ctx p = Some path" "path \<noteq> []" "os_stat os (world ctx) (path @ SLASH # nm) = Some st"
    "\<forall>q. \<not> named db nm (e_handle (entry_at db p)) (e_storage (entry_at db p)) q"
    "events_up os ctx" "\<forall>w. \<not> os_lock_fails os w" "\<not> inotify_locked ctx"
  shows "\<exists>w fi'. handle_event os event ctx fi = Some (ctx\<lparr>
      fs_db := Some (fst (alloc_entry db \<lparr>isdirectory = st_isdir st, filename = nm, fsize = st_size st\<rparr>
        (e_handle (entry_at db p)) (e_storage (entry_at db p)))),
      world := w, usb_out := usb_out ctx @ [(2, event_message ctx MTP_EVENT_OBJECT_ADDED (next_handle db))]\<rparr>, fi')"
proof -
  let ?fi = "\<lparr>isdirectory = st_isdir st, filename = nm, fsize = st_size st\<rparr>"
  let ?e = "entry_at db p"
  let ?db = "fst (alloc_entry db ?fi (e_handle ?e) (e_storage ?e))"
  let ?l = "lock_inotify ctx"
  have d: "the_db ctx = db" "the_db ?l = db" using assms(5) by (simp_all add: the_db_def lock_inotify_def)
  have l: "world ?l = world ctx" "storages ?l = storages ctx" by (simp_all add: lock_inotify_def)
  have info: "get_file_info os ?l event p fi False = Some ?fi"
    using assms(8) fs_entry_stat_name[OF assms(10,3,9,4)] assms(2) by (simp add: get_file_info_def d l)
  have miss: "find_entry db nm (e_handle ?e) (e_storage ?e) = None"
    using find_entry_iff(1)[OF assms(6)] assms(11) by blast
  have act: "created os ?l ?fi p = (set_db ?db ?l, Some (next_handle db))"
    using miss by (simp add: created_def d search_entry_def add_entry_def Let_def alloc_entry_push new_entry_def)
  have up: "events_up os (set_db ?db ?l)" using assms(12) by (simp add: events_up_def set_db_def lock_inotify_def)
  obtain w where "notify_loop os IN_CREATE_handler event ctx fi [] = Some ((set_db ?db ?l)\<lparr>inotify_locked := False,
      world := w, usb_out := usb_out (set_db ?db ?l) @ [(2, event_message (set_db ?db ?l) MTP_EVENT_OBJECT_ADDED (next_handle db))]\<rparr>, ?fi)"
  proof -
    have keep: "entry_at ?db q = entry_at db q" if "q \<in> set rest" for q
      using sole_watcher_ptrs[OF assms(7,6)] that by (auto simp: alloc_entry_push nth_append ptrs_def)
    show ?thesis
      using notify_sole[where act = created and code = MTP_EVENT_OBJECT_ADDED, OF _ assms(13) info act up] assms(7) keep that
      unfolding IN_CREATE_handler_def d by auto
  qed
  from handle_event_only(1)[OF this assms(1) refl] show ?thesis
    using assms(14) by (intro exI[of _ w] exI[of _ ?fi]) (cases ctx, simp add: set_db_def lock_inotify_def event_message_def)
qed

text \<open>The database after a removal: the handle is gone, no other.\<close>

lemma handle_map_upd_dead:
  assumes "deleted (entry_at db p)" "\<And>e. e_handle (f e) = e_handle e" "\<And>e. e_flags (f e) = e_flags e"
  shows "handle_map (upd_entry p f db) = handle_map db"
proof
  fix h
  let ?P = "\<lambda>db p. \<not> deleted (entry_at db p) \<and> e_handle (entry_at db p) = h"
  have "?P (upd_entry p f db) = ?P db"
    using assms(2,3) by (auto simp: fun_eq_iff entry_at_upd deleted_def)
  moreover have "entry_at (upd_entry p f db) q = entry_at db q" if "find (?P db) xs = Some q" for q xs
    using that assms(1) by (auto simp: entry_at_upd find_Some_iff)
  ultimately show "handle_map (upd_entry p f db) h = handle_map db h"
    by (cases "find (?P db) [0..<length (pool db)]") (simp_all add: handle_map_def)
qed

lemma handle_map_mark_entry:
  assumes "db_inv (the_db ctx)" "live (the_db ctx) q"
  shows "handle_map (the_db (mark_entry os ctx q)) = (handle_map (the_db ctx))(e_handle (entry_at (the_db ctx) q) := None)"
proof -
  let ?db = "upd_entry q mark_deleted (the_db ctx)"
  have "deleted (entry_at ?db q)" using assms(2) by (simp add: entry_at_upd live_def)
  then have "handle_map (upd_entry q (\<lambda>e. e\<lparr>e_wd := -1\<rparr>) ?db) = handle_map ?db" by (rule handle_map_upd_dead) simp_all
  then show ?thesis
    using handle_map_delete[OF assms] by (simp add: mark_entry_def drop_watch_db)
qed

text \<open>C18. When a file of a watched folder disappears, the handle of its entry is not found any more, every
  other handle is found as before, and the host is told by one ObjectRemoved event.\<close>

theorem removed_file_announced:
  assumes "ev_mask event = IN_DELETE \<or> ev_mask event = IN_MOVED_FROM" "nm = take 256 (c_string (ev_name event))"
    "fs_db ctx = Some db" "db_inv db" "sole_watcher db (ev_wd event) p rest" "path_of os ctx p = Some path"
    "\<And>q'. named db nm (e_handle (entry_at db p)) (e_storage (entry_at db p)) q' \<longleftrightarrow> q' = q"
    "events_up os ctx" "\<forall>w. \<not> os_lock_fails os w"
  shows "\<exists>ctx' fi'. handle_event os event ctx fi = Some (ctx', fi') \<and>
    handle_map (the_db ctx') = (handle_map db)(e_handle (entry_at db q) := None) \<and> db_inv (the_db ctx') \<and>
    usb_out ctx' = usb_out ctx @ [(2, event_message ctx MTP_EVENT_OBJECT_REMOVED (e_handle (entry_at db q)))]"
proof -
  let ?fi = "\<lparr>isdirectory = False, filename = nm, fsize = 0\<rparr>"
  let ?l = "lock_inotify ctx"
  let ?c = "mark_entry os ?l q"
  have d: "the_db ctx = db" "the_db ?l = db" using assms(3) by (simp_all add: the_db_def lock_inotify_def)
  have info: "get_file_info os ?l event p fi True = Some ?fi"
    using assms(2,6) d by (simp add: get_file_info_def) (simp add: lock_inotify_def)
  have n: "named db nm (e_handle (entry_at db p)) (e_storage (entry_at db p)) q" using assms(7) by simp
  then obtain r where r: "find_entry db nm (e_handle (entry_at db p)) (e_storage (entry_at db p)) = Some r"
    using find_entry_iff(1)[OF assms(4)] by blast
  then have q: "find_entry db nm (e_handle (entry_at db p)) (e_storage (entry_at db p)) = Some q" "live db q"
    using find_entry_iff(2)[OF assms(4) r] assms(7) r n[unfolded named_def] by simp_all
  have act: "removed os ?l ?fi p = (?c, Some (e_handle (entry_at db q)))"
    using q(1) by (simp add: removed_def d search_entry_def)
  note m = mark_entry_facts[where ctx = ?l and os = os and p = q]
  have shape: "fs_step ?l ?c" by (rule m(2))
  have same: "usb_out ?c = usb_out ctx" "events_up os ?c" "event_message ?c = event_message ctx"
    using fs_step_shape[OF shape] assms(8) by (auto simp: lock_inotify_def events_up_def event_message_def fun_eq_iff)
  have keep: "deleted (entry_at (the_db ?c) r) \<or> entry_at (the_db ?c) r = entry_at db r" for r
  proof (cases "r = q")
    case True then show ?thesis using m(3) q(2) by (simp add: d live_def)
  next
    case False then show ?thesis by (simp add: mark_entry_def drop_watch_db entry_at_upd d)
  qed
  obtain w where "notify_loop os IN_DELETE_handler event ctx fi [] = Some (?c\<lparr>inotify_locked := False, world := w,
      usb_out := usb_out ?c @ [(2, event_message ?c MTP_EVENT_OBJECT_REMOVED (e_handle (entry_at db q)))]\<rparr>, ?fi)"
    using notify_sole[where act = removed and code = MTP_EVENT_OBJECT_REMOVED, OF _ assms(9) info act same(2)] assms(5) keep
    unfolding IN_DELETE_handler_def d by auto
  note res = handle_event_only(3)[OF this assms(1) refl]
  have "handle_map (the_db ?c) = (handle_map db)(e_handle (entry_at db q) := None)"
    using handle_map_mark_entry[of ?l q os] assms(4) q(2) d by simp
  moreover have "db_inv (the_db ?c)" using only_marks_inv m(1) assms(4) d by metis
  moreover have "the_db (?c\<lparr>inotify_locked := False, world := w, usb_out := u\<rparr>) = the_db ?c" for u by (simp add: the_db_def)
  ultimately show ?thesis using res same by auto
qed

section \<open>A watched folder\<close>

definition watched_db :: fs_handles_db where
  "watched_db = upd_entry 0 (\<lambda>e. e\<lparr>e_wd := 7\<rparr>) sample_db"

definition watched_ctx :: "nat mtp_ctx" where
  "watched_ctx = sample_ctx\<lparr>fs_db := Some watched_db\<rparr>"

definition stat_os :: "nat os" where
  "stat_os = plain_os\<lparr>os_stat := (\<lambda>w path. Some \<lparr>st_isdir = False, st_size = 9, st_mtime = 0\<rparr>)\<rparr>"

definition sample_event :: "u32 \<Rightarrow> byte \<Rightarrow> inotify_event" where
  "sample_event kind c = \<lparr>ev_wd = 7, ev_mask = kind, ev_len = 2, ev_name = [c, 0]\<rparr>"

lemma watched_pool:
  "pool watched_db = [(root_entry 0xFFFF0001)\<lparr>e_wd := 7\<rparr>, \<lparr>e_handle = 1, e_parent = 0, e_storage = 0xFFFF0001, e_name = [0x61],
     e_flags = 0, e_size = 3, e_date = 0, e_fd = 0, e_wd = -1\<rparr>]"
  by (simp add: watched_db_def upd_entry_def sample_pool)

lemma watched_path:
  assumes "os_realpath os = os_realpath plain_os"
  shows "path_of os watched_ctx 0 = Some [0x2F, 0x72, 0x2F, 0x2F]"
proof -
  have "storages watched_ctx = sample_storages" "the_db watched_ctx = watched_db"
    by (simp_all add: watched_ctx_def the_db_def)
  moreover have "e_storage (entry_at watched_db 0) = 0xFFFF0001" "e_parent (entry_at watched_db 0) = 0"
    "e_name (entry_at watched_db 0) = [0x2F]"
    by (simp_all add: watched_pool root_entry_def)
  ultimately show ?thesis using assms by (simp add: sample_path)
qed

lemma watched_facts:
  "fs_db watched_ctx = Some watched_db" "the_db watched_ctx = watched_db" "db_inv watched_db" "sole_watcher watched_db 7 0 []"
  "path_of stat_os watched_ctx 0 = Some [0x2F, 0x72, 0x2F, 0x2F]" "events_up stat_os watched_ctx" "\<forall>w. \<not> os_lock_fails stat_os w"
  "\<not> inotify_locked watched_ctx" "usb_out watched_ctx = []" "session_id watched_ctx = 1" "next_handle watched_db = 2"
proof -
  show d: "fs_db watched_ctx = Some watched_db" "the_db watched_ctx = watched_db"
    by (simp_all add: watched_ctx_def the_db_def)
  show "db_inv watched_db" unfolding watched_db_def by (intro db_inv_upd_entry sample_db_inv) simp_all
  show "sole_watcher watched_db 7 0 []"
    by (simp add: sole_watcher_def get_entry_by_wd_def watched_db_def sample_list)
       (simp add: upd_entry_def sample_pool deleted_def root_entry_def has_flag_def)
  show "events_up stat_os watched_ctx" "\<forall>w. \<not> os_lock_fails stat_os w" "\<not> inotify_locked watched_ctx"
    "usb_out watched_ctx = []" "session_id watched_ctx = 1"
    by (simp_all add: events_up_def stat_os_def watched_ctx_def sample_ctx_def plain_os_def)
  show "next_handle watched_db = 2"
    by (simp add: watched_db_def sample_db_def alloc_entry_push alloc_root_entry_push) (simp add: init_fs_db_def)
  show "path_of stat_os watched_ctx 0 = Some [0x2F, 0x72, 0x2F, 0x2F]"
    by (rule watched_path) (simp add: stat_os_def)
qed

lemma watched_named:
  assumes "c \<noteq> 0x2F"
  shows "named watched_db [c] 0 0xFFFF0001 q \<longleftrightarrow> c = 0x61 \<and> q = Suc 0"
proof -
  have "q \<in> ptrs watched_db \<longleftrightarrow> q = 0 \<or> q = Suc 0" by (auto simp: ptrs_def watched_pool)
  then show ?thesis
    using assms by (auto simp: named_def live_def watched_pool root_entry_def deleted_def has_flag_def)
qed

lemma created_file_announced_witness:
  "\<exists>ctx' fi'. handle_event stat_os (sample_event 0x100 0x62) watched_ctx \<lparr>isdirectory = False, filename = [], fsize = 0\<rparr> = Some (ctx', fi') \<and>
     usb_out ctx' = [(2, [16, 0, 0, 0, 4, 0, 2, 0x40, 1, 0, 0, 0, 2, 0, 0, 0])]"
proof -
  have m: "event_message watched_ctx MTP_EVENT_OBJECT_ADDED 2 = [16, 0, 0, 0, 4, 0, 2, 0x40, 1, 0, 0, 0, 2, 0, 0, 0]"
    unfolding event_message_def watched_facts(10) by code_simp
  have e: "entry_at watched_db 0 = (root_entry 0xFFFF0001)\<lparr>e_wd := 7\<rparr>" by (simp add: watched_pool)
  show ?thesis
    using created_file_announced[of "sample_event 0x100 0x62" "[0x62]" watched_ctx watched_db 0 "[]" stat_os
        "[0x2F, 0x72, 0x2F, 0x2F]" "\<lparr>st_isdir = False, st_size = 9, st_mtime = 0\<rparr>" "\<lparr>isdirectory = False, filename = [], fsize = 0\<rparr>"]
      watched_facts watched_named[of "0x62"] m
    by (auto simp: sample_event_def c_string_def e root_entry_def) (auto simp: stat_os_def)
qed

lemma removed_file_announced_witness:
  "\<exists>ctx' fi'. handle_event plain_os (sample_event 0x200 0x61) watched_ctx \<lparr>isdirectory = False, filename = [], fsize = 0\<rparr> = Some (ctx', fi') \<and>
     usb_out ctx' = [(2, [16, 0, 0, 0, 4, 0, 3, 0x40, 1, 0, 0, 0, 1, 0, 0, 0])]"
proof -
  have m: "event_message watched_ctx MTP_EVENT_OBJECT_REMOVED 1 = [16, 0, 0, 0, 4, 0, 3, 0x40, 1, 0, 0, 0, 1, 0, 0, 0]"
    unfolding event_message_def watched_facts(10) by code_simp
  have e: "entry_at watched_db 0 = (root_entry 0xFFFF0001)\<lparr>e_wd := 7\<rparr>" by (simp add: watched_pool)
  have os: "path_of plain_os watched_ctx 0 = Some [0x2F, 0x72, 0x2F, 0x2F]" "events_up plain_os watched_ctx"
    using watched_path watched_facts(6) by (simp_all add: events_up_def)
  show ?thesis
    using removed_file_announced[of "sample_event 0x200 0x61" "[0x61]" watched_ctx watched_db 0 "[]" plain_os
        "[0x2F, 0x72, 0x2F, 0x2F]" "Suc 0" "\<lparr>isdirectory = False, filename = [], fsize = 0\<rparr>"]
      watched_facts watched_named[of "0x61"] m os
    by (auto simp: sample_event_def c_string_def e root_entry_def watched_pool)
qed

section \<open>The events of a buffer\<close>

text \<open>An event as the kernel writes it.\<close>

record kernel_event =
  k_wd :: u32
  k_mask :: u32
  k_cookie :: u32
  k_name :: "byte list"

definition kernel_bytes :: "kernel_event \<Rightarrow> byte list" where
  "kernel_bytes k = le32 (k_wd k) @ le32 (k_mask k) @ le32 (k_cookie k) @ le32 (word_of_nat (length (k_name k))) @ k_name k"

definition kernel_ok :: "kernel_event \<Rightarrow> bool" where
  "kernel_ok k \<longleftrightarrow> 0 \<in> set (k_name k) \<and> length (k_name k) < 0x10000"

definition event_of :: "kernel_event \<Rightarrow> inotify_event" where
  "event_of k = \<lparr>ev_wd = sint (k_wd k), ev_mask = k_mask k, ev_len = length (k_name k), ev_name = k_name k\<rparr>"

fun handle_all :: "'w os \<Rightarrow> inotify_event list \<Rightarrow> 'w mtp_ctx \<Rightarrow> filefoundinfo \<Rightarrow> ('w mtp_ctx \<times> filefoundinfo) option" where
  "handle_all os [] ctx fi = Some (ctx, fi)"
| "handle_all os (e # es) ctx fi =
    (case handle_event os e ctx fi of None \<Rightarrow> None | Some (ctx', fi') \<Rightarrow> handle_all os es ctx' fi')"

lemma length_kernel_bytes [simp]: "length (kernel_bytes k) = 16 + length (k_name k)"
  by (simp add: kernel_bytes_def)

lemma event_at_kernel:
  assumes "kernel_ok k"
  shows "event_at (pre @ kernel_bytes k @ rest) (length pre) = (event_of k)\<lparr>ev_name := k_name k @ rest\<rparr>"
proof -
  let ?b = "pre @ kernel_bytes k @ rest"
  have word_at: "peek (xs @ le32 w @ ys) (length xs) 4 = w" for xs ys w
    by (rule peek_le32) (simp_all add: nth_append le32_def)
  note w = word_at[of "pre" "k_wd k"] word_at[of "pre @ le32 (k_wd k)" "k_mask k"]
    word_at[of "pre @ le32 (k_wd k) @ le32 (k_mask k) @ le32 (k_cookie k)" "word_of_nat (length (k_name k))"]
  have "peek ?b (length pre) 4 = k_wd k" "peek ?b (length pre + 4) 4 = k_mask k"
    "peek ?b (length pre + 12) 4 = word_of_nat (length (k_name k))"
    using w by (simp_all add: kernel_bytes_def)
  moreover have "unat (word_of_nat (length (k_name k)) :: u32) = length (k_name k)"
    using assms by (simp add: kernel_ok_def unat_of_nat take_bit_eq_mod)
  moreover have "drop (length pre + 16) ?b = k_name k @ rest" by (simp add: kernel_bytes_def)
  ultimately show ?thesis by (simp add: event_at_def event_of_def)
qed

text \<open>What lies behind the NUL of the name does not matter.\<close>

lemma c_string_append: "0 \<in> set name \<Longrightarrow> c_string (name @ rest) = c_string name"
  by (auto simp: c_string_def takeWhile_append1)

lemma handle_event_tail:
  fixes os :: "'w os"
  assumes "kernel_ok k"
  shows "handle_event os ((event_of k)\<lparr>ev_name := k_name k @ rest\<rparr>) ctx fi = handle_event os (event_of k) ctx fi"
proof -
  let ?e = "(event_of k)\<lparr>ev_name := k_name k @ rest\<rparr>"
  have info: "get_file_info os c ?e p f g = get_file_info os c (event_of k) p f g" for os :: "'w os" and c p f g
    using assms by (cases "path_of os c p") (simp_all add: get_file_info_def event_of_def kernel_ok_def c_string_append)
  have flds: "ev_wd ?e = ev_wd (event_of k)" "ev_mask ?e = ev_mask (event_of k)" by simp_all
  have entry: "notify_entry os h ?e c f st = notify_entry os h (event_of k) c f st" for os :: "'w os" and h c f st
    by (simp only: notify_entry_def info flds)
  have "notify_loop os h ?e c f st = notify_loop os h (event_of k) c f st" for h c f st
  proof (induction os h "event_of k" c f st rule: notify_loop.induct)
    case (1 os h c f st)
    show ?case
      unfolding notify_loop.simps[of os h ?e c f st] notify_loop.simps[of os h "event_of k" c f st] entry
      using 1 by (auto split: option.split prod.split)
  qed
  then show ?thesis by (simp only: handle_event_def flds)
qed

lemma notify_events_order:
  assumes "\<forall>k \<in> set evs. kernel_ok k" "length (pre @ concat (map kernel_bytes evs)) < INOTIFY_RD_BUF_SIZE"
  shows "notify_events os (pre @ concat (map kernel_bytes evs) @ tail) (length (pre @ concat (map kernel_bytes evs)) + m) (length pre) ctx fi
    = (case handle_all os (map event_of evs) ctx fi of None \<Rightarrow> None
       | Some (ctx', fi') \<Rightarrow> notify_events os (pre @ concat (map kernel_bytes evs) @ tail)
           (length (pre @ concat (map kernel_bytes evs)) + m) (length (pre @ concat (map kernel_bytes evs))) ctx' fi')"
  using assms
proof (induction evs arbitrary: pre ctx fi)
  case Nil then show ?case by simp
next
  case (Cons k evs)
  let ?pre = "pre @ kernel_bytes k"
  let ?buf = "pre @ concat (map kernel_bytes (k # evs)) @ tail"
  let ?len = "length (pre @ concat (map kernel_bytes (k # evs))) + m"
  have k: "kernel_ok k" "length (k_name k) \<noteq> 0" using Cons.prems(1) by (auto simp: kernel_ok_def)
  have ev: "event_at ?buf (length pre) = (event_of k)\<lparr>ev_name := k_name k @ concat (map kernel_bytes evs) @ tail\<rparr>"
    using event_at_kernel[OF k(1), of pre "concat (map kernel_bytes evs) @ tail"] by simp
  have len: "ev_len (event_at ?buf (length pre)) = length (k_name k)" unfolding ev by (simp add: event_of_def)
  have next_i: "length pre + (16 + length (k_name k)) = length ?pre" by simp
  have step: "notify_events os ?buf ?len (length pre) ctx fi =
      (case handle_event os (event_of k) ctx fi of None \<Rightarrow> None
       | Some (ctx', fi') \<Rightarrow> notify_events os ?buf ?len (length ?pre) ctx' fi')"
    using Cons.prems(2) k(2) unfolding notify_events.simps[of os ?buf ?len "length pre"] Let_def len
    unfolding next_i by (simp add: run_if_def ev[simplified] handle_event_tail[OF k(1)])
  have "notify_events os ?buf ?len (length ?pre) c f = (case handle_all os (map event_of evs) c f of None \<Rightarrow> None
       | Some (ctx', fi') \<Rightarrow> notify_events os ?buf ?len (length (pre @ concat (map kernel_bytes (k # evs)))) ctx' fi')" for c f
  proof -
    have flat: "?pre @ concat (map kernel_bytes evs) = pre @ concat (map kernel_bytes (k # evs))" by simp
    then have flat': "?pre @ concat (map kernel_bytes evs) @ tail = ?buf" by simp
    show ?thesis using Cons.IH[of ?pre c f] Cons.prems unfolding flat flat' by simp
  qed
  then show ?case unfolding step by (simp split: option.split)
qed


definition read_os :: "kernel_event list \<Rightarrow> nat os" where
  "read_os ks = plain_os\<lparr>os_read := (\<lambda>w fd n. (w, Some (concat (map kernel_bytes ks))))\<rparr>"

definition full_event :: kernel_event where
  "full_event = \<lparr>k_wd = 7, k_mask = 0x100, k_cookie = 0, k_name = 0x62 # replicate 32751 0\<rparr>"

definition short_event :: kernel_event where
  "short_event = \<lparr>k_wd = 7, k_mask = 0x100, k_cookie = 0, k_name = [0x62, 0]\<rparr>"


end
