(* ===== verification/MsgQueue.thy ===== *)
theory MsgQueue
  imports Config Inotify
begin

text \<open>
  The message queue of \<open>src/msgqueue.c\<close>: a command line instance of the program sends a text, the
  thread of the running instance carries it out: storages are added, removed, mounted, unmounted,
  locked and unlocked. The queue itself is the kernel's.
\<close>

abbreviation (input) MAX_MSG_SIZE :: nat where "MAX_MSG_SIZE \<equiv> 128"

section \<open>Storages\<close>

definition set_flags :: "nat \<Rightarrow> (u32 \<Rightarrow> u32) \<Rightarrow> 'w mtp_ctx \<Rightarrow> 'w mtp_ctx" where
  "set_flags i f ctx = ctx\<lparr>storages := (storages ctx)[i := (storages ctx ! i)\<lparr>flags := f (flags (storages ctx ! i))\<rparr>]\<rparr>"

text \<open>A store is changed and the change announced, all under the mutex; without the mutex nothing happens.\<close>

definition announce_store ::
  "'w os \<Rightarrow> 'w mtp_ctx \<Rightarrow> nat \<Rightarrow> u16 \<Rightarrow> ('w mtp_ctx \<Rightarrow> 'w mtp_ctx) \<Rightarrow> 'w mtp_ctx" where
  "announce_store os ctx store_index event change =
    (if os_lock_fails os (world ctx) then ctx
     else (let ctx1 = change (lock_inotify ctx)
           in unlock_inotify (fst (mtp_push_event os ctx1 event [storage_id (storages ctx1 ! store_index)]))))"

definition mount_message :: "'w os \<Rightarrow> 'w mtp_ctx \<Rightarrow> cstr \<Rightarrow> 'w mtp_ctx" where
  "mount_message os ctx name =
    (let store_index = mtp_get_storage_index_by_name (storages ctx) name in
     if store_index \<ge> 0
     then announce_store os ctx (nat store_index) MTP_EVENT_STORE_ADDED (\<lambda>c. mount_store c store_index True)
     else ctx)"

definition unmount_message :: "'w os \<Rightarrow> 'w mtp_ctx \<Rightarrow> cstr \<Rightarrow> 'w mtp_ctx" where
  "unmount_message os ctx name =
    (let store_index = mtp_get_storage_index_by_name (storages ctx) name in
     if store_index \<ge> 0
     then announce_store os ctx (nat store_index) MTP_EVENT_STORE_REMOVED (\<lambda>c. umount_store os c store_index True)
     else ctx)"

definition lockable_unlocked :: "mtp_storage \<Rightarrow> bool" where
  "lockable_unlocked s \<longleftrightarrow> root_path s \<noteq> None \<and> has_flag (flags s) UMTP_STORAGE_LOCKABLE \<and> \<not> has_flag (flags s) UMTP_STORAGE_LOCKED"

definition lockable_locked :: "mtp_storage \<Rightarrow> bool" where
  "lockable_locked s \<longleftrightarrow> root_path s \<noteq> None \<and> has_flag (flags s) UMTP_STORAGE_LOCKABLE \<and> has_flag (flags s) UMTP_STORAGE_LOCKED"

definition lock_store :: "'w os \<Rightarrow> 'w mtp_ctx \<Rightarrow> nat \<Rightarrow> 'w mtp_ctx" where
  "lock_store os ctx i =
    (if lockable_unlocked (storages ctx ! i)
     then announce_store os ctx i MTP_EVENT_STORE_REMOVED
            (\<lambda>c. set_flags i (\<lambda>f. f OR UMTP_STORAGE_LOCKED) (umount_store os c (int i) False))
     else ctx)"

definition unlock_store :: "'w os \<Rightarrow> 'w mtp_ctx \<Rightarrow> nat \<Rightarrow> 'w mtp_ctx" where
  "unlock_store os ctx i =
    (if lockable_locked (storages ctx ! i)
     then announce_store os ctx i MTP_EVENT_STORE_ADDED
            (\<lambda>c. set_flags i (\<lambda>f. f AND NOT UMTP_STORAGE_LOCKED) (mount_store c (int i) False))
     else ctx)"

definition lock_message :: "'w os \<Rightarrow> 'w mtp_ctx \<Rightarrow> 'w mtp_ctx" where
  "lock_message os ctx = foldl (lock_store os) ctx [0..<MAX_STORAGE_NB]"

definition unlock_message :: "'w os \<Rightarrow> 'w mtp_ctx \<Rightarrow> 'w mtp_ctx" where
  "unlock_message os ctx = foldl (unlock_store os) ctx [0..<MAX_STORAGE_NB]"

section \<open>Messages\<close>

definition on_command :: "cstr \<Rightarrow> string \<Rightarrow> ('w mtp_ctx \<Rightarrow> cstr \<Rightarrow> 'w mtp_ctx) \<Rightarrow> 'w mtp_ctx \<Rightarrow> 'w mtp_ctx" where
  "on_command message command f ctx =
    (if strncmp_eq message (bytes_of command) then f ctx (drop (length command) message) else ctx)"

text \<open>The tests of the thread, one after the other; \<open>stack\<close> as in the configuration.\<close>

definition run_message :: "cstr \<Rightarrow> 'w os \<Rightarrow> 'w mtp_ctx \<Rightarrow> cstr \<Rightarrow> 'w mtp_ctx" where
  "run_message stack os ctx message =
    (on_command message ''unlock'' (\<lambda>c _. unlock_message os c)
    (on_command message ''lock'' (\<lambda>c _. lock_message os c)
    (on_command message ''unmount:'' (unmount_message os)
    (on_command message ''mount:'' (mount_message os)
    (on_command message ''rmstorage:'' (\<lambda>c rest. fst (mtp_remove_storage_from_line c rest 0))
    (on_command message ''addstorage:'' (\<lambda>c rest. mtp_add_storage_from_line stack os c rest 0) ctx))))))"

definition msgqueue_received :: "cstr \<Rightarrow> 'w os \<Rightarrow> 'w mtp_ctx \<Rightarrow> byte list \<Rightarrow> 'w mtp_ctx" where
  "msgqueue_received stack os ctx bytes =
    (if length bytes \<le> MAX_MSG_SIZE then run_message stack os ctx (c_string bytes) else ctx)"

text \<open>The sender: the text with its NUL, if the queue is there and takes it.\<close>

definition send_message_queue :: "int \<Rightarrow> (byte list \<Rightarrow> int) \<Rightarrow> cstr \<Rightarrow> int" where
  "send_message_queue msgqueue_id mq_send message =
    (if msgqueue_id \<noteq> -1 then (if mq_send (message @ [0]) = 0 then 0 else -1) else -1)"

definition msgqueue_handler_init :: "int \<Rightarrow> int \<Rightarrow> int" where
  "msgqueue_handler_init msgqueue_id ret = (if msgqueue_id \<noteq> -1 then (if ret \<noteq> 0 then -1 else 0) else -2)"

section \<open>What announcing leaves alone\<close>

definition link_frame :: "'w mtp_ctx \<Rightarrow> 'w mtp_ctx \<Rightarrow> bool" where
  "link_frame ctx c \<longleftrightarrow> c\<lparr>world := world ctx, cancel_req := cancel_req ctx, usb_out := usb_out ctx\<rparr> = ctx"

lemma link_frame_refl [simp]: "link_frame ctx ctx"
  by (simp add: link_frame_def)

lemma write_usb_frame: "link_frame ctx (fst (write_usb os ctx ch d))"
  by (simp add: link_frame_def write_usb_def after_transfer_def split: prod.split)

lemma push_event_frame: "link_frame ctx (fst (mtp_push_event os ctx code ps))"
  by (simp add: mtp_push_event_def write_usb_frame split: prod.split)

lemma link_frame_facts:
  assumes "link_frame ctx c"
  shows "fs_db c = fs_db ctx" "the_db c = the_db ctx" "storages c = storages ctx" "inotify_locked c = inotify_locked ctx"
  using assms by (cases c; cases ctx; simp add: link_frame_def the_db_def)+

lemma announce_store_db:
  assumes "\<not> os_lock_fails os (world ctx)"
  shows "the_db (announce_store os ctx i code f) = the_db (f (lock_inotify ctx))"
    "storages (announce_store os ctx i code f) = storages (f (lock_inotify ctx))"
    "fs_db (announce_store os ctx i code f) = fs_db (f (lock_inotify ctx))"
proof -
  let ?c = "f (lock_inotify ctx)"
  note f = link_frame_facts[OF push_event_frame[of ?c os code "[storage_id (storages ?c ! i)]"]]
  show "the_db (announce_store os ctx i code f) = the_db ?c" "storages (announce_store os ctx i code f) = storages ?c"
    "fs_db (announce_store os ctx i code f) = fs_db ?c"
    using assms f by (simp_all add: announce_store_def Let_def unlock_inotify_def the_db_def)
qed

lemma set_flags_frame [simp]:
  "the_db (set_flags i f ctx) = the_db ctx" "length (storages (set_flags i f ctx)) = length (storages ctx)"
  by (simp_all add: set_flags_def the_db_def)

section \<open>Locking\<close>

lemma lock_store_facts:
  assumes "db_inv (the_db ctx)" "i < 16" "\<not> os_lock_fails os (world ctx)"
  shows "only_marks (the_db ctx) (the_db (lock_store os ctx i))"
    "live (the_db (lock_store os ctx i)) q \<longleftrightarrow> live (the_db ctx) q \<and>
       \<not> (lockable_unlocked (storages ctx ! i) \<and> e_storage (entry_at (the_db ctx) q) = storage_id (storages ctx ! i))"
    "storages (lock_store os ctx i) = (if lockable_unlocked (storages ctx ! i)
       then (storages ctx)[i := (storages ctx ! i)\<lparr>flags := flags (storages ctx ! i) OR UMTP_STORAGE_LOCKED\<rparr>] else storages ctx)"
proof -
  have l: "the_db (lock_inotify ctx) = the_db ctx" "storages (lock_inotify ctx) = storages ctx"
    by (simp_all add: lock_inotify_def the_db_def)
  have u: "only_marks (the_db ctx) (the_db (umount_store os (lock_inotify ctx) (int i) False))"
    "live (the_db (umount_store os (lock_inotify ctx) (int i) False)) q \<longleftrightarrow>
       live (the_db ctx) q \<and> e_storage (entry_at (the_db ctx) q) \<noteq> storage_id (storages ctx ! i)"
    "storages (umount_store os (lock_inotify ctx) (int i) False) = storages ctx"
    if "root_path (storages ctx ! i) \<noteq> None"
    using umount_store_facts[where ctx = "lock_inotify ctx" and os = os and i = "int i" and u = False] assms that
    by (simp_all add: l)
  show "only_marks (the_db ctx) (the_db (lock_store os ctx i))"
    "live (the_db (lock_store os ctx i)) q \<longleftrightarrow> live (the_db ctx) q \<and>
       \<not> (lockable_unlocked (storages ctx ! i) \<and> e_storage (entry_at (the_db ctx) q) = storage_id (storages ctx ! i))"
    "storages (lock_store os ctx i) = (if lockable_unlocked (storages ctx ! i)
       then (storages ctx)[i := (storages ctx ! i)\<lparr>flags := flags (storages ctx ! i) OR UMTP_STORAGE_LOCKED\<rparr>] else storages ctx)"
    using assms(3) u by (auto simp: lock_store_def announce_store_db lockable_unlocked_def) (simp_all add: set_flags_def u)
qed

lemma lock_stores_facts:
  assumes "db_inv (the_db ctx)" "n \<le> 16" "\<forall>w. \<not> os_lock_fails os w" "length (storages ctx) = 16"
  defines "c \<equiv> foldl (lock_store os) ctx [0..<n]"
  shows "only_marks (the_db ctx) (the_db c) \<and>
    (\<forall>q. live (the_db c) q \<longleftrightarrow> live (the_db ctx) q \<and>
       \<not> (\<exists>i<n. lockable_unlocked (storages ctx ! i) \<and> e_storage (entry_at (the_db ctx) q) = storage_id (storages ctx ! i))) \<and>
    length (storages c) = 16 \<and>
    (\<forall>i<16. storages c ! i = (if i < n \<and> lockable_unlocked (storages ctx ! i)
       then (storages ctx ! i)\<lparr>flags := flags (storages ctx ! i) OR UMTP_STORAGE_LOCKED\<rparr> else storages ctx ! i))"
  using assms(2) unfolding c_def
proof (induction n)
  case 0 then show ?case using assms(4) by simp
next
  case (Suc n)
  let ?c = "foldl (lock_store os) ctx [0..<n]"
  have IH: "only_marks (the_db ctx) (the_db ?c)"
    "\<And>q. live (the_db ?c) q \<longleftrightarrow> live (the_db ctx) q \<and>
       \<not> (\<exists>i<n. lockable_unlocked (storages ctx ! i) \<and> e_storage (entry_at (the_db ctx) q) = storage_id (storages ctx ! i))"
    "length (storages ?c) = 16"
    "\<And>i. i < 16 \<Longrightarrow> storages ?c ! i = (if i < n \<and> lockable_unlocked (storages ctx ! i)
       then (storages ctx ! i)\<lparr>flags := flags (storages ctx ! i) OR UMTP_STORAGE_LOCKED\<rparr> else storages ctx ! i)"
    using Suc by auto
  have sn: "storages ?c ! n = storages ctx ! n" "n < 16" using IH(4)[of n] Suc.prems by simp_all
  have step: "foldl (lock_store os) ctx [0..<Suc n] = lock_store os ?c n" by simp
  have inv: "db_inv (the_db ?c)" "\<not> os_lock_fails os (world ?c)"
    using only_marks_inv[OF assms(1) IH(1)] assms(3) by simp_all
  note one = lock_store_facts[where ctx = ?c and i = n and os = os, OF inv(1) sn(2) inv(2)]
  have "only_marks (the_db ctx) (the_db (lock_store os ?c n))" using IH(1) one(1) by (rule only_marks_trans)
  moreover have "live (the_db (lock_store os ?c n)) q \<longleftrightarrow> live (the_db ctx) q \<and>
      \<not> (\<exists>i<Suc n. lockable_unlocked (storages ctx ! i) \<and> e_storage (entry_at (the_db ctx) q) = storage_id (storages ctx ! i))" for q
    unfolding one(2) sn only_marks_entry(4)[OF IH(1)] IH(2) by (auto simp: less_Suc_eq)
  moreover have "length (storages (lock_store os ?c n)) = 16" by (simp add: one(3) IH(3))
  moreover have "storages (lock_store os ?c n) ! i = (if i < Suc n \<and> lockable_unlocked (storages ctx ! i)
       then (storages ctx ! i)\<lparr>flags := flags (storages ctx ! i) OR UMTP_STORAGE_LOCKED\<rparr> else storages ctx ! i)" if "i < 16" for i
    using IH(3) IH(4)[OF that] that unfolding one(3) sn by (auto simp: nth_list_update less_Suc_eq)
  ultimately show ?case unfolding step by blast
qed

lemma lock_commands:
  "run_message stack os ctx (bytes_of ''lock'') = lock_message os ctx"
  "run_message stack os ctx (bytes_of ''unlock'') = unlock_message os ctx"
proof -
  have "\<not> strncmp_eq (bytes_of ''lock'') (bytes_of ''addstorage:'')" "\<not> strncmp_eq (bytes_of ''lock'') (bytes_of ''rmstorage:'')"
    "\<not> strncmp_eq (bytes_of ''lock'') (bytes_of ''mount:'')" "\<not> strncmp_eq (bytes_of ''lock'') (bytes_of ''unmount:'')"
    "strncmp_eq (bytes_of ''lock'') (bytes_of ''lock'')" "\<not> strncmp_eq (bytes_of ''lock'') (bytes_of ''unlock'')"
    by code_simp+
  then show "run_message stack os ctx (bytes_of ''lock'') = lock_message os ctx" by (simp only: run_message_def on_command_def if_True if_False)
  have "\<not> strncmp_eq (bytes_of ''unlock'') (bytes_of ''addstorage:'')" "\<not> strncmp_eq (bytes_of ''unlock'') (bytes_of ''rmstorage:'')"
    "\<not> strncmp_eq (bytes_of ''unlock'') (bytes_of ''mount:'')" "\<not> strncmp_eq (bytes_of ''unlock'') (bytes_of ''unmount:'')"
    "\<not> strncmp_eq (bytes_of ''unlock'') (bytes_of ''lock'')" "strncmp_eq (bytes_of ''unlock'') (bytes_of ''unlock'')"
    by code_simp+
  then show "run_message stack os ctx (bytes_of ''unlock'') = unlock_message os ctx" by (simp only: run_message_def on_command_def if_True if_False)
qed

text \<open>C16. After the message \<open>lock\<close> every storage that can be locked is, no entry of a storage that was
  locked by it is left, every other entry is, and the database keeps its invariant.\<close>

theorem lock_hides_storages:
  fixes stack :: cstr and os :: "'w os" and ctx :: "'w mtp_ctx"
  assumes "db_inv (the_db ctx)" "length (storages ctx) = 16" "\<forall>w. \<not> os_lock_fails os w"
  defines "c \<equiv> run_message stack os ctx (bytes_of ''lock'')"
  shows "db_inv (the_db c) \<and>
    (\<forall>i<16. root_path (storages c ! i) \<noteq> None \<longrightarrow> has_flag (flags (storages c ! i)) UMTP_STORAGE_LOCKABLE \<longrightarrow>
       has_flag (flags (storages c ! i)) UMTP_STORAGE_LOCKED) \<and>
    (\<forall>q. live (the_db c) q \<longleftrightarrow> live (the_db ctx) q \<and>
       \<not> (\<exists>i<16. lockable_unlocked (storages ctx ! i) \<and> e_storage (entry_at (the_db ctx) q) = storage_id (storages ctx ! i)))"
proof -
  have c: "c = foldl (lock_store os) ctx [0..<16]" unfolding c_def lock_commands lock_message_def by simp
  note f = lock_stores_facts[OF assms(1) order_refl assms(3,2), folded c]
  have "has_flag (UMTP_STORAGE_LOCKED :: u32) UMTP_STORAGE_LOCKED" by (simp add: has_flag_def)
  then have "has_flag (flags (storages c ! i)) UMTP_STORAGE_LOCKED"
    if "i < 16" "root_path (storages c ! i) \<noteq> None" "has_flag (flags (storages c ! i)) UMTP_STORAGE_LOCKABLE" for i
    using f that by (auto simp: lockable_unlocked_def has_flag_or split: if_splits)
  then show ?thesis using f only_marks_inv[OF assms(1)] by blast
qed

section \<open>Unlocking\<close>

lemma unlock_store_facts:
  assumes "i < 16" "\<not> os_lock_fails os (world ctx)" "\<not> has_flag (flags (storages ctx ! i)) UMTP_STORAGE_NOTMOUNTED"
  shows "the_db (unlock_store os ctx i) = the_db ctx"
    "storages (unlock_store os ctx i) = (if lockable_locked (storages ctx ! i)
       then (storages ctx)[i := (storages ctx ! i)\<lparr>flags := flags (storages ctx ! i) AND NOT UMTP_STORAGE_LOCKED\<rparr>] else storages ctx)"
proof -
  have l: "the_db (lock_inotify ctx) = the_db ctx" "storages (lock_inotify ctx) = storages ctx"
    by (simp_all add: lock_inotify_def the_db_def)
  have m: "mount_store (lock_inotify ctx) (int i) False = lock_inotify ctx"
    using assms(3) by (simp add: mount_store_def l Let_def)
  show "the_db (unlock_store os ctx i) = the_db ctx"
    "storages (unlock_store os ctx i) = (if lockable_locked (storages ctx ! i)
       then (storages ctx)[i := (storages ctx ! i)\<lparr>flags := flags (storages ctx ! i) AND NOT UMTP_STORAGE_LOCKED\<rparr>] else storages ctx)"
    using assms(2) by (simp_all add: unlock_store_def announce_store_db m l) (simp add: set_flags_def l)
qed

lemma unlock_stores_facts:
  assumes "n \<le> 16" "\<forall>w. \<not> os_lock_fails os w" "length (storages ctx) = 16"
    "\<forall>i<16. \<not> has_flag (flags (storages ctx ! i)) UMTP_STORAGE_NOTMOUNTED"
  defines "c \<equiv> foldl (unlock_store os) ctx [0..<n]"
  shows "the_db c = the_db ctx \<and> length (storages c) = 16 \<and>
    (\<forall>i<16. storages c ! i = (if i < n \<and> lockable_locked (storages ctx ! i)
       then (storages ctx ! i)\<lparr>flags := flags (storages ctx ! i) AND NOT UMTP_STORAGE_LOCKED\<rparr> else storages ctx ! i))"
  using assms(1) unfolding c_def
proof (induction n)
  case 0 then show ?case using assms(3) by simp
next
  case (Suc n)
  let ?c = "foldl (unlock_store os) ctx [0..<n]"
  have IH: "the_db ?c = the_db ctx" "length (storages ?c) = 16"
    "\<And>i. i < 16 \<Longrightarrow> storages ?c ! i = (if i < n \<and> lockable_locked (storages ctx ! i)
       then (storages ctx ! i)\<lparr>flags := flags (storages ctx ! i) AND NOT UMTP_STORAGE_LOCKED\<rparr> else storages ctx ! i)"
    using Suc by auto
  have sn: "storages ?c ! n = storages ctx ! n" "n < 16" using IH(3)[of n] Suc.prems by simp_all
  have "\<not> os_lock_fails os (world ?c)" "\<not> has_flag (flags (storages ?c ! n)) UMTP_STORAGE_NOTMOUNTED"
    using assms(2,4) sn by simp_all
  note one = unlock_store_facts[OF sn(2) this]
  have "storages (unlock_store os ?c n) ! i = (if i < Suc n \<and> lockable_locked (storages ctx ! i)
       then (storages ctx ! i)\<lparr>flags := flags (storages ctx ! i) AND NOT UMTP_STORAGE_LOCKED\<rparr> else storages ctx ! i)" if "i < 16" for i
    using IH(2) IH(3)[OF that] that unfolding one(2) sn by (auto simp: nth_list_update less_Suc_eq)
  then show ?case using one IH(1,2) by simp
qed

lemma no_live_lookup:
  assumes "db_inv db" "\<forall>q. live db q \<longrightarrow> e_storage (entry_at db q) \<noteq> sid"
  shows "get_entry_by_handle_and_storageid db h sid = None"
  using assms db_inv_entry_list[OF assms(1)] by (auto simp: get_entry_by_handle_and_storageid_def find_None_iff live_def)

lemma or_and_not: "\<not> has_flag f m \<Longrightarrow> (f OR m) AND NOT m = f" for f m :: u32
proof -
  assume "\<not> has_flag f m"
  then have "\<not> bit (f AND m) n" for n by (simp add: has_flag_def)
  then have "bit f n \<Longrightarrow> \<not> bit m n" for n by (simp add: bit_simps)
  then show ?thesis by (intro bit_word_eqI) (auto simp: bit_simps)
qed

text \<open>C39. Locking and unlocking a storage gives its flags back, but not the entry of its root folder: from then
  on no lookup by handle 0 finds it, and new objects at the top of the storage have no parent.\<close>

theorem unlock_leaves_no_root:
  fixes stack :: cstr and os :: "'w os" and ctx :: "'w mtp_ctx"
  assumes "db_inv (the_db ctx)" "length (storages ctx) = 16" "\<forall>w. \<not> os_lock_fails os w"
    "\<forall>i<16. \<not> has_flag (flags (storages ctx ! i)) UMTP_STORAGE_NOTMOUNTED"
    "i < 16" "lockable_unlocked (storages ctx ! i)"
  defines "c \<equiv> run_message stack os (run_message stack os ctx (bytes_of ''lock'')) (bytes_of ''unlock'')"
  shows "storages c ! i = storages ctx ! i \<and>
    get_entry_by_handle_and_storageid (the_db c) h (storage_id (storages ctx ! i)) = None"
proof -
  let ?l = "foldl (lock_store os) ctx [0..<16]"
  have c: "c = foldl (unlock_store os) ?l [0..<16]"
    unfolding c_def lock_commands lock_message_def unlock_message_def by simp
  note f = lock_stores_facts[OF assms(1) order_refl assms(3,2)]
  have nm: "\<forall>j<16. \<not> has_flag (flags (storages ?l ! j)) UMTP_STORAGE_NOTMOUNTED"
    using f assms(4) by (auto simp: has_flag_or) (simp add: has_flag_def)
  have len: "length (storages ?l) = 16" using f by simp
  note u = unlock_stores_facts[OF order_refl assms(3) len nm, folded c]
  have "has_flag (UMTP_STORAGE_LOCKED :: u32) UMTP_STORAGE_LOCKED" by (simp add: has_flag_def)
  then have "lockable_locked ((storages ctx ! i)\<lparr>flags := flags (storages ctx ! i) OR UMTP_STORAGE_LOCKED\<rparr>)"
    using assms(6) by (simp add: lockable_locked_def lockable_unlocked_def has_flag_or)
  then have "storages c ! i = (storages ctx ! i)\<lparr>flags := (flags (storages ctx ! i) OR UMTP_STORAGE_LOCKED) AND NOT UMTP_STORAGE_LOCKED\<rparr>"
    using u f assms(5,6) by simp
  moreover have "(flags (storages ctx ! i) OR UMTP_STORAGE_LOCKED) AND NOT UMTP_STORAGE_LOCKED = flags (storages ctx ! i)"
    using assms(6) by (intro or_and_not) (simp add: lockable_unlocked_def)
  ultimately have "storages c ! i = storages ctx ! i" by simp
  moreover have "\<forall>q. live (the_db c) q \<longrightarrow> e_storage (entry_at (the_db c) q) \<noteq> storage_id (storages ctx ! i)"
    using u f assms(5,6) only_marks_entry(4)[of "the_db ctx" "the_db ?l"] by auto
  ultimately show ?thesis using no_live_lookup u f only_marks_inv[OF assms(1)] by metis
qed

definition lockable_ctx :: "nat mtp_ctx" where
  "lockable_ctx = sample_ctx\<lparr>storages := sample_storage\<lparr>flags := UMTP_STORAGE_LOCKABLE\<rparr> # replicate 15 empty_storage\<rparr>"

lemma lockable_ctx_facts:
  "db_inv (the_db lockable_ctx)" "length (storages lockable_ctx) = 16" "\<forall>w. \<not> os_lock_fails plain_os w"
  "\<forall>i<16. \<not> has_flag (flags (storages lockable_ctx ! i)) UMTP_STORAGE_NOTMOUNTED"
  "lockable_unlocked (storages lockable_ctx ! 0)" "storage_id (storages lockable_ctx ! 0) = 0xFFFF0001" "the_db lockable_ctx = sample_db"
proof -
  show "the_db lockable_ctx = sample_db" by (simp add: lockable_ctx_def the_db_def)
  then show "db_inv (the_db lockable_ctx)" by (simp add: sample_db_inv)
  show "length (storages lockable_ctx) = 16" "\<forall>w. \<not> os_lock_fails plain_os w"
    "lockable_unlocked (storages lockable_ctx ! 0)" "storage_id (storages lockable_ctx ! 0) = 0xFFFF0001"
    by (simp_all add: lockable_ctx_def lockable_unlocked_def has_flag_def sample_storage_def)
  show "\<forall>i<16. \<not> has_flag (flags (storages lockable_ctx ! i)) UMTP_STORAGE_NOTMOUNTED"
    by (auto simp: lockable_ctx_def nth_Cons' empty_storage_def has_flag_def)
qed

lemma lock_hides_storages_witness:
  "live (the_db lockable_ctx) 1 \<and> \<not> live (the_db (run_message [] plain_os lockable_ctx (bytes_of ''lock''))) 1"
proof -
  have "live (the_db lockable_ctx) 1" "e_storage (entry_at (the_db lockable_ctx) 1) = 0xFFFF0001"
    by (simp_all add: lockable_ctx_facts(7) live_def ptrs_def sample_pool deleted_def has_flag_def)
  moreover have "\<not> live (the_db (run_message [] plain_os lockable_ctx (bytes_of ''lock''))) 1"
    using lock_hides_storages[OF lockable_ctx_facts(1-3), of "[]"] calculation lockable_ctx_facts(5,6)
    by (metis zero_less_numeral)
  ultimately show ?thesis by simp
qed

lemma unlock_leaves_no_root_witness:
  "get_entry_by_handle_and_storageid (the_db lockable_ctx) 0 0xFFFF0001 = Some 0 \<and>
   get_entry_by_handle_and_storageid (the_db (run_message [] plain_os (run_message [] plain_os lockable_ctx (bytes_of ''lock'')) (bytes_of ''unlock'')))
     0 0xFFFF0001 = None"
proof -
  have "get_entry_by_handle_and_storageid sample_db 0 0xFFFF0001 = Some 0"
    by (simp add: get_entry_by_handle_and_storageid_def sample_list sample_pool root_entry_def deleted_def has_flag_def)
  then show ?thesis
    using unlock_leaves_no_root[OF lockable_ctx_facts(1-4), of 0 "[]" 0] lockable_ctx_facts by simp
qed

text \<open>A text without NUL that fits the queue arrives as it was sent.\<close>

lemma message_arrives:
  assumes "0 \<notin> set message" "length message < MAX_MSG_SIZE"
  shows "msgqueue_received stack os ctx (message @ [0]) = run_message stack os ctx message"
proof -
  have "c_string (message @ [0]) = message"
    using assms(1) by (induction message) (auto simp: c_string_def)
  then show ?thesis using assms(2) by (simp add: msgqueue_received_def)
qed

end
