(* ===== verification/Daemon.thy ===== *)
theory Daemon
  imports Gadget MsgQueue Names
begin

text \<open>
  The program around the responder, \<open>src/umtprd.c\<close>, with the end of the responder in \<open>src/mtp.c\<close> and
  the loop of the queue thread in \<open>src/msgqueue.c\<close>: the thread that takes packets, the sessions of the
  main thread, the command line. What comes from outside (the turns of a session, the requests to
  shut down, the messages) is an argument.
\<close>

section \<open>The thread of the host\<close>

text \<open>A packet is taken; a failure stops the gadget.\<close>

definition io_round :: "'w os \<Rightarrow> 'w mtp_ctx \<Rightarrow> 'w mtp_ctx option" where
  "io_round os ctx =
    (case mtp_incoming_packet os ctx of
       None \<Rightarrow> None
     | Some (c, ret) \<Rightarrow> Some (if ret < 0 then with_gadget (\<lambda>g. g\<lparr>stop := True\<rparr>) c else c))"

partial_function (option) io_thread :: "'w os \<Rightarrow> 'w mtp_ctx \<Rightarrow> 'w mtp_ctx option" where
  "io_thread os ctx =
    (if is_usb_up (usb_ctx ctx)
     then (case io_round os ctx of None \<Rightarrow> None | Some c \<Rightarrow> io_thread os c)
     else Some ctx)"

section \<open>The thread of the queue\<close>

text \<open>What a receive gives, and whether the program has been told to shut down by then.\<close>

datatype received = Interrupted | Message "byte list"

text \<open>The context, and whether the thread has ended.\<close>

fun msgqueue_thread :: "cstr \<Rightarrow> 'w os \<Rightarrow> 'w mtp_ctx \<Rightarrow> (received \<times> bool) list \<Rightarrow> 'w mtp_ctx \<times> bool" where
  "msgqueue_thread stack os ctx [] = (ctx, False)"
| "msgqueue_thread stack os ctx ((r, shutdown) # rs) =
    (case r of
       Interrupted \<Rightarrow> if shutdown then (ctx, True) else msgqueue_thread stack os ctx rs
     | Message m \<Rightarrow> (let c = msgqueue_received stack os ctx m in
                    if shutdown then (c, True) else msgqueue_thread stack os c rs))"

text \<open>The end of the queue: the thread is interrupted once and joined. False if the join does not return.\<close>

definition msgqueue_handler_deinit :: "cstr \<Rightarrow> 'w os \<Rightarrow> bool \<Rightarrow> bool \<Rightarrow> 'w mtp_ctx \<Rightarrow> bool" where
  "msgqueue_handler_deinit stack os queue shutdown ctx =
    (if queue then snd (msgqueue_thread stack os ctx [(Interrupted, shutdown)]) else True)"

definition mtp_deinit_responder :: "cstr \<Rightarrow> 'w os \<Rightarrow> bool \<Rightarrow> bool \<Rightarrow> 'w mtp_ctx \<Rightarrow> 'w mtp_ctx option" where
  "mtp_deinit_responder stack os queue shutdown ctx =
    (if msgqueue_handler_deinit stack os queue shutdown ctx
     then Some ((fst (inotify_handler_deinit os ctx))
            \<lparr>wrbuffer := [], rdbuffer := [], rdbuffer2 := [], temp_array := [], read_file_buffer := None\<rparr>)
     else None)"

section \<open>The main thread\<close>

text \<open>A session: what the queue thread does before it, the turns on end point 0, and whether a shutdown is asked for.\<close>

record 'w session =
  idle :: "'w mtp_ctx \<Rightarrow> 'w mtp_ctx"
  gadgetfs_rounds :: "('w, gadgetfs_event) ep0_round list"
  ffs_rounds :: "('w, ffs_event) ep0_round list"
  wait_polls :: "nat \<Rightarrow> int"
  shutdown_after :: bool

datatype 'w session_end = Crashes | Goes_on "'w mtp_ctx" | Over "'w mtp_ctx" bool

definition drop_db :: "'w os \<Rightarrow> 'w mtp_ctx \<Rightarrow> 'w mtp_ctx" where
  "drop_db os ctx = (if fs_db ctx \<noteq> None then (deinit_fs_db os ctx)\<lparr>fs_db := None\<rparr> else ctx)"

text \<open>One turn of the loop; with \<open>Over\<close>, whether the gadget came up.\<close>

definition main_session :: "'w os \<Rightarrow> 'w session \<Rightarrow> 'w mtp_ctx \<Rightarrow> 'w session_end" where
  "main_session os s ctx =
    (case init_usb_mtp_gadget os (idle s ctx) of
       None \<Rightarrow> Crashes
     | Some (c, None) \<Rightarrow> Over (drop_db os c) False
     | Some (c, Some g) \<Rightarrow>
        (let c1 = mtp_set_usb_handle c g (ucast (usb_max_packet_size (usb_cfg c))) in
         case (if usb_functionfs_mode (usb_cfg c1) \<noteq> 0 then handle_ffs_ep0 os c1 (ffs_rounds s)
               else handle_ep0 os (wait_polls s) c1 (gadgetfs_rounds s)) of
           (c2, None) \<Rightarrow> Goes_on c2
         | (c2, Some _) \<Rightarrow> Over (drop_db os (deinit_usb_mtp_gadget os c2 (Some (usb_ctx c2)))) True))"

datatype 'w main_end = Crashed | Running "'w mtp_ctx" | Hangs "'w mtp_ctx" int | Returned "'w mtp_ctx option" int

fun main_loop :: "cstr \<Rightarrow> 'w os \<Rightarrow> bool \<Rightarrow> bool \<Rightarrow> 'w session list \<Rightarrow> 'w mtp_ctx \<Rightarrow> 'w main_end" where
  "main_loop stack os queue loop_continue [] ctx = Running ctx"
| "main_loop stack os queue loop_continue (s # ss) ctx =
    (case main_session os s ctx of
       Crashes \<Rightarrow> Crashed
     | Goes_on c \<Rightarrow> Running c
     | Over c started \<Rightarrow>
         if started \<and> loop_continue \<and> \<not> shutdown_after s then main_loop stack os queue loop_continue ss c
         else (let retcode = (if started then 0 else -2) in
               case mtp_deinit_responder stack os queue (shutdown_after s) c of
                 None \<Rightarrow> Hangs c retcode
               | Some c' \<Rightarrow> Returned (Some c') retcode))"

text \<open>\<open>responder\<close> is what \<open>mtp_init_responder\<close> gave, NULL when it failed.\<close>

definition main_thread ::
  "cstr \<Rightarrow> 'w os \<Rightarrow> conf_files \<Rightarrow> bool \<Rightarrow> 'w mtp_ctx option \<Rightarrow> 'w session list \<Rightarrow> cstr \<Rightarrow> 'w main_end" where
  "main_thread stack os cf queue responder ss conffile =
    (case responder of
       None \<Rightarrow> Returned None (-1)
     | Some ctx \<Rightarrow>
        (let c = fst (mtp_load_config_file stack os cf ctx conffile)
         in main_loop stack os queue (loop_on_disconnect (usb_cfg c) \<noteq> 0) ss c))"

section \<open>The command line\<close>

text \<open>The queue other processes see: whether it is there, and whether a process that lives holds its lock.\<close>

record queue_file =
  queue_exists :: bool
  queue_flocked :: bool

definition get_message_queue :: "bool \<Rightarrow> queue_file \<Rightarrow> queue_file \<times> bool" where
  "get_message_queue create q = (let q1 = (if create then q\<lparr>queue_exists := True\<rparr> else q) in (q1, queue_exists q1))"

definition check_running :: "queue_file \<Rightarrow> queue_file \<times> bool" where
  "check_running q =
    (case get_message_queue False q of
       (q1, False) \<Rightarrow> (q1, False)
     | (q1, True) \<Rightarrow> if queue_flocked q1 then (q1, True) else (q1\<lparr>queue_flocked := True\<rparr>, False))"

definition PARAMETER_IPCCMD :: cstr where "PARAMETER_IPCCMD = bytes_of ''-cmd:''"
definition PARAMETER_CONF :: cstr where "PARAMETER_CONF = bytes_of ''-conf''"

text \<open>
  The arguments: the exit code, or the configuration file with the last result of a command and
  whether one was sent. \<open>send\<close> is the queue's answer; the commands given to it come first.
\<close>

fun parse_args ::
  "(cstr \<Rightarrow> int) \<Rightarrow> bool \<Rightarrow> cstr list \<Rightarrow> cstr \<times> bool \<Rightarrow> cstr list \<times> (int + cstr \<times> bool)" where
  "parse_args send already_running [] st = ([], Inr st)"
| "parse_args send already_running (arg # args) st =
    (if strncmp_eq arg PARAMETER_IPCCMD then
       (let cmd = drop (length PARAMETER_IPCCMD) arg; retcode = send cmd in
        if retcode \<noteq> 0 then ([cmd], Inl retcode)
        else (case parse_args send already_running args (fst st, True) of (cmds, r) \<Rightarrow> (cmd # cmds, r)))
     else if arg = PARAMETER_CONF then
       (if already_running then ([], Inl 1)
        else (case args of
           [] \<Rightarrow> ([], Inl 1)
         | file_name # rest \<Rightarrow> parse_args send already_running rest (file_name, snd st)))
     else ([], Inl 1))"

text \<open>What the process does: it exits, or runs the main thread with a configuration file.\<close>

datatype main_action = Exit int | Run_main_thread cstr

definition main :: "(cstr \<Rightarrow> int) \<Rightarrow> queue_file \<Rightarrow> cstr list \<Rightarrow> queue_file \<times> cstr list \<times> main_action" where
  "main send q args =
    (case check_running q of
       (q1, already_running) \<Rightarrow>
         if args = [] \<and> already_running then (q1, [], Exit 0)
         else (case parse_args send already_running args (bytes_of ''/etc/umtprd/umtprd.conf'', False) of
             (cmds, Inl code) \<Rightarrow> (q1, cmds, Exit code)
           | (cmds, Inr (conffile, cmd_sent)) \<Rightarrow>
               (q1, cmds, if \<not> cmd_sent \<and> \<not> already_running then Run_main_thread conffile else Exit 0)))"

section \<open>The thread of the host ends when the host is gone\<close>

fun io_rounds :: "'w os \<Rightarrow> nat \<Rightarrow> 'w mtp_ctx \<Rightarrow> 'w mtp_ctx option" where
  "io_rounds os 0 ctx = Some ctx"
| "io_rounds os (Suc n) ctx = (if stop (usb_ctx ctx) then None else Option.bind (io_round os ctx) (io_rounds os n))"

lemma io_thread_rounds:
  "io_rounds os n ctx = Some c \<Longrightarrow> stop (usb_ctx c) \<Longrightarrow> io_thread os ctx = Some c"
proof (induction n arbitrary: ctx)
  case 0
  then show ?case by (subst io_thread.simps) (simp add: is_usb_up_def)
next
  case (Suc n)
  then obtain d where "\<not> stop (usb_ctx ctx)" "io_round os ctx = Some d" "io_rounds os n d = Some c"
    by (auto split: if_splits simp: Option.bind_eq_Some_conv)
  then show ?case using Suc by (subst io_thread.simps) (simp add: is_usb_up_def)
qed

lemma io_thread_result:
  assumes "io_thread os ctx = Some c"
  shows "\<exists>n. io_rounds os n ctx = Some c \<and> stop (usb_ctx c)"
proof (rule io_thread.raw_induct[where P = "\<lambda>os ctx c. \<exists>n. io_rounds os n ctx = Some c \<and> stop (usb_ctx c)", OF _ assms])
  fix loop :: "'a os \<Rightarrow> 'a mtp_ctx \<Rightarrow> 'a mtp_ctx option" and os ctx c
  assume IH: "\<And>os ctx c. loop os ctx = Some c \<Longrightarrow> \<exists>n. io_rounds os n ctx = Some c \<and> stop (usb_ctx c)"
    and r: "(if is_usb_up (usb_ctx ctx) then case io_round os ctx of None \<Rightarrow> None | Some d \<Rightarrow> loop os d else Some ctx) = Some c"
  show "\<exists>n. io_rounds os n ctx = Some c \<and> stop (usb_ctx c)"
  proof (cases "is_usb_up (usb_ctx ctx)")
    case True
    then obtain d where d: "io_round os ctx = Some d" "loop os d = Some c" using r by (auto split: option.splits)
    from IH[OF d(2)] obtain n where "io_rounds os n d = Some c" "stop (usb_ctx c)" by blast
    then show ?thesis using True d(1) by (intro exI[of _ "Suc n"]) (simp add: is_usb_up_def)
  next
    case False
    then show ?thesis using r by (intro exI[of _ 0]) (simp add: is_usb_up_def)
  qed
qed

text \<open>The thread that serves the host returns exactly when the rounds it makes lead to a gadget that is
  stopped, with the context they lead to; a round whose read fails stops the gadget.\<close>

theorem io_thread_iff:
  "io_thread os ctx = Some c \<longleftrightarrow> (\<exists>n. io_rounds os n ctx = Some c \<and> stop (usb_ctx c))"
  "snd (read_usb os ctx (usb_rd_buffer_max_size ctx)) = None \<Longrightarrow>
     \<exists>c. io_round os ctx = Some c \<and> stop (usb_ctx c) \<and> fs_db c = fs_db ctx"
proof -
  show "io_thread os ctx = Some c \<longleftrightarrow> (\<exists>n. io_rounds os n ctx = Some c \<and> stop (usb_ctx c))"
    using io_thread_rounds io_thread_result by blast
  show "\<exists>c. io_round os ctx = Some c \<and> stop (usb_ctx c) \<and> fs_db c = fs_db ctx"
    if "snd (read_usb os ctx (usb_rd_buffer_max_size ctx)) = None"
    using that by (auto simp: io_round_def mtp_incoming_packet_def read_usb_def after_transfer_def split: prod.splits if_splits)
qed

theorem io_thread_iff_witness: "\<exists>c. io_round plain_os sample_ctx = Some c \<and> stop (usb_ctx c) \<and> fs_db c = fs_db sample_ctx"
  by (rule io_thread_iff(2)) (simp add: read_usb_def sample_ctx_def)

section \<open>Sessions\<close>

lemma drop_db_frame:
  "fs_db (drop_db os c) = None" "wrbuffer (drop_db os c) = wrbuffer c" "rdbuffer (drop_db os c) = rdbuffer c"
  "rdbuffer2 (drop_db os c) = rdbuffer2 c" "storages (drop_db os c) = storages c" "usb_cfg (drop_db os c) = usb_cfg c"
  using fs_step_shape[OF deinit_fs_db_step[of c os]] by (auto simp: drop_db_def)

lemma deinit_gadget_buffers:
  "wrbuffer (deinit_usb_mtp_gadget os c g) = []" "rdbuffer (deinit_usb_mtp_gadget os c g) = []"
  "rdbuffer2 (deinit_usb_mtp_gadget os c g) = []"
  by (simp_all add: deinit_usb_mtp_gadget_def Let_def split: option.splits)

lemma session_over:
  assumes "main_session os s ctx = Over c started"
  shows "fs_db c = None \<and> wrbuffer c = [] \<and> rdbuffer c = [] \<and> rdbuffer2 c = []"
proof (cases "init_usb_mtp_gadget os (idle s ctx)" rule: option_pair_cases)
  case (null d)
  then show ?thesis using assms init_gadget_failed[of os "idle s ctx" d] by (auto simp: main_session_def drop_db_frame)
next
  case (gadget d g)
  then show ?thesis
    using assms by (auto simp: main_session_def drop_db_frame deinit_gadget_buffers Let_def split: prod.splits option.splits)
qed (use assms in \<open>simp add: main_session_def\<close>)

text \<open>C35. A session leaves nothing to the next one: when it is over the database is gone and the buffers are
  given back, and the gadget of the next session has no end point open and no thread.\<close>

theorem sessions_independent:
  assumes "main_session os s ctx = Over c started"
  shows "(fs_db c = None \<and> wrbuffer c = [] \<and> rdbuffer c = [] \<and> rdbuffer2 c = []) \<and>
    (\<forall>c' g. init_usb_mtp_gadget os c = Some (c', Some g) \<longrightarrow>
       fs_db c' = None \<and> ep_handles g = [-1, -1, -1] \<and> thread_not_started g = 1 \<and> \<not> stop g)"
proof -
  note over = session_over[OF assms]
  have "fs_db c' = None \<and> ep_handles g = [-1, -1, -1] \<and> thread_not_started g = 1 \<and> \<not> stop g"
    if "init_usb_mtp_gadget os c = Some (c', Some g)" for c' g
    using over init_gadget_started[OF that] by simp
  with over show ?thesis by blast
qed

lemma plain_write_whole [simp]: "write_whole plain_os w fd bs = (w, True)"
  by (simp add: plain_os_def write_whole_def)

definition short_session :: "nat session" where
  "short_session = \<lparr>idle = (\<lambda>c. c), gadgetfs_rounds = [], ffs_rounds = [Select_timeout], wait_polls = (\<lambda>_. 0), shutdown_after = False\<rparr>"

lemma short_session_over:
  assumes "usb_functionfs_mode (usb_cfg ctx) \<noteq> 0" "length (usb_string_interface (usb_cfg ctx)) < 128" "wait_connection (usb_cfg ctx) = 0"
    "0 \<le> usb_wr_buffer_max_size ctx" "0 \<le> usb_rd_buffer_max_size ctx"
  shows "\<exists>c c' g. main_session plain_os short_session ctx = Over c True \<and>
    init_usb_mtp_gadget plain_os ctx = Some (c', Some g)"
  using assms
  by (simp add: main_session_def short_session_def init_usb_mtp_gadget_def ffs_setup_def Let_def
      ffs_strings_bytes_def mtp_set_usb_handle_def handle_ffs_ep0_def new_gadget_def)

theorem sessions_independent_witness:
  "\<exists>c. main_session plain_os short_session sample_ctx = Over c True \<and> fs_db c = None"
proof -
  obtain c where "main_session plain_os short_session sample_ctx = Over c True"
    using short_session_over[of sample_ctx] by (auto simp: sample_ctx_def sample_cfg_def)
  with sessions_independent[OF this] show ?thesis by blast
qed

section \<open>The end of the program\<close>



section \<open>Starting twice\<close>

text \<open>A process starts and, not being told otherwise, creates the queue.\<close>

definition start_daemon :: "queue_file \<Rightarrow> queue_file \<times> bool" where
  "start_daemon q = (case check_running q of (q1, running) \<Rightarrow>
     if running then (q1, True) else (fst (get_message_queue True q1), False))"

text \<open>The process that creates the queue does not lock it: a second process does not see that the first
  one runs and starts too, and only a third one is turned away.\<close>

theorem second_start_undetected:
  assumes "\<not> queue_exists q" "\<not> queue_flocked q"
  defines "q1 \<equiv> fst (start_daemon q)" and "q2 \<equiv> fst (start_daemon (fst (start_daemon q)))"
  shows "\<not> snd (start_daemon q) \<and> \<not> snd (start_daemon q1) \<and> snd (start_daemon q2) \<and>
    main send q1 [] = (q2, [], Run_main_thread (bytes_of ''/etc/umtprd/umtprd.conf'')) \<and>
    main send q2 [] = (q2, [], Exit 0)"
  using assms(1,2) by (simp_all add: q1_def q2_def start_daemon_def check_running_def get_message_queue_def main_def)

theorem second_start_undetected_witness:
  "snd (main (\<lambda>_. 0) \<lparr>queue_exists = True, queue_flocked = True\<rparr> []) = ([], Exit 0)"
  using second_start_undetected[of "\<lparr>queue_exists = False, queue_flocked = False\<rparr>" "\<lambda>_. 0"]
  by (simp add: start_daemon_def check_running_def get_message_queue_def)

section \<open>Commands\<close>

lemma parse_commands:
  assumes "\<forall>c \<in> set cs. send c = 0"
  shows "parse_args send running (map (\<lambda>c. PARAMETER_IPCCMD @ c) cs @ rest) (conf, sent) =
    (case parse_args send running rest (conf, sent \<or> cs \<noteq> []) of (cmds, r) \<Rightarrow> (cs @ cmds, r))"
  using assms
  by (induction cs arbitrary: sent) (simp_all add: strncmp_eq_def split: prod.split)

text \<open>Commands are sent in the order of the command line; the first one that fails ends the process with its
  result, and when all are taken the process ends well without becoming a daemon, whether one runs or not.\<close>

theorem commands_sent_in_order:
  assumes "\<forall>c \<in> set cs. send c = 0" "cs \<noteq> []"
  shows "snd (main send q (map (\<lambda>c. PARAMETER_IPCCMD @ c) cs)) = (cs, Exit 0)"
    "send b \<noteq> 0 \<Longrightarrow>
      snd (main send q (map (\<lambda>c. PARAMETER_IPCCMD @ c) cs @ (PARAMETER_IPCCMD @ b) # rest)) = (cs @ [b], Exit (send b))"
  using assms parse_commands[OF assms(1), of _ "[]"] parse_commands[OF assms(1), of _ "(PARAMETER_IPCCMD @ b) # rest"]
  by (simp_all add: main_def strncmp_eq_def split: prod.split)

theorem commands_sent_in_order_witness:
  "snd (main (\<lambda>_. 0) \<lparr>queue_exists = True, queue_flocked = False\<rparr> (map (\<lambda>c. PARAMETER_IPCCMD @ c) [bytes_of ''lock'', bytes_of ''unlock''])) =
     ([bytes_of ''lock'', bytes_of ''unlock''], Exit 0)"
  by (rule commands_sent_in_order(1)) simp_all

end
