(* ===== verification/Evolution.thy ===== *)
theory Evolution
  imports Daemon
begin

text \<open>
  What every operation of the responder does to the context it shares with the others: it evolves it, so that
  the database keeps its invariant and its objects, the mutex ends as it began and the table of
  storages stays well formed, or it drops the database with the session. The rules of \<open>evolves\<close> and
  \<open>op_rules\<close> follow the way the code is composed.
\<close>

section \<open>How the database grows\<close>

text \<open>
  The pool never shrinks, an entry keeps standing for the object it was made for, and the invariant is
  kept as long as the pool stays within the bound of the hash tables.
\<close>

definition same_object :: "fs_entry \<Rightarrow> fs_entry \<Rightarrow> bool" where
  "same_object e e' \<longleftrightarrow> e_handle e' = e_handle e \<and> e_storage e' = e_storage e \<and> e_parent e' = e_parent e \<and>
     (deleted e \<longrightarrow> deleted e')"

definition db_ext :: "fs_handles_db \<Rightarrow> fs_handles_db \<Rightarrow> bool" where
  "db_ext db db' \<longleftrightarrow> length (pool db) \<le> length (pool db') \<and>
     (\<forall>p < length (pool db). same_object (entry_at db p) (entry_at db' p)) \<and>
     (db_inv db \<longrightarrow> length (pool db') \<le> 0x10000000 \<longrightarrow> db_inv db')"

lemma same_object_refl [intro, simp]: "same_object e e"
  by (simp add: same_object_def)

lemma db_ext_refl [intro, simp]: "db_ext db db"
  by (simp add: db_ext_def)

lemma db_ext_trans [trans]: "db_ext a b \<Longrightarrow> db_ext b c \<Longrightarrow> db_ext a c"
  by (auto simp: db_ext_def same_object_def)

lemma db_ext_marks: "only_marks a b \<Longrightarrow> db_ext a b"
  by (auto simp: db_ext_def only_marks_inv same_object_def only_marks_entry) (simp_all add: only_marks_def)

lemma db_ext_upd:
  "db_ext db (upd_entry p mark_deleted db)" "db_ext db (upd_entry p (\<lambda>e. e\<lparr>e_wd := wd\<rparr>) db)"
  "db_ext db (upd_entry p (\<lambda>e. e\<lparr>e_size := sz\<rparr>) db)" "db_ext db (upd_entry p (\<lambda>e. e\<lparr>e_fd := fd\<rparr>) db)"
  by (auto simp: db_ext_def same_object_def entry_at_upd mark_deleted_def deleted_def has_flag_or intro!: db_inv_upd_entry)

lemma length_pool_alloc:
  "length (pool (fst (alloc_entry db fi par sid))) = Suc (length (pool db))"
  "length (pool (fst (alloc_root_entry db sid))) = Suc (length (pool db))"
  by (simp_all add: alloc_entry_push alloc_root_entry_push)

lemma db_ext_alloc:
  "db_ext db (fst (alloc_entry db fi par sid))" "db_ext db (fst (alloc_root_entry db sid))"
  by (simp_all add: db_ext_def length_pool_alloc db_inv_alloc_entry db_inv_alloc_root_entry db_room_def)
    (simp_all add: alloc_entry_push alloc_root_entry_push nth_append)

lemma db_ext_add: "db_ext db (fst (add_entry db fi par sid))"
  by (simp add: add_entry_def db_ext_alloc split: option.split)

lemma db_ext_search:
  "db_ext db (init_search_handle db h sid)" "db_ext db (fst (get_next_child_handle db))"
  using next_child_marks[of db] by (auto intro!: db_ext_marks simp: prod_eq_iff)

lemma db_ext_rename: "p \<in> ptrs db \<or> \<not> db_inv db \<Longrightarrow> db_ext db (rename_entry db p nm)"
proof -
  have "same_object (entry_at db q) (entry_at (rename_entry db p nm) q)" for q
    by (cases "p < length (pool db)"; cases "p = q") (auto simp: same_object_def pool_rename deleted_def list_update_beyond)
  then show "p \<in> ptrs db \<or> \<not> db_inv db \<Longrightarrow> ?thesis"
    using db_inv_rename_entry[of db p nm] by (auto simp: db_ext_def pool_rename)
qed

section \<open>How an operation changes the context\<close>

definition evolves :: "'w mtp_ctx \<Rightarrow> 'w mtp_ctx \<Rightarrow> bool" where
  "evolves c c' \<longleftrightarrow> db_ext (the_db c) (the_db c') \<and> inotify_locked c' = inotify_locked c \<and>
     (storage_inv (storages c) \<longrightarrow> storage_inv (storages c')) \<and>
     length (ep_handles (usb_ctx c')) = length (ep_handles (usb_ctx c))"

named_theorems evolves "operations that evolve a context"

lemma evolves_refl [intro, simp]: "evolves c c"
  by (simp add: evolves_def)

lemma evolves_trans [trans]: "evolves a b \<Longrightarrow> evolves b c \<Longrightarrow> evolves a c"
  by (auto simp: evolves_def intro: db_ext_trans)

lemma evolves_after: "(\<And>c. evolves c (f c)) \<Longrightarrow> evolves a c \<Longrightarrow> evolves a (f c)"
  using evolves_trans by blast

lemma the_db_frame [simp]:
  "the_db (c\<lparr>wrbuffer := b\<rparr>) = the_db c" "the_db (c\<lparr>rdbuffer := b\<rparr>) = the_db c" "the_db (c\<lparr>rdbuffer2 := b\<rparr>) = the_db c"
  "the_db (c\<lparr>read_file_buffer := r\<rparr>) = the_db c" "the_db (c\<lparr>temp_array := t\<rparr>) = the_db c"
  "the_db (c\<lparr>SendObjInfoHandle := h\<rparr>) = the_db c" "the_db (c\<lparr>SendObjInfoSize := sz\<rparr>) = the_db c"
  "the_db (c\<lparr>SendObjInfoOffset := sz\<rparr>) = the_db c" "the_db (c\<lparr>SetObjectPropValue_Handle := h\<rparr>) = the_db c"
  "the_db (c\<lparr>SetObjectPropValue_PropCode := h\<rparr>) = the_db c" "the_db (c\<lparr>cancel_req := k\<rparr>) = the_db c"
  "the_db (c\<lparr>transferring_file_data := tr\<rparr>) = the_db c" "the_db (c\<lparr>usb_out := u\<rparr>) = the_db c"
  "the_db (c\<lparr>storages := st\<rparr>) = the_db c" "the_db (c\<lparr>inotify_locked := l\<rparr>) = the_db c"
  "the_db (c\<lparr>usb_cfg := cfg\<rparr>) = the_db c"
  by (simp_all add: the_db_def)

lemma evolves_fields [simp]:
  "evolves a (c\<lparr>world := w\<rparr>) = evolves a c" "evolves a (c\<lparr>wrbuffer := b\<rparr>) = evolves a c"
  "evolves a (c\<lparr>rdbuffer := b\<rparr>) = evolves a c" "evolves a (c\<lparr>rdbuffer2 := b\<rparr>) = evolves a c"
  "evolves a (c\<lparr>read_file_buffer := r\<rparr>) = evolves a c" "evolves a (c\<lparr>temp_array := t\<rparr>) = evolves a c"
  "evolves a (c\<lparr>SendObjInfoHandle := h\<rparr>) = evolves a c" "evolves a (c\<lparr>SendObjInfoSize := sz\<rparr>) = evolves a c"
  "evolves a (c\<lparr>SendObjInfoOffset := sz\<rparr>) = evolves a c" "evolves a (c\<lparr>SetObjectPropValue_Handle := h\<rparr>) = evolves a c"
  "evolves a (c\<lparr>SetObjectPropValue_PropCode := h\<rparr>) = evolves a c" "evolves a (c\<lparr>cancel_req := k\<rparr>) = evolves a c"
  "evolves a (c\<lparr>transferring_file_data := tr\<rparr>) = evolves a c" "evolves a (c\<lparr>usb_out := u\<rparr>) = evolves a c"
  "evolves a (c\<lparr>usb_cfg := cfg\<rparr>) = evolves a c"
  by (simp_all add: evolves_def)

lemma evolves_set_db [evolves]: "evolves a c \<Longrightarrow> db_ext (the_db c) db \<Longrightarrow> evolves a (set_db db c)"
  by (auto simp: evolves_def set_db_def the_db_def intro: db_ext_trans)

lemma db_ext_after [evolves]:
  "db_ext a db \<Longrightarrow> db_ext a (upd_entry p mark_deleted db)" "db_ext a db \<Longrightarrow> db_ext a (upd_entry p (\<lambda>e. e\<lparr>e_wd := wd\<rparr>) db)"
  "db_ext a db \<Longrightarrow> db_ext a (upd_entry p (\<lambda>e. e\<lparr>e_size := sz\<rparr>) db)"
  "db_ext a db \<Longrightarrow> db_ext a (upd_entry p (\<lambda>e. e\<lparr>e_fd := fd\<rparr>) db)"
  "db_ext a db \<Longrightarrow> db_ext a (fst (alloc_root_entry db sid))" "db_ext a db \<Longrightarrow> db_ext a (fst (add_entry db fi par sid))"
  "db_ext a db \<Longrightarrow> db_ext a (init_search_handle db h sid)" "db_ext a db \<Longrightarrow> db_ext a (fst (get_next_child_handle db))"
  by (blast intro: db_ext_trans db_ext_upd db_ext_alloc db_ext_add db_ext_search)+

lemma evolves_world: "(\<And>c. \<exists>w. f c = c\<lparr>world := w\<rparr>) \<Longrightarrow> evolves a c \<Longrightarrow> evolves a (f c)"
  by (metis evolves_fields(1))

lemma evolves_giduid [evolves]:
  "evolves a c \<Longrightarrow> evolves a (fst (restore_giduid os c))" "evolves a c \<Longrightarrow> evolves a (fst (set_storage_giduid os c sid))"
  by (erule evolves_world[rotated], rule restore_giduid_world, erule evolves_world[rotated], rule set_storage_giduid_world)

lemma evolves_usb [evolves]:
  "evolves a c \<Longrightarrow> evolves a (fst (write_usb os c ch d))" "evolves a c \<Longrightarrow> evolves a (fst (read_usb os c n))"
  "evolves a c \<Longrightarrow> evolves a (fst (check_and_send_USB_ZLP os c k))"
  by (auto simp: write_usb_def read_usb_def after_transfer_def check_and_send_USB_ZLP_def split: prod.split)

lemma evolves_watch [evolves]:
  "evolves a c \<Longrightarrow> evolves a (inotify_handler_rmwatch os c wd)"
  "evolves a c \<Longrightarrow> evolves a (fst (inotify_handler_addwatch os c path))"
  by (auto simp: inotify_handler_rmwatch_def inotify_handler_addwatch_def split: prod.split)

section \<open>Files and folders\<close>

lemma the_db_rmwatch [simp]: "the_db (inotify_handler_rmwatch os c wd) = the_db c"
  by (simp add: inotify_handler_rmwatch_def)

lemma evolves_scan_files [evolves]: "evolves a c \<Longrightarrow> evolves a (scan_files os c dir base fi par sid)"
proof (rule evolves_after[of "\<lambda>c. scan_files os c dir base fi par sid"])
  fix c :: "'a mtp_ctx"
  show "evolves c (scan_files os c dir base fi par sid)"
  proof (induction os c dir base fi par sid rule: scan_files.induct)
    case (1 os ctx dir base fileinfo par sid)
    let ?c1 = "if listed ctx fileinfo then set_db (fst (add_entry (the_db ctx) fileinfo par sid)) ctx else ctx"
    have "evolves ctx ?c1" by (simp add: evolves)
    then show ?case
      using 1[OF refl prod.collapse prod.collapse] evolves_trans
      by (subst scan_files.simps) (auto simp: Let_def split_beta)
  qed
qed

lemma evolves_refresh_child [evolves]: "evolves a c \<Longrightarrow> evolves a (refresh_child os c p)"
  by (auto simp: refresh_child_def Let_def evolves split: option.split)

lemma evolves_refresh_children [evolves]: "evolves a c \<Longrightarrow> evolves a (refresh_children os c)"
proof (rule evolves_after[of "refresh_children os"])
  fix c :: "'a mtp_ctx"
  show "evolves c (refresh_children os c)"
  proof (induction os c rule: refresh_children.induct)
    case (1 os ctx)
    obtain db r where g: "get_next_child_handle (the_db ctx) = (db, r)" by fastforce
    have d: "db = fst (get_next_child_handle (the_db ctx))" by (simp add: g)
    have e: "evolves ctx (set_db db ctx)" unfolding d by (simp add: evolves)
    then show ?case
      using evolves_trans[OF evolves_refresh_child[OF e] 1[OF g[symmetric]]]
      by (subst refresh_children.simps) (auto simp: g split: option.split)
  qed
qed

lemma evolves_scan_folder [evolves]: "evolves a c \<Longrightarrow> evolves a (fst (scan_and_add_folder os c base par sid))"
  by (auto simp: scan_and_add_folder_def Let_def evolves split: option.split)

lemma evolves_entry [evolves]:
  "evolves a c \<Longrightarrow> evolves a (fst (entry_open os c p fl))" "evolves a c \<Longrightarrow> evolves a (entry_close os c q)"
  "evolves a c \<Longrightarrow> evolves a (fst (entry_read os c p ofs n))"
  by (auto simp: entry_open_def entry_close_def entry_read_def Let_def split_beta evolves split: option.split)

section \<open>Transfers\<close>

lemma evolves_send [evolves]:
  "evolves a c \<Longrightarrow> evolves a (fst (load_page os c p i))" "evolves a c \<Longrightarrow> evolves a (send_packet os c d)"
  "evolves a c \<Longrightarrow> evolves a (send_header c n)" "evolves a c \<Longrightarrow> evolves a (fst (send_end os c p n))"
proof -
  show "evolves a c \<Longrightarrow> evolves a (fst (load_page os c p i))"
    using evolves_entry(3)[of a c os p i "read_file_buffer_size c"]
    by (auto simp: load_page_def split: prod.split option.split)
qed (auto simp: send_packet_def send_header_def send_end_def Let_def evolves)

lemma evolves_send_block:
  "send_block os c p offset n j ofs i = Some (c', r) \<Longrightarrow> evolves a c \<Longrightarrow> evolves a c'"
  by (auto simp: send_block_def Let_def split_beta evolves split: if_splits)

lemma evolves_send_loop:
  "send_loop os k c p offset n j ofs i = Some (c', r) \<Longrightarrow> evolves a c \<Longrightarrow> evolves a c'"
proof (induction k arbitrary: c j ofs i)
  case (Suc k)
  obtain c1 s where s: "send_block os c p offset n j ofs i = Some (c1, s)" using Suc.prems(1) by (auto split: option.splits)
  have e: "evolves a c1" by (rule evolves_send_block[OF s Suc.prems(2)])
  show ?case
    using Suc.prems(1) e Suc.IH[OF _ e] by (auto simp: s split: sum.splits prod.splits if_splits)
qed simp

lemma evolves_send_file:
  assumes "send_file_data os c p offset n = Some (c', r)" "evolves a c"
  shows "evolves a c'"
proof -
  let ?n = "actual_size (e_size (entry_at (the_db c) p)) offset n"
  obtain c1 fd where o: "entry_open os (send_header c ?n) p [O_RDONLY, O_LARGEFILE] = (c1, fd)" by fastforce
  have e: "evolves a c1" using evolves_entry(1)[OF evolves_send(3)[OF assms(2)], of os ?n p "[O_RDONLY, O_LARGEFILE]"]
    by (simp add: o)
  show ?thesis
  proof (cases "fd = -1")
    case True
    then show ?thesis using assms(1) e by (simp add: send_file_data_def o)
  next
    case False
    then obtain c2 b where l: "send_loop os (nat ?n + 1) (c1\<lparr>transferring_file_data := True\<rparr>) p offset ?n 0 12 (-1) = Some (c2, b)"
      using assms(1) by (auto simp: send_file_data_def o Let_def simp del: send_loop.simps split: option.splits)
    have "evolves a c2" by (rule evolves_send_loop[OF l]) (simp add: e)
    then show ?thesis
      using assms(1) False l evolves_send(4)[of a c2 os p ?n] 
      by (cases b) (auto simp: send_file_data_def o Let_def simp del: send_loop.simps)
  qed
qed

lemma evolves_receive [evolves]:
  "evolves a c \<Longrightarrow> evolves a (write_data os c fd d)" "evolves a c \<Longrightarrow> evolves a (fst (read_block os c))"
  "evolves a c \<Longrightarrow> evolves a (fst (receive_first os c fd packet sz partial))"
proof -
  show "evolves a c \<Longrightarrow> evolves a (fst (read_block os c))"
    using evolves_usb(2)[of a c os "usb_rd_buffer_max_size c"] by (auto simp: read_block_def split: prod.split option.split)
qed (auto simp: write_data_def receive_first_def Let_def)

lemma evolves_receive_loop:
  assumes "receive_loop os c fd sz = Some c'" "evolves a c"
  shows "evolves a c'"
proof -
  have "evolves a c \<longrightarrow> evolves a c'"
  proof (rule receive_loop.raw_induct[where P = "\<lambda>os c fd sz c'. evolves a c \<longrightarrow> evolves a c'", OF _ assms(1)], rule impI)
    fix loop :: "'a os \<Rightarrow> 'a mtp_ctx \<Rightarrow> int \<Rightarrow> int \<Rightarrow> 'a mtp_ctx option" and os c fd sz c'
    assume IH: "\<And>os c fd sz c'. loop os c fd sz = Some c' \<Longrightarrow> evolves a c \<longrightarrow> evolves a c'"
      and r: "(if sz = usb_rd_buffer_max_size c \<and> cancel_req c = 0 \<and> sz \<ge> 0
        then (case read_block os c of (ctx1, None) \<Rightarrow> loop os ctx1 fd (-1)
           | (ctx1, Some data) \<Rightarrow> loop os (write_data os ctx1 fd data) fd (int (length data)))
        else Some c) = Some c'" and e: "evolves a c"
    obtain c1 d where b: "read_block os c = (c1, d)" by fastforce
    have "evolves a c1" using evolves_receive(2)[OF e, of os] by (simp add: b)
    then show "evolves a c'"
      using r e by (auto simp: b evolves split: if_splits option.splits dest: IH)
  qed
  then show ?thesis using assms(2) by simp
qed

lemma evolves_receive_object:
  assumes "receive_object os c p fd packet n partial = Some (c', r)" "evolves a c"
  shows "evolves a c'"
proof -
  let ?c1 = "c\<lparr>transferring_file_data := True, world := fst (os_lseek os (world c) fd (SendObjInfoOffset c) SEEK_SET)\<rparr>"
  obtain c2 k where 2: "receive_first os ?c1 fd packet (n - 12) partial = (c2, k)" by fastforce
  have "evolves a c2" using evolves_receive(3)[of a ?c1 os fd packet "n - 12" partial] assms(2) by (simp add: 2)
  moreover obtain c3 where 3: "receive_loop os c2 fd k = Some c3"
    using assms(1) by (auto simp: receive_object_def Let_def 2 split: option.splits)
  ultimately have "evolves a c3" using evolves_receive_loop by blast
  then show ?thesis
    using assms(1) by (auto simp: receive_object_def Let_def 2 3 split_beta evolves split: if_splits)
qed

section \<open>Operations\<close>

text \<open>A handler that returns has evolved the context.\<close>

definition op_ok :: "'w mtp_ctx \<Rightarrow> 'w op_result \<Rightarrow> bool" where
  "op_ok a res \<longleftrightarrow> (\<forall>c code ps. res = Some (c, code, ps) \<longrightarrow> evolves a c)"

named_theorems op_rules "how a handler is built"

lemma op_ok_rules [op_rules]:
  "op_ok a None" "evolves a c \<Longrightarrow> op_ok a (Some (c, x))"
  "(b \<Longrightarrow> op_ok a r1) \<Longrightarrow> (\<not> b \<Longrightarrow> op_ok a r2) \<Longrightarrow> op_ok a (if b then r1 else r2)"
  "(f = None \<Longrightarrow> op_ok a r3) \<Longrightarrow> (\<And>y. f = Some y \<Longrightarrow> op_ok a (g y)) \<Longrightarrow>
     op_ok a (case f of None \<Rightarrow> r3 | Some y \<Rightarrow> g y)"
  by (cases x; auto simp: op_ok_def split: option.split)+

lemma op_ok_split [op_rules]:
  "(\<And>x y. p = (x, y) \<Longrightarrow> op_ok a (h x y)) \<Longrightarrow> op_ok a (case p of (x, y) \<Rightarrow> h x y)"
  by (simp add: split_beta)

lemma op_ok_in_session [op_rules]: "evolves a c \<Longrightarrow> op_ok a r \<Longrightarrow> op_ok a (in_session c r)"
  by (auto simp: in_session_def op_ok_def)

lemma op_ok_reply_entry [op_rules]: "evolves a c \<Longrightarrow> (\<And>p. op_ok a (f p)) \<Longrightarrow> op_ok a (reply_entry c h f)"
  by (auto simp: reply_entry_def op_ok_def split: option.splits)

text \<open>A critical section.\<close>

lemma evolves_section: "\<not> inotify_locked c \<Longrightarrow> evolves (lock_inotify c) d \<Longrightarrow> evolves c (unlock_inotify d)"
  by (auto simp: evolves_def lock_inotify_def unlock_inotify_def the_db_def)

lemma op_ok_locked [op_rules]:
  "\<not> inotify_locked c \<Longrightarrow> op_ok (lock_inotify c) (body (lock_inotify c)) \<Longrightarrow> op_ok c (locked os c body)"
  using evolves_section[of c] by (auto simp: op_ok_def locked_def)

lemma evolves_build_data:
  assumes "evolves a c" "\<And>c b m. evolves a c \<Longrightarrow> evolves a (fst (builder c b m))"
  shows "evolves a (fst (build_data c packet builder))"
proof -
  have "evolves a d" if "builder (c\<lparr>wrbuffer := b\<rparr>) b' m = (d, r)" for b b' m d r
    using assms(2)[of "c\<lparr>wrbuffer := b\<rparr>" b' m] assms(1) that by simp
  then show ?thesis using assms(1) by (auto simp: build_data_def split: prod.split)
qed

lemma evolves_send_data [evolves]: "evolves a c \<Longrightarrow> evolves a (send_data os c n)"
  by (simp add: send_data_def Let_def evolves)

lemma op_ok_reply_data [op_rules]:
  assumes "evolves a c" "\<And>c b m. evolves a c \<Longrightarrow> evolves a (fst (builder c b m))"
  shows "op_ok a (reply_data os c packet builder)" "op_ok a (reply_nonempty os c packet builder code)"
proof -
  obtain d n where b: "build_data c packet builder = (d, n)" by fastforce
  have "evolves a d" using evolves_build_data[where packet = packet and builder = builder, OF assms] by (simp add: b)
  then show "op_ok a (reply_data os c packet builder)" "op_ok a (reply_nonempty os c packet builder code)"
    by (auto simp: op_ok_def reply_data_def reply_nonempty_def b evolves)
qed

lemma evolves_datasets [evolves]:
  "evolves a c \<Longrightarrow> evolves a (fst (build_objectinfo_dataset os c b m p))"
  "evolves a c \<Longrightarrow> evolves a (fst (build_objectproplist_dataset os c b m p h k))"
  "evolves a c \<Longrightarrow> evolves a (fst (ids_dataset c b m))"
  by (auto simp: build_objectinfo_dataset_def build_objectproplist_dataset_def ids_dataset_def Let_def split_beta evolves
      split: option.split)

text \<open>The handlers that only read the database, or touch single entries.\<close>

lemma op_ok_simple [op_rules]:
  assumes "\<not> inotify_locked c"
  shows "op_ok c (mtp_op_GetDeviceInfos os c packet)" "op_ok c (mtp_op_GetDevicePropDesc os c packet)"
    "op_ok c (mtp_op_GetDevicePropValue os c packet)" "op_ok c (mtp_op_GetStorageIDs os c packet)"
    "op_ok c (mtp_op_GetStorageInfo os c packet)" "op_ok c (mtp_op_GetObjectInfo os c packet)"
    "op_ok c (mtp_op_GetObjectPropDesc os c packet)" "op_ok c (mtp_op_GetObjectPropList os c packet)"
    "op_ok c (mtp_op_GetObjectPropsSupported os c packet)" "op_ok c (mtp_op_GetObjectPropValue os c packet)"
    "op_ok c (mtp_op_GetObjectReferences os c packet)" "op_ok c (mtp_op_TruncateObject os c packet)"
    "op_ok c (mtp_op_BeginEditObject os c packet)" "op_ok c (mtp_op_EndEditObject os c packet)"
proof -
  have u: "evolves c (unlock_inotify c)" using assms by (simp add: evolves_def unlock_inotify_def the_db_def)
  show "op_ok c (mtp_op_GetDeviceInfos os c packet)" "op_ok c (mtp_op_GetDevicePropDesc os c packet)"
    "op_ok c (mtp_op_GetDevicePropValue os c packet)" "op_ok c (mtp_op_GetStorageIDs os c packet)"
    "op_ok c (mtp_op_GetStorageInfo os c packet)" "op_ok c (mtp_op_GetObjectInfo os c packet)"
    "op_ok c (mtp_op_GetObjectPropDesc os c packet)" "op_ok c (mtp_op_GetObjectPropList os c packet)"
    "op_ok c (mtp_op_GetObjectPropsSupported os c packet)" "op_ok c (mtp_op_GetObjectPropValue os c packet)"
    "op_ok c (mtp_op_GetObjectReferences os c packet)" "op_ok c (mtp_op_TruncateObject os c packet)"
    "op_ok c (mtp_op_BeginEditObject os c packet)" "op_ok c (mtp_op_EndEditObject os c packet)"
    unfolding mtp_op_GetDeviceInfos_def mtp_op_GetDevicePropDesc_def mtp_op_GetDevicePropValue_def mtp_op_GetStorageIDs_def
      mtp_op_GetStorageInfo_def mtp_op_GetObjectInfo_def mtp_op_GetObjectPropDesc_def mtp_op_GetObjectPropList_def
      mtp_op_GetObjectPropsSupported_def mtp_op_GetObjectPropValue_def mtp_op_GetObjectReferences_def
      mtp_op_TruncateObject_def mtp_op_BeginEditObject_def mtp_op_EndEditObject_def Let_def
    by ((intro op_rules allI impI assms evolves_refl u; simp add: evolves)+)
qed

text \<open>What the walks over the tree do.\<close>

lemma evolves_fs_step: "fs_step c c' \<Longrightarrow> only_marks (the_db c) (the_db c') \<Longrightarrow> evolves c c'"
  using fs_step_shape[of c c'] by (auto simp: evolves_def db_ext_marks)

lemma evolves_mark_entry [evolves]: "evolves a c \<Longrightarrow> evolves a (mark_entry os c p)"
  using evolves_trans[OF _ evolves_fs_step[OF mark_entry_facts(2,1)]] .

lemma evolves_delete_tree:
  assumes "delete_tree os c h = Some (c', r)" "evolves a c"
  shows "evolves a c'"
proof -
  have "evolves a d" if "delete_db_tree os c p 0 = Some (d, k)" for p d k
  proof -
    have "evolves c d" using delete_db_tree_facts[of os c p 0] that by (auto intro: evolves_fs_step)
    then show ?thesis using assms(2) evolves_trans by blast
  qed
  then show ?thesis
    using assms by (auto simp: delete_tree_def evolves split: option.splits prod.splits if_splits)
qed

lemma evolves_alloc_roots: "evolves a c \<Longrightarrow> op_ok a (alloc_roots os c ss)"
proof (induction ss arbitrary: c)
  case (Cons s ss)
  have "evolves a (set_db (fst (alloc_root_entry (the_db c) (storage_id s))) c)" using Cons.prems by (simp add: evolves)
  then show ?case using Cons by (auto intro!: op_rules)
qed (auto intro!: op_rules)

lemma op_ok_OpenSession [op_rules]: "op_ok c (mtp_op_OpenSession os c packet)"
proof (cases "fs_db c = None")
  case True
  then have "evolves c (c\<lparr>session_id := param packet 0, fs_db := Some init_fs_db\<rparr>)"
    by (simp add: evolves_def the_db_def)
  from evolves_alloc_roots[OF this] show ?thesis by (auto simp: mtp_op_OpenSession_def Let_def True intro!: op_rules)
qed (auto simp: mtp_op_OpenSession_def Let_def intro!: op_rules)

lemma evolves_watch_folder [evolves]: "evolves a c \<Longrightarrow> evolves a (watch_folder os c entry path)"
proof -
  have "the_db (fst (inotify_handler_addwatch os c path)) = the_db c"
    by (simp add: inotify_handler_addwatch_def split: prod.split)
  then show "evolves a c \<Longrightarrow> evolves a (watch_folder os c entry path)"
    by (auto simp: watch_folder_def split_beta evolves split: option.split)
qed

lemma evolves_handles_scan [evolves]: "evolves a c \<Longrightarrow> evolves a (fst (handles_scan os c sid par entry path))"
  by (auto simp: handles_scan_def Let_def split_beta evolves)

lemma handles_packet_ext:
  "handles_packet k mp ms nb db buf ofs i = Some (db', buf', ofs', i') \<Longrightarrow> db_ext a db \<Longrightarrow> db_ext a db'"
proof (induction k arbitrary: db buf ofs i)
  case (Suc k)
  obtain db1 e where n: "get_next_child_handle db = (db1, e)" by fastforce
  have "db_ext a db1" using db_ext_after(8)[OF Suc.prems(2)] by (simp add: n)
  then show ?case
    using Suc.prems(1) Suc.IH by (auto simp: n Let_def split: prod.splits if_splits)
qed simp

lemma evolves_handles_loop:
  "handles_loop os k c nb ofs i = Some (c', r) \<Longrightarrow> evolves a c \<Longrightarrow> evolves a c'"
proof (induction k arbitrary: c ofs i)
  case (Suc k)
  obtain db buf ofs1 i1 where p: "handles_packet (Suc (length (search_cursor (the_db c)))) (uint (max_packet_size c))
      (usb_wr_buffer_max_size c) nb (the_db c) (wrbuffer c) ofs i = Some (db, buf, ofs1, i1)"
    using Suc.prems(1) by (auto simp del: handles_packet.simps split: option.splits)
  let ?c1 = "set_db db (c\<lparr>wrbuffer := buf\<rparr>)"
  have e: "evolves a ?c1" using Suc.prems(2) handles_packet_ext[OF p db_ext_refl] by (simp add: evolves)
  show ?case
    using Suc.prems(1) e Suc.IH[of "fst (write_usb os ?c1 EP_DESCRIPTOR_IN (take (nat ofs1) buf))" 0 i1] evolves_usb(1)[OF e]
    by (auto simp: p Let_def simp del: handles_packet.simps split: if_splits)
qed simp

lemma op_ok_send_handles [op_rules]: "evolves a c \<Longrightarrow> op_ok a (send_handles os c nb)"
proof -
  assume e: "evolves a c"
  let ?b1 = "fst (poke32 (wrbuffer c) 0 (usb_wr_buffer_max_size c) (word_of_nat (12 + (1 + nb) * 4)))"
  obtain buf ofs where b: "poke32 ?b1 12 (usb_wr_buffer_max_size c) (word_of_nat nb) = (buf, ofs)" by fastforce
  have s: "send_handles os c nb = (case handles_loop os (Suc nb) (c\<lparr>wrbuffer := buf\<rparr>) nb ofs 0 of
      None \<Rightarrow> None
    | Some (d, False) \<Rightarrow> reply d MTP_RESPONSE_GENERAL_ERROR
    | Some (d, True) \<Rightarrow> reply (fst (check_and_send_USB_ZLP os d (int (12 + 4 + nb * 4)))) MTP_RESPONSE_OK)"
    by (simp only: send_handles_def Let_def b prod.case)
  show ?thesis
  proof (cases "handles_loop os (Suc nb) (c\<lparr>wrbuffer := buf\<rparr>) nb ofs 0")
    case None
    then show ?thesis by (simp only: s op_ok_rules(1) option.case)
  next
    case (Some r)
    obtain d ok where r: "r = (d, ok)" by fastforce
    have "evolves a d" by (rule evolves_handles_loop[OF Some[unfolded r]]) (simp add: e)
    then show ?thesis unfolding s Some r by (cases ok) (simp_all add: op_ok_def evolves)
  qed
qed

lemma evolves_handles_scan': "handles_scan os c sid par e path = (c', r) \<Longrightarrow> evolves a c \<Longrightarrow> evolves a c'"
  using evolves_handles_scan[of a c os sid par e path] by simp

lemma op_ok_GetObjectHandles [op_rules]:
  assumes "\<not> inotify_locked c"
  shows "op_ok c (mtp_op_GetObjectHandles os c packet)"
  unfolding mtp_op_GetObjectHandles_def Let_def
  by ((intro op_rules allI impI assms evolves_refl; (simp add: evolves; fail)?)+; (erule evolves_handles_scan')?; simp)

lemma op_ok_GetObject [op_rules]:
  assumes "\<not> inotify_locked c"
  shows "op_ok c (mtp_op_GetObject os c packet)" "op_ok c (mtp_op_GetPartialObject os c packet)"
proof -
  show "op_ok c (mtp_op_GetObject os c packet)"
    unfolding mtp_op_GetObject_def Let_def
    by ((intro op_rules allI impI assms evolves_refl; (simp add: evolves; fail)?)+; hypsubst; erule evolves_send_file; simp)
  show "op_ok c (mtp_op_GetPartialObject os c packet)"
    unfolding mtp_op_GetPartialObject_def Let_def
    by ((intro op_rules allI impI assms evolves_refl; (simp add: evolves; fail)?)+; hypsubst; erule evolves_send_file; simp)
qed

lemma op_ok_SendObject [op_rules]:
  assumes "\<not> inotify_locked c"
  shows "op_ok c (mtp_op_SendObject os c packet n)"
proof -
  have e: "evolves a (partial_command d packet)" if "evolves a d" for a d :: "'a mtp_ctx"
    using that by (simp add: partial_command_def)
  have s: "op_ok a (send_object_data os d packet n)" if "evolves a d" for a d :: "'a mtp_ctx"
  proof -
    have "evolves a d'" if "receive_object os (fst (entry_open os d p fl)) p fd packet n k = Some (d', r)" for p fl fd k d' r
      by (rule evolves_receive_object[OF that]) (rule evolves_entry(1)[OF \<open>evolves a d\<close>])
    then show ?thesis
      using \<open>evolves a d\<close>
      by (auto simp: op_ok_def send_object_data_def reply_entry_def Let_def split_beta evolves split: option.splits if_splits)
  qed
  show ?thesis
    unfolding mtp_op_SendObject_def Let_def by ((intro op_rules assms evolves_refl s e)+)
qed

lemma evolves_create [evolves]:
  "evolves a c \<Longrightarrow> evolves a (fst (create_folder os c p nm h sid))"
  "evolves a c \<Longrightarrow> evolves a (fst (create_file os c p nm sz h sid))"
  by (auto simp: create_folder_def create_file_def Let_def split_beta evolves split: option.split)

lemma op_ok_SendObjectInfo [op_rules]:
  assumes "\<not> inotify_locked c"
  shows "op_ok c (mtp_op_SendObjectInfo os c packet)"
proof -
  have "evolves a (fst (parse_incoming_dataset os d data par sid))" if "evolves a d" for a d :: "'a mtp_ctx" and data par sid
    using that by (auto simp: parse_incoming_dataset_def Let_def evolves split: option.split)
  then have "parse_incoming_dataset os d data par sid = (d', r) \<Longrightarrow> evolves a d \<Longrightarrow> evolves a d'"
    for a d d' :: "'a mtp_ctx" and data par sid r by (metis fst_conv)
  then show ?thesis
    unfolding mtp_op_SendObjectInfo_def Let_def
    by ((intro op_rules assms evolves_refl)+; hypsubst) (blast intro: evolves_receive(2))
qed

lemma op_ok_SetObjectPropValue [op_rules]: "op_ok c (mtp_op_SetObjectPropValue os c packet)"
proof -
  have r: "evolves d (fst (rename_object os d p path path2 nm))" if "p \<in> ptrs (the_db d) \<or> \<not> db_inv (the_db d)" for d :: "'a mtp_ctx" and p path path2 nm
    using that db_ext_rename[OF that, of nm] by (auto simp: rename_object_def Let_def split_beta evolves)
  have "evolves c (fst (setObjectPropValue os c packet h k))" for h k
    using get_entry_by_handle_Some[of "the_db c" "storages c" h]
    by (auto simp: setObjectPropValue_def live_def split: option.split intro!: r)
  then have "setObjectPropValue os c packet h k = (d, r) \<Longrightarrow> evolves c d" for h k d r by (metis fst_conv)
  then show ?thesis
    unfolding mtp_op_SetObjectPropValue_def by ((intro op_rules evolves_refl)+; simp)
qed

lemma op_ok_DeleteObject [op_rules]:
  assumes "\<not> inotify_locked c"
  shows "op_ok c (mtp_op_DeleteObject os c packet)"
proof -
  have g: "set_storage_giduid os d sid = (d', r) \<Longrightarrow> evolves a d \<Longrightarrow> evolves a d'" for a d d' :: "'a mtp_ctx" and sid r
    using evolves_giduid(2)[of a d os sid] by simp
  have "delete_tree os d h = Some (d', r) \<Longrightarrow> evolves a d \<Longrightarrow> evolves a (fst (restore_giduid os d'))"
    for a d d' :: "'a mtp_ctx" and h r using evolves_delete_tree evolves_giduid(1) by blast
  then show ?thesis
    unfolding mtp_op_DeleteObject_def Let_def
    by ((intro op_rules assms evolves_refl; (simp add: evolves; fail)?)+; hypsubst?) (blast intro: g evolves)+
qed

section \<open>Sound contexts\<close>

definition sound :: "'w mtp_ctx \<Rightarrow> bool" where
  "sound c \<longleftrightarrow> (length (pool (the_db c)) \<le> 0x10000000 \<longrightarrow> db_inv (the_db c)) \<and> \<not> inotify_locked c \<and>
     storage_inv (storages c) \<and> length (ep_handles (usb_ctx c)) = 3"

text \<open>What happens either evolves the context or drops the database.\<close>

definition dropped :: "'w mtp_ctx \<Rightarrow> 'w mtp_ctx \<Rightarrow> bool" where
  "dropped c c' \<longleftrightarrow> fs_db c' = None \<and> inotify_locked c' = inotify_locked c \<and> storages c' = storages c \<and>
     length (ep_handles (usb_ctx c')) = length (ep_handles (usb_ctx c))"

definition moves :: "'w mtp_ctx \<Rightarrow> 'w mtp_ctx \<Rightarrow> bool" where
  "moves c c' \<longleftrightarrow> evolves c c' \<or> (\<exists>d. evolves c d \<and> dropped d c')"

lemma sound_evolves: "evolves c c' \<Longrightarrow> sound c \<Longrightarrow> sound c'"
  by (auto simp: evolves_def sound_def db_ext_def)

lemma sound_moves: "moves c c' \<Longrightarrow> sound c \<Longrightarrow> sound c'"
  using sound_evolves by (auto simp: moves_def dropped_def sound_def the_db_def db_inv_init)

lemma evolves_moves [intro]: "evolves c c' \<Longrightarrow> moves c c'" "dropped c c' \<Longrightarrow> moves c c'"
  by (auto simp: moves_def)

lemma moves_trans: "evolves a b \<Longrightarrow> moves b c \<Longrightarrow> moves a c"
  using evolves_trans by (auto simp: moves_def)

lemma moves_after:
  assumes "moves a c" "evolves c d" "fs_db d = fs_db c" "storages d = storages c"
  shows "moves a d"
proof -
  have "dropped b d" if "dropped b c" for b
    using that assms(2-4) by (simp add: dropped_def evolves_def)
  then show ?thesis using assms(1,2) evolves_trans by (auto simp: moves_def)
qed

lemma sound_unlocked: "sound c \<Longrightarrow> \<not> inotify_locked c"
  by (simp add: sound_def)

lemma dropped_db: "fs_step c d \<Longrightarrow> dropped c (d\<lparr>fs_db := None\<rparr>)"
  using fs_step_shape[of c d] by (auto simp: dropped_def)

lemma moves_dispatch:
  assumes "\<not> inotify_locked c" "dispatch os c packet n = Some (c', r)"
  shows "moves c c'"
proof (cases "hdr_code packet = MTP_OPERATION_CLOSE_SESSION")
  case True
  then have "mtp_op_CloseSession os c = Some (c', r)" using assms(2) by (simp add: dispatch_def)
  then show ?thesis
    using dropped_db[OF deinit_fs_db_step[of c os]]
    by (auto simp: mtp_op_CloseSession_def in_session_def split: if_splits)
next
  case False
  have "op_ok c (dispatch os c packet n)"
    unfolding dispatch_def Let_def using False
    by (simp only: if_False) (intro op_rules evolves_refl assms(1))
  then show ?thesis using assms(2) by (cases r) (auto simp: op_ok_def)
qed

lemma evolves_send_status [evolves]: "evolves a c \<Longrightarrow> evolves a (send_status os c tx code ps)"
  by (auto simp: send_status_def Let_def evolves split: prod.split)

lemma evolves_with_gadget [evolves]:
  "evolves a c \<Longrightarrow> (\<And>g. length (ep_handles (f g)) = length (ep_handles g)) \<Longrightarrow> evolves a (with_gadget f c)"
  by (auto simp: evolves_def)

lemma send_status_frame: "fs_db (send_status os c tx code ps) = fs_db c" "storages (send_status os c tx code ps) = storages c"
  by (simp_all add: send_status_def write_usb_def after_transfer_def Let_def split: prod.split)

lemma moves_io_round:
  assumes "\<not> inotify_locked c" "io_round os c = Some c'"
  shows "moves c c'"
proof -
  obtain d k where d: "mtp_incoming_packet os c = Some (d, k)" using assms(2) by (auto simp: io_round_def split: option.splits)
  obtain c1 data where u: "read_usb os c (usb_rd_buffer_max_size c) = (c1, data)" by fastforce
  have e: "evolves c (c1\<lparr>rdbuffer := b\<rparr>)" for b
    using evolves_usb(2)[of c c os "usb_rd_buffer_max_size c"] by (simp add: u)
  have p: "moves c e'" if pr: "process_in_packet os (c1\<lparr>rdbuffer := b\<rparr>) packet n = Some e'" for b packet n e'
  proof -
    obtain d code ps where d: "dispatch os (c1\<lparr>rdbuffer := b\<rparr>) packet n = Some (d, code, ps)"
      "e' = send_status os d (hdr_tx_id packet) code ps"
      using pr by (cases "dispatch os (c1\<lparr>rdbuffer := b\<rparr>) packet n") (auto simp: process_in_packet_def)
    have "\<not> inotify_locked (c1\<lparr>rdbuffer := b\<rparr>)" using e[of b] assms(1) by (simp add: evolves_def)
    from moves_trans[OF e moves_dispatch[OF this d(1)]] show ?thesis
      unfolding d(2) by (rule moves_after) (simp_all add: evolves send_status_frame)
  qed
  have "evolves c c1" using e[of "rdbuffer c1"] by simp
  then have "moves c d"
    using d p e by (auto simp: mtp_incoming_packet_def u Let_def split: option.splits if_splits)
  moreover from this have "moves c (with_gadget (\<lambda>g. g\<lparr>stop := True\<rparr>) d)"
    by (rule moves_after) (simp_all add: evolves)
  ultimately show ?thesis using assms(2) d by (auto simp: io_round_def)
qed

section \<open>Messages\<close>

lemma storage_inv_flags: "storage_inv sts \<Longrightarrow> storage_inv (sts[i := (sts ! i)\<lparr>flags := f\<rparr>])"
proof -
  have "in_use (sts[i := (sts ! i)\<lparr>flags := f\<rparr>]) j = in_use sts j" for j
    by (cases "i < length sts \<and> i = j") (auto simp: in_use_def nth_list_update list_update_beyond)
  moreover have "storage_id (sts[i := (sts ! i)\<lparr>flags := f\<rparr>] ! j) = storage_id (sts ! j)"
    "description (sts[i := (sts ! i)\<lparr>flags := f\<rparr>] ! j) = description (sts ! j)" for j
    by (cases "i < length sts", auto simp: nth_list_update list_update_beyond)+
  ultimately show "storage_inv sts \<Longrightarrow> ?thesis" unfolding storage_inv_def by simp
qed

lemma evolves_storages:
  assumes "evolves a c" "storage_inv (storages c) \<Longrightarrow> storage_inv st"
  shows "evolves a (c\<lparr>storages := st\<rparr>)"
  using assms by (auto simp: evolves_def)

lemma evolves_storage_lines [evolves]:
  "evolves a c \<Longrightarrow> evolves a (mtp_add_storage_from_line stack os c line i)"
  "evolves a c \<Longrightarrow> evolves a (fst (mtp_remove_storage_from_line c name i))"
proof -
  have "evolves a c \<Longrightarrow> evolves a (add_storage os c path descr u g fl)" for path descr u g fl
    by (auto simp: add_storage_def intro!: evolves_storages storage_inv_add)
  then show "evolves a c \<Longrightarrow> evolves a (mtp_add_storage_from_line stack os c line i)"
    by (auto simp: mtp_add_storage_from_line_def split: option.split prod.split)
  show "evolves a c \<Longrightarrow> evolves a (fst (mtp_remove_storage_from_line c name i))"
    using storage_inv_remove
    by (auto simp: mtp_remove_storage_from_line_def split_beta intro!: evolves_storages split: option.split)
qed

lemma evolves_push_event [evolves]: "evolves a c \<Longrightarrow> evolves a (fst (mtp_push_event os c code ps))"
  by (auto simp: mtp_push_event_def evolves split: prod.split)

lemma evolves_umount_loop [evolves]: "evolves a c \<Longrightarrow> evolves a (umount_loop os c sid start)"
proof (rule evolves_after[of "\<lambda>c. umount_loop os c sid start"])
  fix c :: "'a mtp_ctx"
  show "evolves c (umount_loop os c sid start)"
  proof (induction os c sid start rule: umount_loop.induct)
    case (1 os c sid start)
    then show ?case
      using evolves_mark_entry[OF evolves_refl] evolves_trans
      by (subst umount_loop.simps) (fastforce simp: Let_def split: list.split)
  qed
qed

lemma evolves_stores [evolves]:
  "evolves a c \<Longrightarrow> evolves a (umount_store os c i u)" "evolves a c \<Longrightarrow> evolves a (mount_store c i u)"
  "evolves a c \<Longrightarrow> evolves a (set_flags k f c)"
  by (auto simp: umount_store_def mount_store_def set_flags_def Let_def evolves intro!: evolves_storages storage_inv_flags)

lemma evolves_announce:
  assumes "\<not> inotify_locked a" "\<And>a c. evolves a c \<Longrightarrow> evolves a (change c)" "evolves a c"
  shows "evolves a (announce_store os c i event change)"
proof -
  have l: "\<not> inotify_locked c" using assms(1,3) by (simp add: evolves_def)
  have "evolves (lock_inotify c) (change (lock_inotify c))" by (rule assms(2)) simp
  then have "evolves (lock_inotify c) (fst (mtp_push_event os (change (lock_inotify c)) event ps))" for ps by (rule evolves)
  from evolves_trans[OF assms(3) evolves_section[OF l this]] show ?thesis
    using assms(3) by (simp add: announce_store_def Let_def)
qed

lemma evolves_message:
  assumes "\<not> inotify_locked a" "evolves a c"
  shows "evolves a (msgqueue_received stack os c bytes)"
proof -
  note announce = evolves_announce[OF assms(1)]
  have cmd: "evolves a d \<Longrightarrow> (\<And>d rest. evolves a d \<Longrightarrow> evolves a (f d rest)) \<Longrightarrow> evolves a (on_command msg command f d)"
    for msg command f and d :: "'a mtp_ctx"
    by (simp add: on_command_def)
  have fold: "evolves a d \<Longrightarrow> (\<And>d i. evolves a d \<Longrightarrow> evolves a (f d i)) \<Longrightarrow> evolves a (foldl f d xs)"
    for f and d :: "'a mtp_ctx" and xs :: "nat list"
    by (induction xs arbitrary: d) simp_all
  have "evolves a (lock_store os d i)" "evolves a (unlock_store os d i)" if "evolves a d" for d :: "'a mtp_ctx" and i
    using that by (auto simp: lock_store_def unlock_store_def evolves intro!: announce)
  then have all: "evolves a (lock_message os d)" "evolves a (unlock_message os d)" if "evolves a d" for d :: "'a mtp_ctx"
    using that by (auto simp: lock_message_def unlock_message_def intro!: fold simp del: upt_Suc foldl_conv_fold)
  have one: "evolves a (mount_message os d nm)" "evolves a (unmount_message os d nm)" if "evolves a d" for d :: "'a mtp_ctx" and nm
    using that by (auto simp: mount_message_def unmount_message_def Let_def evolves intro!: announce)
  show ?thesis
    using assms(2) by (simp add: msgqueue_received_def run_message_def cmd all one evolves)
qed

section \<open>Events of the folders and of the gadget\<close>

lemma evolves_notify:
  assumes "\<not> inotify_locked c" "h \<in> {IN_CREATE_handler, IN_MODIFY_handler, IN_DELETE_handler}"
    and "notify_entry os h event c fi start = Some (c', fi', rest)"
  shows "evolves c c'"
proof -
  obtain act gone code where h: "h = (act, gone, code)" by (cases h)
  have act: "evolves a d \<Longrightarrow> evolves a (fst (act os d f p))" for a d :: "'a mtp_ctx" and f p
    using assms(2) by (auto simp: h IN_CREATE_handler_def IN_MODIFY_handler_def IN_DELETE_handler_def created_def
        modified_def removed_def Let_def evolves split_beta split: option.split)
  let ?c1 = "lock_inotify c"
  define r where "r = (case get_entry_by_wd (the_db ?c1) (ev_wd event) start of
      [] \<Rightarrow> (?c1, fi, None)
    | p # _ \<Rightarrow> (case get_file_info os ?c1 event p fi gone of None \<Rightarrow> (?c1, fi, None)
        | Some fi \<Rightarrow> (case act os ?c1 fi p of (c, k) \<Rightarrow> (c, fi, k))))"
  obtain c2 f k where 2: "r = (c2, f, k)" by (cases r)
  have "evolves ?c1 c2"
  proof (cases "get_entry_by_wd (the_db ?c1) (ev_wd event) start")
    case (Cons p ps)
    then show ?thesis
      using 2 act[of ?c1 ?c1 _ p] unfolding r_def by (cases "get_file_info os ?c1 event p fi gone") (auto simp: split_beta)
  qed (use 2 r_def in simp)
  then have u: "evolves c (unlock_inotify c2)" by (rule evolves_section[OF assms(1)])
  have "c' = (case k of Some k \<Rightarrow> fst (mtp_push_event os (unlock_inotify c2) code [k]) | None \<Rightarrow> unlock_inotify c2)"
    using assms(3) unfolding notify_entry_def h prod.case Let_def r_def[symmetric] 2 by (simp split: if_splits)
  then show ?thesis using u evolves_push_event[OF u] by (auto split: option.splits)
qed

lemma evolves_gadget_world [evolves]:
  assumes "evolves a c" "length (ep_handles g) = length (ep_handles (usb_ctx c))"
  shows "evolves a (c\<lparr>usb_ctx := g, world := w\<rparr>)"
  using assms by (simp add: evolves_def the_db_def)

lemma evolves_enable [evolves]:
  assumes "length (ep_handles (usb_ctx a)) = 3" "evolves a c"
  shows "evolves a (enable os c m)"
  using enable_shape[of c os m] assms by (auto simp: evolves_def the_db_def with_gadget_def)

lemma evolves_control [evolves]:
  "evolves a c \<Longrightarrow> evolves a (request_cancel os c)" "evolves a c \<Longrightarrow> evolves a (fst (device_status os c))"
  "evolves a c \<Longrightarrow> evolves a (fst (ep0_write os c setup data))" "evolves a c \<Longrightarrow> evolves a (gadgetfs_suspend os c polls)"
  by (simp_all add: request_cancel_def device_status_def ep0_write_def gadgetfs_suspend_def Let_def split: prod.split)

lemma evolves_request:
  assumes "length (ep_handles (usb_ctx c)) = 3"
  shows "evolves c (fst (handle_setup_request os c setup))"
  using assms by (auto simp: handle_setup_request_def Let_def split_beta evolves split: option.split)

lemma evolves_request':
  "handle_setup_request os c setup = (c', acts) \<Longrightarrow> length (ep_handles (usb_ctx c)) = 3 \<Longrightarrow> evolves c c'"
  using evolves_request[of c os "setup"] by simp

lemma moves_ffs_disable:
  assumes "\<not> inotify_locked c"
  shows "moves c (ffs_disable os c)"
proof -
  define d where "d = with_gadget (\<lambda>g. g\<lparr>stop := False\<rparr>) (if thread_not_started (usb_ctx c) = 0 then
           (let c = (if transferring_file_data c \<and> \<not> os_lock_fails os (world c)
                     then c\<lparr>cancel_req := 2, world := os_thread_stop os (world c)\<rparr> else c)
            in with_gadget (\<lambda>g. g\<lparr>thread_not_started := 1\<rparr>) (c\<lparr>world := os_thread_stop os (world c)\<rparr>)) else c)"
  have d: "evolves c d" unfolding d_def Let_def by (simp add: evolves)
  then have "\<not> inotify_locked d" using assms by (simp add: evolves_def)
  then have "dropped d (unlock_inotify ((deinit_fs_db os (lock_inotify d))\<lparr>fs_db := None\<rparr>))"
    using fs_step_shape[OF deinit_fs_db_step[of "lock_inotify d" os]]
    by (auto simp: dropped_def lock_inotify_def unlock_inotify_def)
  then show ?thesis using d unfolding ffs_disable_def Let_def d_def[unfolded Let_def, symmetric] by (auto simp: moves_def)
qed

end
