(* ===== verification/Responder.thy ===== *)
theory Responder
  imports Evolution
begin

text \<open>
  The responder as a whole: what the host, the watched folders, the message queue and the gadget can
  do to the context, in any order, and what holds in every state that is reached: the database is
  consistent, handles are stable, the mutex is free, the table of storages is well formed, the
  operations return.
\<close>

section \<open>Reachable states\<close>

text \<open>One thing that happens, in any of the threads or outside.\<close>

inductive responder_step :: "cstr \<Rightarrow> 'w os \<Rightarrow> 'w mtp_ctx \<Rightarrow> 'w mtp_ctx \<Rightarrow> bool" for stack :: cstr and os :: "'w os" where
  packet: "\<not> stop (usb_ctx c) \<Longrightarrow> io_round os c = Some c' \<Longrightarrow> responder_step stack os c c'"
| folder_event: "h \<in> {IN_CREATE_handler, IN_MODIFY_handler, IN_DELETE_handler} \<Longrightarrow>
    notify_entry os h event c fi start = Some (c', fi', rest) \<Longrightarrow> responder_step stack os c c'"
| message: "responder_step stack os c (msgqueue_received stack os c bytes)"
| functionfs: "ffs_event_step os (c, t) e = ((c', t'), acts) \<Longrightarrow> responder_step stack os c c'"
| gadgetfs: "gadgetfs_event_step os polls (c, t) e' = ((c', t'), acts) \<Longrightarrow> responder_step stack os c c'"
| shutdown: "responder_step stack os c (with_gadget (\<lambda>g. g\<lparr>stop := True\<rparr>) c)"
| outside: "responder_step stack os c (c\<lparr>world := w\<rparr>)"

text \<open>
  Between two sessions, and before the first, there is no gadget and no database: the queue thread still takes
  messages. Those that announce a change would use a gadget that is not there and are left out.
\<close>

definition announcing :: "cstr \<Rightarrow> bool" where
  "announcing message \<longleftrightarrow> strncmp_eq message (bytes_of ''mount:'') \<or> strncmp_eq message (bytes_of ''unmount:'') \<or>
     strncmp_eq message (bytes_of ''lock'') \<or> strncmp_eq message (bytes_of ''unlock'')"

inductive idle_step :: "cstr \<Rightarrow> 'w os \<Rightarrow> 'w mtp_ctx \<Rightarrow> 'w mtp_ctx \<Rightarrow> bool" for stack :: cstr and os :: "'w os" where
  quiet_message: "\<not> announcing (c_string bytes) \<Longrightarrow> idle_step stack os c (msgqueue_received stack os c bytes)"
| quiet_outside: "idle_step stack os c (c\<lparr>world := w\<rparr>)"

text \<open>From the start of the program over its sessions; another session starts from what the last one left.\<close>

inductive reachable :: "cstr \<Rightarrow> 'w os \<Rightarrow> conf_files \<Rightarrow> cstr \<Rightarrow> 'w mtp_ctx \<Rightarrow> bool"
  for stack :: cstr and os :: "'w os" and cf :: conf_files and conffile :: cstr where
  start: "(idle_step stack os)\<^sup>*\<^sup>* (fst (mtp_load_config_file stack os cf (mtp_init_responder w u g fd no_gadget) conffile)) c0 \<Longrightarrow>
    init_usb_mtp_gadget os c0 = Some (c, Some gadget) \<Longrightarrow> reachable stack os cf conffile (mtp_set_usb_handle c gadget n)"
| step: "reachable stack os cf conffile c \<Longrightarrow> responder_step stack os c c' \<Longrightarrow> reachable stack os cf conffile c'"
| again: "reachable stack os cf conffile c \<Longrightarrow>
    (idle_step stack os)\<^sup>*\<^sup>* (drop_db os (deinit_usb_mtp_gadget os c (Some (usb_ctx c)))) c0 \<Longrightarrow>
    init_usb_mtp_gadget os c0 = Some (c', Some gadget) \<Longrightarrow>
    reachable stack os cf conffile (mtp_set_usb_handle c' gadget n)"

inductive_cases responder_stepE: "responder_step stack os c c'"

lemma moves_step:
  assumes "responder_step stack os c c'" "sound c"
  shows "moves c c'"
proof -
  have s: "\<not> inotify_locked c" "length (ep_handles (usb_ctx c)) = 3" using assms(2) by (simp_all add: sound_def)
  show ?thesis
    using assms(1)
  proof (cases rule: responder_stepE[consumes 1, case_names packet folder_event message functionfs gadgetfs shutdown outside])
    case packet
    then show ?thesis using moves_io_round[OF s(1)] by blast
  next
    case folder_event
    then show ?thesis using evolves_notify[OF s(1)] by blast
  next
    case message
    then show ?thesis using evolves_message[OF s(1) evolves_refl] by blast
  next
    case (functionfs t e t' acts)
    then show ?thesis
      using s moves_ffs_disable[OF s(1), of os] evolves_request'[of os c]
      by (cases e) (auto simp: ffs_event_step_def evolves split: prod.splits)
  next
    case (gadgetfs polls t e t' acts)
    then show ?thesis
      using s evolves_request'[of os c]
      by (cases e) (auto simp: gadgetfs_event_step_def Let_def evolves split: prod.splits if_splits)
  next
    case shutdown
    then show ?thesis by (auto simp: evolves)
  next
    case outside
    then show ?thesis by auto
  qed
qed

lemma sound_step: "responder_step stack os c c' \<Longrightarrow> sound c \<Longrightarrow> sound c'"
  using moves_step sound_moves by blast

section \<open>The start\<close>

lemma evolves_execute_line [evolves]: "evolves a c \<Longrightarrow> evolves a (fst (execute_line stack os c line))"
proof -
  assume e: "evolves a c"
  have f: "evolves a (c\<lparr>usb_rd_buffer_max_size := n\<rparr>)" "evolves a (c\<lparr>usb_wr_buffer_max_size := n\<rparr>)"
    "evolves a (c\<lparr>read_file_buffer_size := n\<rparr>)" "evolves a (c\<lparr>no_inotify := n\<rparr>)" "evolves a (c\<lparr>sync_when_close := n\<rparr>)"
    "evolves a (c\<lparr>default_uid := n\<rparr>)" "evolves a (c\<lparr>default_gid := n\<rparr>)" "evolves a (with_cfg g c)" for n g
    using e by (simp_all add: evolves_def the_db_def with_cfg_def)
  have "evolves a (set_hex c cmd v)" "evolves a (set_oct c cmd v)" "evolves a (set_dec c cmd v)" for cmd v
    by (cases cmd; simp add: set_hex_def set_oct_def set_dec_def f e)+
  moreover have "evolves a (set_str c cmd v)" for cmd v by (cases cmd; simp add: set_str_def f e)
  ultimately have "evolves a (run_kw stack os k c line cmd)" for k cmd
    using e by (cases k) (auto simp: run_kw_def evolves split: option.split)
  then show ?thesis using e by (auto simp: execute_line_def exec_cmd_def Let_def split: option.split)
qed

lemma evolves_foldl: "(\<And>a c x. evolves a c \<Longrightarrow> evolves a (f c x)) \<Longrightarrow> evolves a c \<Longrightarrow> evolves a (foldl f c xs)"
  by (induction xs arbitrary: c) simp_all

lemma evolves_config: "evolves c (fst (mtp_load_config_file stack os cf c conffile))"
proof -
  have one: "evolves a d \<Longrightarrow> evolves a (load_config_file stack os cf d f)" for a d :: "'a mtp_ctx" and f
    by (auto simp: load_config_file_def evolves intro!: evolves_foldl split: option.split)
  have dir: "evolves a d \<Longrightarrow> evolves a (load_config_dir stack os cf d f)" for a d :: "'a mtp_ctx" and f
    by (auto simp: load_config_dir_def Let_def intro!: evolves_foldl one split: option.split)
  have "evolves c (c\<lparr>usb_cfg := k, default_gid := -1, default_uid := -1, no_inotify := 0, sync_when_close := 0\<rparr>)" for k
    by (simp add: evolves_def the_db_def)
  then show ?thesis using dir one by (simp add: mtp_load_config_file_def Let_def)
qed

lemma sound_fresh:
  assumes "length (pool (the_db c)) \<le> 0x10000000 \<Longrightarrow> db_inv (the_db c)" "\<not> inotify_locked c" "storage_inv (storages c)"
    and "init_usb_mtp_gadget os c = Some (d, Some g)"
  shows "sound (mtp_set_usb_handle d g n)"
  using assms(1-3) init_gadget_started[OF assms(4)]
  by (simp add: sound_def mtp_set_usb_handle_def the_db_def)

lemma idle_evolves: "(idle_step stack os)\<^sup>*\<^sup>* c c' \<Longrightarrow> \<not> inotify_locked c \<Longrightarrow> evolves c c'"
proof (induction rule: rtranclp_induct)
  case (step d e)
  then have d: "evolves c d" "\<not> inotify_locked d" by (simp_all add: evolves_def)
  from step(2) have "evolves d e"
    by cases (use evolves_message[OF d(2) evolves_refl] in auto)
  with d(1) show ?case by (rule evolves_trans)
qed simp

lemma reachable_sound: "reachable stack os cf conffile c \<Longrightarrow> sound c"
proof (induction rule: reachable.induct)
  case (start w u g fd no_gadget c0 c gadget n)
  let ?r = "mtp_init_responder w u g fd no_gadget"
  have "evolves ?r (fst (mtp_load_config_file stack os cf ?r conffile))" by (rule evolves_config)
  moreover from this have "\<not> inotify_locked (fst (mtp_load_config_file stack os cf ?r conffile))"
    by (simp add: evolves_def mtp_init_responder_def)
  ultimately have "evolves ?r c0" using idle_evolves[OF start(1)] evolves_trans by blast
  then have "\<not> inotify_locked c0" "storage_inv (storages c0)" "length (pool (the_db c0)) \<le> 0x10000000 \<Longrightarrow> db_inv (the_db c0)"
    by (simp_all add: evolves_def mtp_init_responder_def storage_inv_init db_ext_def the_db_def db_inv_init)
  then show ?case using start(2) by (intro sound_fresh)
next
  case (step c c')
  then show ?case using sound_step by blast
next
  case (again c c0 c' gadget n)
  let ?d = "deinit_usb_mtp_gadget os c (Some (usb_ctx c))"
  have d: "inotify_locked ?d = inotify_locked c" "storages ?d = storages c" 
    by (simp_all add: deinit_usb_mtp_gadget_def Let_def)
  have e: "inotify_locked (drop_db os ?d) = inotify_locked c" "storages (drop_db os ?d) = storages c" "fs_db (drop_db os ?d) = None"
    using fs_step_shape[OF deinit_fs_db_step[of ?d os]] d by (auto simp: drop_db_def)
  have l: "\<not> inotify_locked (drop_db os ?d)" "storage_inv (storages (drop_db os ?d))" using again e by (simp_all add: sound_def)
  have "db_inv (the_db (drop_db os ?d))" using e(3) by (simp add: the_db_def db_inv_init)
  then have "\<not> inotify_locked c0" "storage_inv (storages c0)" "length (pool (the_db c0)) \<le> 0x10000000 \<Longrightarrow> db_inv (the_db c0)"
    using idle_evolves[OF again(2) l(1)] l by (simp_all add: evolves_def db_ext_def)
  then show ?case using again(3) by (intro sound_fresh)
qed

section \<open>What the program runs through\<close>

lemma reachable_io_rounds:
  "io_rounds os n c = Some c' \<Longrightarrow> reachable stack os cf conffile c \<Longrightarrow> reachable stack os cf conffile c'"
proof (induction n arbitrary: c)
  case (Suc n)
  then obtain d where d: "\<not> stop (usb_ctx c)" "io_round os c = Some d" "io_rounds os n d = Some c'"
    by (auto split: if_splits simp: Option.bind_eq_Some_conv)
  show ?case by (rule Suc.IH[OF d(3) reachable.step[OF Suc.prems(2) responder_step.packet[OF d(1,2)]]])
qed simp

text \<open>The other threads, as the turns of a session see them, do nothing but steps of the responder.\<close>

definition threads_step :: "cstr \<Rightarrow> 'w os \<Rightarrow> ('w, 'e) ep0_round list \<Rightarrow> bool" where
  "threads_step stack os rounds \<longleftrightarrow> (\<forall>f. Others f \<in> set rounds \<longrightarrow> (\<forall>c. (responder_step stack os)\<^sup>*\<^sup>* c (f c)))"

lemma reachable_steps:
  "(responder_step stack os)\<^sup>*\<^sup>* c c' \<Longrightarrow> reachable stack os cf conffile c \<Longrightarrow> reachable stack os cf conffile c'"
  by (induction rule: rtranclp_induct) (auto intro: reachable.step)

lemma ep0_loop_invariant:
  assumes "\<And>c t e c' t' acts. step (c, t) e = ((c', t'), acts) \<Longrightarrow> R c \<Longrightarrow> R c'"
    and "\<And>c. R c \<Longrightarrow> R (with_gadget (\<lambda>g. g\<lparr>stop := True\<rparr>) c)"
  shows "(\<And>f c. Others f \<in> set rounds \<Longrightarrow> R c \<Longrightarrow> R (f c)) \<Longrightarrow> R c \<Longrightarrow> R (fst (ep0_loop step (c, t) rounds))"
proof (induction rounds arbitrary: c t)
  case (Cons r rs)
  have events: "R (fst (foldl (\<lambda>st e. fst (step st e)) (d, k) es))" if "R d" for d k es
    using that
  proof (induction es arbitrary: d k)
    case (Cons e es)
    obtain d' k' acts where "step (d, k) e = ((d', k'), acts)" by (metis surj_pair)
    then show ?case using Cons assms(1) by simp
  qed simp
  have rest: "R (fst (ep0_loop step (d, k) rs))" if "R d" for d k
    using Cons.IH[OF _ that] Cons.prems(1) by simp
  have ev: "R (fst (ep0_loop step st rs))" if "R (fst st)" for st using rest that by (cases st) simp
  show ?case
    using Cons.prems assms(2) rest ev[OF events] unfolding ep0_loop.simps[of step c t "r # rs"]
    by (cases r) (auto split: bool.split simp del: ep0_loop.simps)
qed simp

lemma reachable_handler:
  assumes "reachable stack os cf conffile c"
  shows "threads_step stack os rs \<Longrightarrow> reachable stack os cf conffile (fst (handle_ffs_ep0 os c rs))"
    "threads_step stack os rs' \<Longrightarrow> reachable stack os cf conffile (fst (handle_ep0 os polls c rs'))"
  unfolding handle_ffs_ep0_def handle_ep0_def
  by (rule ep0_loop_invariant; use assms in \<open>auto simp: threads_step_def intro: reachable_steps
      reachable.step[OF _ responder_step.functionfs] reachable.step[OF _ responder_step.gadgetfs]
      reachable.step[OF _ responder_step.shutdown]\<close>)+

text \<open>A context from which a session leads to reachable states.\<close>

definition starts :: "cstr \<Rightarrow> 'w os \<Rightarrow> conf_files \<Rightarrow> cstr \<Rightarrow> 'w mtp_ctx \<Rightarrow> bool" where
  "starts stack os cf conffile c \<longleftrightarrow> (\<forall>c0 d gadget n. (idle_step stack os)\<^sup>*\<^sup>* c c0 \<longrightarrow> init_usb_mtp_gadget os c0 = Some (d, Some gadget) \<longrightarrow>
     reachable stack os cf conffile (mtp_set_usb_handle d gadget n))"

lemma session_reachable:
  assumes "starts stack os cf conffile c0" "threads_step stack os (ffs_rounds s)" "threads_step stack os (gadgetfs_rounds s)"
    "(idle_step stack os)\<^sup>*\<^sup>* c0 (idle s c0)"
  shows "main_session os s c0 = Goes_on d \<Longrightarrow> reachable stack os cf conffile d"
    "main_session os s c0 = Over d True \<Longrightarrow> starts stack os cf conffile d"
proof -
  have "main_session os s c0 = Goes_on d \<and> reachable stack os cf conffile d \<or>
      (main_session os s c0 = Over d True \<and> starts stack os cf conffile d)"
    if "main_session os s c0 = Goes_on d \<or> main_session os s c0 = Over d True" for d
  proof (cases "init_usb_mtp_gadget os (idle s c0)" rule: option_pair_cases)
    case (gadget c g)
    let ?c1 = "mtp_set_usb_handle c g (ucast (usb_max_packet_size (usb_cfg c)))"
    obtain c2 r where h: "(if usb_functionfs_mode (usb_cfg ?c1) \<noteq> 0 then handle_ffs_ep0 os ?c1 (ffs_rounds s)
        else handle_ep0 os (wait_polls s) ?c1 (gadgetfs_rounds s)) = (c2, r)" by fastforce
    have "reachable stack os cf conffile ?c1" using assms(1,4) gadget by (simp add: starts_def)
    from reachable_handler(1)[OF this assms(2)] reachable_handler(2)[OF this assms(3), of "wait_polls s"]
    have r: "reachable stack os cf conffile c2" using h by (auto split: if_splits)
    have m: "main_session os s c0 = (case r of None \<Rightarrow> Goes_on c2
        | Some _ \<Rightarrow> Over (drop_db os (deinit_usb_mtp_gadget os c2 (Some (usb_ctx c2)))) True)"
      by (simp only: main_session_def gadget option.case prod.case Let_def h)
    show ?thesis using that r reachable.again[OF r] unfolding m by (auto simp: starts_def split: option.splits)
  qed (use that in \<open>simp_all add: main_session_def\<close>)
  then show "main_session os s c0 = Goes_on d \<Longrightarrow> reachable stack os cf conffile d"
    "main_session os s c0 = Over d True \<Longrightarrow> starts stack os cf conffile d" by force+
qed

lemma main_loop_reachable:
  assumes "\<forall>s\<in>set ss. threads_step stack os (ffs_rounds s) \<and> threads_step stack os (gadgetfs_rounds s) \<and>
      (\<forall>c. (idle_step stack os)\<^sup>*\<^sup>* c (idle s c))"
    and "starts stack os cf conffile c" "main_loop stack os queue lc ss c = Running d"
  shows "reachable stack os cf conffile d \<or> starts stack os cf conffile d"
  using assms
proof (induction ss arbitrary: c)
  case (Cons s ss)
  note r = session_reachable[OF Cons.prems(2), of s]
  show ?case
  proof (cases "main_session os s c")
    case (Over e started)
    then show ?thesis
      using Cons.prems r(2)[of e] Cons.IH[of e] by (auto split: if_splits option.splits)
  qed (use Cons.prems r(1) in auto)
qed simp

text \<open>C2. The program runs through reachable states only: as long as the other threads make steps of the
  responder, and before and between the sessions only those steps of the queue that need no gadget, the main thread,
  over all its sessions and from any configuration, is in a reachable state, or between two sessions in one
  from which, whatever the queue then does, the next session starts in a reachable state.\<close>

theorem main_thread_reachable:
  assumes "\<forall>s\<in>set ss. threads_step stack os (ffs_rounds s) \<and> threads_step stack os (gadgetfs_rounds s) \<and>
      (\<forall>c. (idle_step stack os)\<^sup>*\<^sup>* c (idle s c))"
    and "main_thread stack os cf queue (Some (mtp_init_responder w u g fd no_gadget)) ss conffile = Running c"
  shows "reachable stack os cf conffile c \<or>
    (\<forall>c0 d gadget n. (idle_step stack os)\<^sup>*\<^sup>* c c0 \<longrightarrow> init_usb_mtp_gadget os c0 = Some (d, Some gadget) \<longrightarrow>
       reachable stack os cf conffile (mtp_set_usb_handle d gadget n))"
proof -
  let ?c = "fst (mtp_load_config_file stack os cf (mtp_init_responder w u g fd no_gadget) conffile)"
  have "starts stack os cf conffile ?c" using reachable.start by (auto simp: starts_def)
  from main_loop_reachable[OF assms(1) this] show ?thesis
    using assms(2) by (simp add: main_thread_def Let_def starts_def)
qed

section \<open>What holds in every reachable state\<close>


text \<open>C24. The types of the context: in every reachable state the table has its sixteen slots, a slot in use has
  the identifier of its place and a name no other slot has, and the gadget has three end points.\<close>

theorem reachable_types:
  assumes "reachable stack os cf conffile c"
  shows "length (storages c) = 16 \<and> length (ep_handles (usb_ctx c)) = 3 \<and>
    (\<forall>i < 16. root_path (storages c ! i) \<noteq> None \<longrightarrow>
       storage_id (storages c ! i) = 0xFFFF0000 + (word_of_nat i + 1) \<and> description (storages c ! i) \<noteq> None) \<and>
    (\<forall>i < 16. \<forall>j < 16. root_path (storages c ! i) \<noteq> None \<longrightarrow> root_path (storages c ! j) \<noteq> None \<longrightarrow>
       description (storages c ! i) = description (storages c ! j) \<longrightarrow> i = j)"
  using reachable_sound[OF assms] by (simp add: sound_def storage_inv_def in_use_def slot_id_def)

text \<open>C3. In every reachable state with no more than 2 to the 28 entries a handle other than 0 is found exactly
  when a live entry on a present storage has it, and then that one entry is the result.\<close>

theorem reachable_lookup:
  assumes "reachable stack os cf conffile c" "length (pool (the_db c)) \<le> 0x10000000" "h \<noteq> 0"
  shows "get_entry_by_handle (storages c) (the_db c) h = Some p \<longleftrightarrow>
    p < length (pool (the_db c)) \<and> \<not> deleted (pool (the_db c) ! p) \<and> e_handle (pool (the_db c) ! p) = h \<and>
    (\<exists>i < 16. root_path (storages c ! i) \<noteq> None \<and> storage_id (storages c ! i) = e_storage (pool (the_db c) ! p))"
proof -
  have s: "db_inv (the_db c)" "storage_inv (storages c)" using reachable_sound[OF assms(1)] assms(2) by (simp_all add: sound_def)
  have "mtp_get_storage_root (storages c) sid \<noteq> None \<longleftrightarrow>
      (\<exists>i < 16. root_path (storages c ! i) \<noteq> None \<and> storage_id (storages c ! i) = sid)" for sid
    using root_known_iff[OF s(2), of sid] in_use_id[OF s(2)] storage_inv_length[OF s(2)] by (auto simp: in_use_def)
  then show ?thesis
    using get_entry_by_handle_eq[OF s(1) assms(3), of "storages c" p] by (auto simp: live_def ptrs_def)
qed

section \<open>Handles within a session\<close>

text \<open>What happens while the session lasts.\<close>

definition session_step :: "cstr \<Rightarrow> 'w os \<Rightarrow> 'w mtp_ctx \<Rightarrow> 'w mtp_ctx \<Rightarrow> bool" where
  "session_step stack os c c' \<longleftrightarrow> responder_step stack os c c' \<and> fs_db c' \<noteq> None"

lemma session_step_ext:
  assumes "session_step stack os c c'" "sound c"
  shows "db_ext (the_db c) (the_db c') \<and> sound c'"
  using moves_step[of stack os c c'] sound_step[of stack os c c'] assms
  by (auto simp: session_step_def moves_def evolves_def dropped_def)

lemma session_ext:
  "(session_step stack os)\<^sup>*\<^sup>* c c' \<Longrightarrow> sound c \<Longrightarrow> db_ext (the_db c) (the_db c') \<and> sound c'"
proof (induction rule: rtranclp_induct)
  case (step b d)
  then show ?case using session_step_ext[of stack os b d] db_ext_trans by blast
qed simp

lemma session_lookup:
  assumes "db_ext (the_db c) (the_db c')" "sound c'" "length (pool (the_db c')) \<le> 0x10000000"
    and "p < length (pool (the_db c))" "e_handle (entry_at (the_db c) p) \<noteq> 0"
    and "get_entry_by_handle (storages c') (the_db c') (e_handle (entry_at (the_db c) p)) = Some q"
  shows "q = p \<and> \<not> deleted (entry_at (the_db c) p)"
proof -
  let ?h = "e_handle (entry_at (the_db c) p)"
  have inv: "db_inv (the_db c')" using assms(2,3) by (simp add: sound_def)
  have p: "p < length (pool (the_db c'))" "same_object (entry_at (the_db c) p) (entry_at (the_db c') p)"
    using assms(1,4) by (auto simp: db_ext_def)
  have q: "live (the_db c') q" "e_handle (entry_at (the_db c') q) = ?h"
    using assms(6) unfolding get_entry_by_handle_eq[OF inv assms(5)] by simp_all
  then have "q = p"
    using inv p assms(5) by (auto simp: db_inv_def handles_ok_def live_def ptrs_def same_object_def)
  then show ?thesis using q(1) p(2) by (auto simp: live_def same_object_def)
qed

text \<open>C4. Handles are stable. As long as the session lasts, whatever the host, the watched folders, the message
  queue and the gadget do, the entry a handle was given to keeps its handle, storage and parent, a
  deleted one stays deleted, and a lookup of the handle finds this entry or nothing: a handle is never
  given to another object, and the handle of a deleted object never finds anything again.\<close>

theorem handles_stable:
  assumes "reachable stack os cf conffile c" "(session_step stack os)\<^sup>*\<^sup>* c c'" "length (pool (the_db c')) \<le> 0x10000000"
    and "p < length (pool (the_db c))" "e_handle (pool (the_db c) ! p) = h" "h \<noteq> 0"
  shows "same_object (pool (the_db c) ! p) (pool (the_db c') ! p) \<and>
    (\<forall>q. get_entry_by_handle (storages c') (the_db c') h = Some q \<longrightarrow> q = p \<and> \<not> deleted (pool (the_db c) ! p))"
proof -
  have e: "db_ext (the_db c) (the_db c')" "sound c'"
    using session_ext[OF assms(2) reachable_sound[OF assms(1)]] by blast+
  moreover have "same_object (pool (the_db c) ! p) (pool (the_db c') ! p)"
    using e(1) assms(4) by (simp add: db_ext_def)
  ultimately show ?thesis using session_lookup[OF e assms(3,4)] assms(5,6) by blast
qed

section \<open>Handlers that return\<close>

definition returns :: "'w op_result \<Rightarrow> bool" where
  "returns r \<longleftrightarrow> r \<noteq> None"

named_theorems returns_rules "how a handler that returns is built"

lemma returns_cases [returns_rules]:
  "returns (Some x)" "(b \<Longrightarrow> returns r1) \<Longrightarrow> (\<not> b \<Longrightarrow> returns r2) \<Longrightarrow> returns (if b then r1 else r2)"
  "(f = None \<Longrightarrow> returns r3) \<Longrightarrow> (\<And>y. f = Some y \<Longrightarrow> returns (g y)) \<Longrightarrow>
     returns (case f of None \<Rightarrow> r3 | Some y \<Rightarrow> g y)"
  "(\<And>x y. p = (x, y) \<Longrightarrow> returns (h x y)) \<Longrightarrow> returns (case p of (x, y) \<Rightarrow> h x y)"
  "returns r \<Longrightarrow> returns (in_session c r)" "returns (body (lock_inotify c)) \<Longrightarrow> returns (locked os c body)"
  "(\<And>q. returns (act q)) \<Longrightarrow> returns (reply_entry c k act)" "returns (reply_data os c packet builder)"
  "returns (reply_nonempty os c packet builder code)"
  by (auto simp: returns_def in_session_def locked_def reply_entry_def reply_data_def reply_nonempty_def split: option.split prod.split)

lemma returns_alloc_roots [returns_rules]: "returns (alloc_roots os c ss)"
  by (induction ss arbitrary: c) (auto simp: returns_def)

lemma returns_DeleteObject:
  assumes "db_inv (the_db c)"
  shows "returns (mtp_op_DeleteObject os c packet)"
proof -
  have "delete_tree os d h \<noteq> None" if "set_storage_giduid os (lock_inotify c) sid = (d, r)" for d sid r h
  proof -
    have "the_db (fst (set_storage_giduid os (lock_inotify c) sid)) = the_db c" by (simp add: lock_inotify_def)
    then have "db_inv (the_db d)" using assms by (simp add: that)
    then show ?thesis using delete_tree_facts[of d os h] by auto
  qed
  then show ?thesis
    unfolding mtp_op_DeleteObject_def Let_def by ((intro returns_rules)+; blast)
qed

lemma locked_transfer:
  assumes "12 < usb_wr_buffer_max_size c" "usb_wr_buffer_max_size c \<le> read_file_buffer_size c"
    "0 \<le> n \<or> e_size (entry_at (the_db (lock_inotify c)) p) \<le> offset"
  shows "send_file_data os (lock_inotify c\<lparr>wrbuffer := b\<rparr>) p offset n \<noteq> None"
  using assms by (intro send_file_data_returns) (simp_all add: lock_inotify_def)

lemma returns_GetObject:
  assumes "12 < usb_wr_buffer_max_size c" "usb_wr_buffer_max_size c \<le> read_file_buffer_size c"
  shows "returns (mtp_op_GetObject os c packet)"
proof -
  have "send_file_data os (lock_inotify c\<lparr>wrbuffer := b\<rparr>) p 0 (e_size (entry_at (the_db (lock_inotify c)) p)) \<noteq> None" for b p
    using assms by (rule locked_transfer) linarith
  then show ?thesis
    unfolding mtp_op_GetObject_def Let_def by ((intro returns_rules)+; blast)
qed

lemma returns_GetPartialObject:
  assumes "12 < usb_wr_buffer_max_size c" "usb_wr_buffer_max_size c \<le> read_file_buffer_size c" "0 \<le> snd (partial_range packet)"
  shows "returns (mtp_op_GetPartialObject os c packet)"
proof -
  obtain offset maxsize where r: "partial_range packet = (offset, maxsize)" by fastforce
  have "send_file_data os (lock_inotify c\<lparr>wrbuffer := b\<rparr>) p offset maxsize \<noteq> None" for b p
    using assms by (intro locked_transfer) (simp_all add: r)
  then show ?thesis
    unfolding mtp_op_GetPartialObject_def Let_def r prod.case by ((intro returns_rules)+; blast)
qed


section \<open>A reachable state\<close>

text \<open>Without a configuration file, on the sample system.\<close>

definition no_files :: conf_files where
  "no_files = \<lparr>file_bytes = (\<lambda>_. None), dir_names = (\<lambda>_. None)\<rparr>"

definition sample_start :: "nat mtp_ctx" where
  "sample_start = mtp_init_responder 0 0 0 (-1) sample_gadget"

definition bound_session :: "nat session" where
  "bound_session = \<lparr>idle = (\<lambda>c. c), gadgetfs_rounds = [], ffs_rounds = [Events [FUNCTIONFS_BIND]], wait_polls = (\<lambda>_. 0), shutdown_after = False\<rparr>"

lemma sample_config:
  "fst (mtp_load_config_file [] plain_os no_files sample_start []) = sample_start\<lparr>usb_cfg := default_cfg\<rparr>"
  by (simp add: mtp_load_config_file_def Let_def load_config_dir_def load_config_file_def no_files_def sample_start_def
      mtp_init_responder_def)

lemma sample_session:
  "\<exists>c d g. init_usb_mtp_gadget plain_os (sample_start\<lparr>usb_cfg := default_cfg\<rparr>) = Some (d, Some g) \<and>
     main_session plain_os bound_session (sample_start\<lparr>usb_cfg := default_cfg\<rparr>) = Goes_on c"
  by (simp add: main_session_def bound_session_def init_usb_mtp_gadget_def ffs_setup_def Let_def sample_start_def
      ffs_strings_bytes_def mtp_set_usb_handle_def handle_ffs_ep0_def new_gadget_def default_cfg_def mtp_init_responder_def
      CONFIG_MAX_TX_USB_BUFFER_SIZE_def CONFIG_MAX_RX_USB_BUFFER_SIZE_def bytes_of_def ffs_event_step_def enable_def)

lemma sample_reachable: "\<exists>c. reachable [] plain_os no_files [] c \<and> fs_db c = None"
proof -
  obtain d g where i: "init_usb_mtp_gadget plain_os (sample_start\<lparr>usb_cfg := default_cfg\<rparr>) = Some (d, Some g)"
    using sample_session by blast
  have "reachable [] plain_os no_files [] (mtp_set_usb_handle d g 0)"
    by (rule reachable.start[where w = 0 and u = 0 and g = 0 and fd = "-1" and no_gadget = sample_gadget, OF rtranclp.rtrancl_refl])
      (simp only: sample_start_def[symmetric] sample_config i)
  moreover have "fs_db (mtp_set_usb_handle d g 0) = None"
    using init_gadget_started(6)[OF i] by (simp add: mtp_set_usb_handle_def sample_start_def mtp_init_responder_def)
  ultimately show ?thesis by blast
qed

theorem main_thread_reachable_witness:
  "\<exists>c. main_thread [] plain_os no_files True (Some (mtp_init_responder 0 0 0 (-1) sample_gadget)) [bound_session] [] = Running c \<and>
    (reachable [] plain_os no_files [] c \<or>
     (\<forall>c0 d gadget n. (idle_step [] plain_os)\<^sup>*\<^sup>* c c0 \<longrightarrow> init_usb_mtp_gadget plain_os c0 = Some (d, Some gadget) \<longrightarrow>
       reachable [] plain_os no_files [] (mtp_set_usb_handle d gadget n)))"
proof -
  obtain c where "main_session plain_os bound_session (sample_start\<lparr>usb_cfg := default_cfg\<rparr>) = Goes_on c"
    using sample_session by blast
  then have m: "main_thread [] plain_os no_files True (Some (mtp_init_responder 0 0 0 (-1) sample_gadget)) [bound_session] [] = Running c"
    by (simp add: main_thread_def sample_start_def[symmetric] sample_config)
  have "\<forall>s\<in>set [bound_session]. threads_step [] plain_os (ffs_rounds s) \<and> threads_step [] plain_os (gadgetfs_rounds s) \<and>
      (\<forall>c. (idle_step [] plain_os)\<^sup>*\<^sup>* c (idle s c))"
    by (simp add: threads_step_def bound_session_def)
  from main_thread_reachable[OF this m] m show ?thesis by blast
qed

section \<open>A reachable state with a file\<close>

definition open_session_packet :: "byte list" where
  "open_session_packet = [16, 0, 0, 0, 1, 0, 2, 0x10, 0, 0, 0, 0, 1, 0, 0, 0]"

text \<open>The host opens a session with every packet, and every file there is has three bytes.\<close>

abbreviation host_os :: "nat os" where
  "host_os \<equiv> plain_os\<lparr>os_ep_read := \<lambda>w n. (w, Some open_session_packet),
     os_stat := \<lambda>w path. Some \<lparr>st_isdir = False, st_size = 3, st_mtime = 0\<rparr>\<rparr>"


lemma host_write_whole: "write_whole host_os w fd bs = (w, True)"
  by (simp add: plain_os_def write_whole_def)

lemma host_enable:
  assumes "ep_handles (usb_ctx c) = [-1, -1, -1]" "thread_not_started (usb_ctx c) = 1"
  shows "ep_handles (usb_ctx (enable host_os c True)) = [5, 5, 5]" "\<not> stop (usb_ctx (enable host_os c True))"
    "fs_db (enable host_os c True) = fs_db c" "storages (enable host_os c True) = storages c"
    "usb_rd_buffer_max_size (enable host_os c True) = usb_rd_buffer_max_size c"
  using assms by (simp_all add: enable_def init_eps_def init_ep_def with_gadget_def Let_def split: prod.split)

lemma host_start:
  "\<exists>c. reachable [] host_os no_files [] c \<and> fs_db c = None \<and> storages c = init_storages \<and>
     usb_rd_buffer_max_size c \<noteq> 0 \<and> ep_handles (usb_ctx c) = [5, 5, 5] \<and> \<not> stop (usb_ctx c)"
proof -
  have cfg: "fst (mtp_load_config_file [] host_os no_files sample_start []) = sample_start\<lparr>usb_cfg := default_cfg\<rparr>"
    by (simp add: mtp_load_config_file_def Let_def load_config_dir_def load_config_file_def no_files_def sample_start_def
        mtp_init_responder_def)
  have "\<exists>d g. init_usb_mtp_gadget host_os (sample_start\<lparr>usb_cfg := default_cfg\<rparr>) = Some (d, Some g) \<and>
      usb_rd_buffer_max_size d \<noteq> 0"
    by (simp add: init_usb_mtp_gadget_def ffs_setup_def Let_def sample_start_def host_write_whole
      ffs_strings_bytes_def new_gadget_def default_cfg_def mtp_init_responder_def
      CONFIG_MAX_TX_USB_BUFFER_SIZE_def CONFIG_MAX_RX_USB_BUFFER_SIZE_def bytes_of_def)
  then obtain d g where i: "init_usb_mtp_gadget host_os (sample_start\<lparr>usb_cfg := default_cfg\<rparr>) = Some (d, Some g)"
    "usb_rd_buffer_max_size d \<noteq> 0" by blast
  let ?c = "mtp_set_usb_handle d g 0"
  have r: "reachable [] host_os no_files [] ?c"
    by (rule reachable.start[where w = 0 and u = 0 and g = 0 and fd = "-1" and no_gadget = sample_gadget, OF rtranclp.rtrancl_refl])
      (simp only: sample_start_def[symmetric] cfg i(1))
  have f: "ep_handles (usb_ctx ?c) = [-1, -1, -1]" "thread_not_started (usb_ctx ?c) = 1" "fs_db ?c = None"
    "storages ?c = init_storages" "usb_rd_buffer_max_size ?c \<noteq> 0"
    using init_gadget_started[OF i(1)] i(2) by (simp_all add: mtp_set_usb_handle_def sample_start_def mtp_init_responder_def)
  have "responder_step [] host_os ?c (enable host_os ?c True)"
    by (rule responder_step.functionfs[where e = FUNCTIONFS_ENABLE and t = 0]) (simp add: ffs_event_step_def)
  from reachable.step[OF r this] host_enable[OF f(1,2)] f show ?thesis by (intro exI) auto
qed

lemma host_storage:
  "\<exists>c. reachable [] host_os no_files [] c \<and> fs_db c = None \<and> storages c = sample_storages \<and>
     usb_rd_buffer_max_size c \<noteq> 0 \<and> ep_handles (usb_ctx c) = [5, 5, 5] \<and> \<not> stop (usb_ctx c)"
proof -
  obtain c where c: "reachable [] host_os no_files [] c" "fs_db c = None" "storages c = init_storages"
     "usb_rd_buffer_max_size c \<noteq> 0" "ep_handles (usb_ctx c) = [5, 5, 5]" "\<not> stop (usb_ctx c)"
    using host_start by blast
  let ?m = "bytes_of ''addstorage:/r s rw''"
  have cmds: "strncmp_eq ?m (bytes_of ''unlock'') = False" "strncmp_eq ?m (bytes_of ''lock'') = False"
    "strncmp_eq ?m (bytes_of ''unmount:'') = False" "strncmp_eq ?m (bytes_of ''mount:'') = False"
    "strncmp_eq ?m (bytes_of ''rmstorage:'') = False" "strncmp_eq ?m (bytes_of ''addstorage:'') = True"
    by code_simp+
  have line: "drop (length ''addstorage:'') ?m = bytes_of ''/r s rw''" "c_string ?m = ?m" "length ?m \<le> MAX_MSG_SIZE"
    by code_simp+
  have params: "get_param (bytes_of ''/r s rw'') (0 + 1) = Some [0x73]" "get_param (bytes_of ''/r s rw'') 0 = Some [0x2F, 0x72]"
    "get_param (bytes_of ''/r s rw'') (0 + 2) = Some [0x72, 0x77]" "storage_ids_of [] [0x72, 0x77] = (-1, -1)"
    "storage_flags_of [0x72, 0x77] = 0"
    by code_simp+
  have add: "fst (mtp_add_storage Some init_storages [0x2F, 0x72] [0x73] (-1) (-1) 0) = sample_storages"
    by code_simp
  have "msgqueue_received [] host_os c ?m = c\<lparr>storages := sample_storages\<rparr>"
    using line(3) unfolding msgqueue_received_def run_message_def on_command_def line(2) cmds if_True if_False line(1)
      mtp_add_storage_from_line_def params option.case prod.case add_storage_def
    by (simp add: c(3) add)
  then have "responder_step [] host_os c (c\<lparr>storages := sample_storages\<rparr>)" using responder_step.message by metis
  from reachable.step[OF c(1) this] c(2,4-6) show ?thesis by (intro exI) auto
qed


definition root_db :: fs_handles_db where
  "root_db = fst (alloc_root_entry init_fs_db 0xFFFF0001)"

lemma host_session:
  "\<exists>c. reachable [] host_os no_files [] c \<and> fs_db c = Some root_db \<and> storages c = sample_storages"
proof -
  obtain c where c: "reachable [] host_os no_files [] c" "fs_db c = None" "storages c = sample_storages"
     "usb_rd_buffer_max_size c \<noteq> 0" "ep_handles (usb_ctx c) = [5, 5, 5]" "\<not> stop (usb_ctx c)"
    using host_storage by blast
  let ?p = "open_session_packet @ drop 16 (rdbuffer c)"
  have len: "length open_session_packet = 16" "open_session_packet \<noteq> []" by (simp_all add: open_session_packet_def)
  have hdr: "hdr_code ?p = MTP_OPERATION_OPEN_SESSION" "param ?p 0 = 1"
  proof -
    have n: "?p ! i = open_session_packet ! i" if "i < 16" for i using that len by (simp add: nth_append)
    have "hdr_code ?p = ucast (join16 (open_session_packet ! 6) (open_session_packet ! 7))"
      "param ?p 0 = join32 (open_session_packet ! 12) (open_session_packet ! 13) (open_session_packet ! 14) (open_session_packet ! 15)"
      unfolding hdr_code_def param_def by (simp_all add: peek_2 peek_4 n)
    moreover have "ucast (join16 (open_session_packet ! 6) (open_session_packet ! 7)) = (MTP_OPERATION_OPEN_SESSION :: u16)"
      "join32 (open_session_packet ! 12) (open_session_packet ! 13) (open_session_packet ! 14) (open_session_packet ! 15) = (1 :: u32)"
      by code_simp+
    ultimately show "hdr_code ?p = MTP_OPERATION_OPEN_SESSION" "param ?p 0 = 1" by simp_all
  qed
  let ?c1 = "(after_transfer host_os (world c) c)\<lparr>rdbuffer := ?p\<rparr>"
  have "read_usb host_os c (usb_rd_buffer_max_size c) = (after_transfer host_os (world c) c, Some open_session_packet)"
    using c by (simp add: read_usb_def)
  moreover have "dispatch host_os ?c1 ?p n = alloc_roots host_os (?c1\<lparr>session_id := 1, fs_db := Some init_fs_db\<rparr>) sample_storages" for n
    using c by (simp add: dispatch_def hdr mtp_op_OpenSession_def after_transfer_def)
  moreover have "alloc_roots host_os (?c1\<lparr>session_id := 1, fs_db := Some init_fs_db\<rparr>) sample_storages =
      reply (?c1\<lparr>session_id := 1, fs_db := Some root_db\<rparr>) MTP_RESPONSE_OK"
    by (simp add: sample_storages_def sample_storage_def numeral_eq_Suc empty_storage_def set_db_def the_db_def root_db_def)
  ultimately have "io_round host_os c = Some (send_status host_os (?c1\<lparr>session_id := 1, fs_db := Some root_db\<rparr>) (hdr_tx_id ?p) MTP_RESPONSE_OK [])"
    by (simp add: io_round_def mtp_incoming_packet_def len process_in_packet_def after_transfer_def)
  from reachable.step[OF c(1) responder_step.packet[OF c(6) this]] c(3) show ?thesis
    by (intro exI) (auto simp: send_status_frame after_transfer_def)
qed


lemma root_pool: "pool root_db = [root_entry 0xFFFF0001]" "entry_list root_db = [0]"
  by (simp_all add: root_db_def alloc_root_entry_push init_fs_db_def)

lemmas push_event_db = link_frame_facts(1,3)[OF push_event_frame]

lemma host_file:
  "\<exists>c. reachable [] host_os no_files [] c \<and> fs_db c = Some sample_db \<and> storages c = sample_storages"
proof -
  obtain c where c: "reachable [] host_os no_files [] c" "fs_db c = Some root_db" "storages c = sample_storages"
    using host_session by blast
  let ?e = "\<lparr>ev_wd = -1, ev_mask = 0, ev_len = 2, ev_name = [0x61, 0]\<rparr>" and ?fi = "\<lparr>isdirectory = False, filename = [], fsize = 0\<rparr>"
  let ?a = "\<lparr>isdirectory = False, filename = [0x61], fsize = 3\<rparr>"
  let ?l = "lock_inotify c"
  have l: "the_db ?l = root_db" "storages ?l = sample_storages" using c by (simp_all add: lock_inotify_def the_db_def)
  have w: "get_entry_by_wd root_db (-1) [] = [0]"
    by (simp add: get_entry_by_wd_def root_pool root_entry_def deleted_def has_flag_def)
  have "path_of host_os ?l 0 = Some [0x2F, 0x72, 0x2F, 0x2F]"
    by (simp add: sample_path l root_pool root_entry_def)
  then have "get_file_info host_os ?l ?e 0 ?fi False = Some ?a"
    by (simp add: get_file_info_def fs_entry_stat_def c_string_def Let_def at_def)
  moreover have "created host_os ?l ?a 0 = (set_db sample_db ?l, Some 1)"
  proof -
    have "db_inv root_db" unfolding root_db_def
      by (intro db_inv_alloc_root_entry db_inv_init) (simp add: db_room_def init_fs_db_def)
    moreover have "\<not> named root_db [0x61] 0 0xFFFF0001 p" for p
      by (auto simp: named_def live_def ptrs_def root_pool root_entry_def)
    ultimately have s: "search_entry root_db ?a 0 0xFFFF0001 = None"
      using find_entry_iff(1)[of root_db] by (simp add: search_entry_def)
    have "alloc_entry root_db ?a 0 0xFFFF0001 = (sample_db, Suc 0)"
      by (simp add: prod_eq_iff sample_db_def root_db_def[symmetric]) (simp add: alloc_entry_push root_pool)
    then have "add_entry root_db ?a 0 0xFFFF0001 = (sample_db, Suc 0)" by (simp add: add_entry_def s)
    then show ?thesis by (simp add: created_def Let_def l root_pool root_entry_def s sample_pool)
  qed
  ultimately have "notify_entry host_os IN_CREATE_handler ?e c ?fi [] =
      Some (fst (mtp_push_event host_os (unlock_inotify (set_db sample_db ?l)) MTP_EVENT_OBJECT_ADDED [1]), ?a, [])"
    by (simp add: notify_entry_def IN_CREATE_handler_def Let_def l w)
  then have "responder_step [] host_os c (fst (mtp_push_event host_os (unlock_inotify (set_db sample_db ?l)) MTP_EVENT_OBJECT_ADDED [1]))"
    by (intro responder_step.folder_event[where h = IN_CREATE_handler]) simp_all
  from reachable.step[OF c(1) this] c(3) show ?thesis
    by (intro exI) (auto simp: push_event_db set_db_def lock_inotify_def unlock_inotify_def)
qed

lemma host_file_db:
  obtains c where "reachable [] host_os no_files [] c" "the_db c = sample_db" "storages c = sample_storages" "fs_db c = Some sample_db"
    "length (pool (the_db c)) \<le> 0x10000000"
  using host_file by (force simp: the_db_def sample_pool)


theorem reachable_types_witness:
  "\<exists>c. reachable [] host_os no_files [] c \<and> storage_id (storages c ! 0) = 0xFFFF0001 \<and> length (storages c) = 16"
proof -
  obtain c where c: "reachable [] host_os no_files [] c" "storages c = sample_storages" by (rule host_file_db)
  have "root_path (storages c ! 0) \<noteq> None" by (simp add: c(2) sample_storages_def sample_storage_def)
  then have "storage_id (storages c ! 0) = 0xFFFF0001 \<and> length (storages c) = 16"
    using reachable_types[OF c(1)] by fastforce
  then show ?thesis using c(1) by blast
qed


theorem reachable_lookup_witness:
  "\<exists>c. reachable [] host_os no_files [] c \<and> get_entry_by_handle (storages c) (the_db c) 1 = Some (Suc 0)"
proof -
  obtain c where c: "reachable [] host_os no_files [] c" "the_db c = sample_db" "storages c = sample_storages" "fs_db c = Some sample_db"
    "length (pool (the_db c)) \<le> 0x10000000" by (rule host_file_db)
  have "\<exists>i<16. root_path (sample_storages ! i) \<noteq> None \<and> storage_id (sample_storages ! i) = 0xFFFF0001"
    by (intro exI[of _ 0]) (simp add: sample_storages_def sample_storage_def)
  then have "get_entry_by_handle (storages c) (the_db c) 1 = Some (Suc 0)"
    using reachable_lookup[OF c(1,5), of 1 "Suc 0"] by (simp add: c(2,3) sample_pool deleted_def has_flag_def)
  then show ?thesis using c(1) by blast
qed

theorem handles_stable_witness:
  "\<exists>c c'. reachable [] host_os no_files [] c \<and> session_step [] host_os c c' \<and>
     get_entry_by_handle (storages c') (the_db c') 1 = Some (Suc 0) \<and>
     same_object (pool (the_db c) ! Suc 0) (pool (the_db c') ! Suc 0)"
proof -
  obtain c where c: "reachable [] host_os no_files [] c" "the_db c = sample_db" "storages c = sample_storages" "fs_db c = Some sample_db"
    "length (pool (the_db c)) \<le> 0x10000000" by (rule host_file_db)
  let ?d = "with_gadget (\<lambda>g. g\<lparr>stop := True\<rparr>) c"
  have s: "session_step [] host_os c ?d"
    using responder_step.shutdown[of "[]" host_os c] by (simp add: session_step_def c(4) with_gadget_def)
  have d: "the_db ?d = sample_db" "storages ?d = sample_storages" using c(2,3) by (simp_all add: with_gadget_def the_db_def)
  have "same_object (pool (the_db c) ! Suc 0) (pool (the_db ?d) ! Suc 0)"
    using handles_stable[OF c(1) r_into_rtranclp[of "session_step [] host_os", OF s], of "Suc 0" 1] c(5)
    by (simp add: c(2) d sample_pool)
  moreover have "get_entry_by_handle (storages ?d) (the_db ?d) 1 = Some (Suc 0)" unfolding d by (rule sample_entry)
  ultimately show ?thesis using c(1) s by blast
qed

end
