(* ===== verification/RoundTrip.thy ===== *)
theory RoundTrip
  imports Ops
begin

text \<open>
  What is sent comes back: \<open>SendObject\<close> and then \<open>GetObject\<close> of the same handle, over a file system that
  behaves as POSIX says. The file system is described by a table of files and open descriptors; \<open>posix_os\<close>
  states which effect each call of \<open>os\<close> has on the table it shows.
\<close>

section \<open>Files and descriptors\<close>

record file_table =
  contents :: "cstr \<Rightarrow> byte list option"
  descriptors :: "int \<Rightarrow> (cstr \<times> nat) option"

definition content_at :: "file_table \<Rightarrow> cstr \<Rightarrow> byte list" where
  "content_at t path = (case contents t path of Some c \<Rightarrow> c | None \<Rightarrow> [])"

definition file_of :: "file_table \<Rightarrow> int \<Rightarrow> byte list" where
  "file_of t fd = (case descriptors t fd of Some (path, _) \<Rightarrow> content_at t path | None \<Rightarrow> [])"

definition overwrite :: "byte list \<Rightarrow> nat \<Rightarrow> byte list \<Rightarrow> byte list" where
  "overwrite c pos bs = take pos (c @ replicate (pos - length c) 0) @ bs @ drop (pos + length bs) c"

definition posix_open :: "cstr \<Rightarrow> open_flag list \<Rightarrow> int \<Rightarrow> file_table \<Rightarrow> file_table" where
  "posix_open path fl fd t =
    t\<lparr>contents := (contents t)(path \<mapsto> if O_TRUNC \<in> set fl then [] else content_at t path),
      descriptors := (descriptors t)(fd \<mapsto> (path, 0))\<rparr>"

definition posix_seek :: "int \<Rightarrow> nat \<Rightarrow> file_table \<Rightarrow> file_table" where
  "posix_seek fd pos t =
    t\<lparr>descriptors := (descriptors t)(fd := map_option (\<lambda>(path, _). (path, pos)) (descriptors t fd))\<rparr>"

definition posix_write :: "int \<Rightarrow> byte list \<Rightarrow> file_table \<Rightarrow> file_table" where
  "posix_write fd bs t =
    (case descriptors t fd of
       None \<Rightarrow> t
     | Some (path, pos) \<Rightarrow> t\<lparr>contents := (contents t)(path \<mapsto> overwrite (content_at t path) pos bs),
         descriptors := (descriptors t)(fd \<mapsto> (path, pos + length bs))\<rparr>)"

definition posix_read :: "int \<Rightarrow> int \<Rightarrow> file_table \<Rightarrow> byte list \<times> file_table" where
  "posix_read fd n t =
    (case descriptors t fd of
       None \<Rightarrow> ([], t)
     | Some (path, pos) \<Rightarrow>
        (let data = take (nat n) (drop pos (content_at t path))
         in (data, t\<lparr>descriptors := (descriptors t)(fd \<mapsto> (path, pos + length data))\<rparr>)))"

definition posix_close :: "int \<Rightarrow> file_table \<Rightarrow> file_table" where
  "posix_close fd t = t\<lparr>descriptors := (descriptors t)(fd := None)\<rparr>"

section \<open>A system that behaves like that\<close>

definition posix_files :: "'w os \<Rightarrow> ('w \<Rightarrow> file_table) \<Rightarrow> bool" where
  "posix_files os t \<longleftrightarrow>
     (\<forall>w path fl. 0 < snd (os_open os w path fl) \<longrightarrow>
        t (fst (os_open os w path fl)) = posix_open path fl (snd (os_open os w path fl)) (t w)) \<and>
     (\<forall>w fd ofs. 0 \<le> ofs \<longrightarrow> t (fst (os_lseek os w fd ofs SEEK_SET)) = posix_seek fd (nat ofs) (t w)) \<and>
     (\<forall>w fd. t (fst (os_lseek os w fd 0 SEEK_END)) = posix_seek fd (length (file_of (t w) fd)) (t w)) \<and>
     (\<forall>w fd. descriptors (t w) fd \<noteq> None \<longrightarrow> snd (os_lseek os w fd 0 SEEK_END) = int (length (file_of (t w) fd))) \<and>
     (\<forall>w fd bs. t (fst (os_write os w fd bs)) = posix_write fd bs (t w)) \<and>
     (\<forall>w fd n. descriptors (t w) fd \<noteq> None \<longrightarrow> snd (os_read os w fd n) = Some (fst (posix_read fd n (t w)))) \<and>
     (\<forall>w fd n. t (fst (os_read os w fd n)) = snd (posix_read fd n (t w))) \<and>
     (\<forall>w fd. t (os_close os w fd) = posix_close fd (t w)) \<and> (\<forall>w fd. t (os_fsync os w fd) = t w)"

text \<open>Calls that have nothing to do with files, and what the host has still to send.\<close>

definition keeps_files :: "'w os \<Rightarrow> ('w \<Rightarrow> 'a) \<Rightarrow> bool" where
  "keeps_files os f \<longleftrightarrow> (\<forall>w u. f (fst (os_setfsuid os w u)) = f w) \<and> (\<forall>w g. f (fst (os_setfsgid os w g)) = f w)"

definition link_keeps :: "'w os \<Rightarrow> ('w \<Rightarrow> file_table) \<Rightarrow> bool" where
  "link_keeps os t \<longleftrightarrow> (\<forall>w ep bs. t (fst (os_ep_write os w ep bs)) = t w) \<and> (\<forall>w n. t (fst (os_ep_read os w n)) = t w)"

definition host_queue :: "'w os \<Rightarrow> int \<Rightarrow> ('w \<Rightarrow> byte list list) \<Rightarrow> bool" where
  "host_queue os n supply \<longleftrightarrow>
     (\<forall>w p ps. supply w = p # ps \<longrightarrow> snd (os_ep_read os w n) = Some p \<and> supply (fst (os_ep_read os w n)) = ps) \<and>
     (\<forall>w path fl. supply (fst (os_open os w path fl)) = supply w) \<and>
     (\<forall>w fd ofs wh. supply (fst (os_lseek os w fd ofs wh)) = supply w) \<and>
     (\<forall>w fd bs. supply (fst (os_write os w fd bs)) = supply w) \<and>
     (\<forall>w fd. supply (os_close os w fd) = supply w) \<and> (\<forall>w fd. supply (os_fsync os w fd) = supply w) \<and>
     (\<forall>w ep bs. supply (fst (os_ep_write os w ep bs)) = supply w)"

definition posix_os :: "'w os \<Rightarrow> ('w \<Rightarrow> file_table) \<Rightarrow> int \<Rightarrow> ('w \<Rightarrow> byte list list) \<Rightarrow> bool" where
  "posix_os os t n supply \<longleftrightarrow> posix_files os t \<and> keeps_files os t \<and> keeps_files os supply \<and> link_keeps os t \<and>
     host_queue os n supply \<and> (\<forall>w. \<not> os_cancel os w) \<and> (\<forall>w. \<not> os_lock_fails os w)"

lemma overwrite_end [simp]: "overwrite c (length c) bs = c @ bs"
  by (simp add: overwrite_def)

lemma posix_read_after_seek:
  assumes "descriptors t fd = Some (path, pos)" "contents t path = Some c" "posix_read fd n (posix_seek fd k t) = (data, t')"
  shows "data = take (nat n) (drop k c)" "\<exists>pos'. descriptors t' fd = Some (path, pos')" "contents t' path = Some c"
  using assms by (auto simp: posix_read_def posix_seek_def content_at_def Let_def)

lemma posix_file_content:
  assumes "posix_files os t" "link_keeps os t"
  shows "file_content os (\<lambda>w. (\<exists>pos. descriptors (t w) fd = Some (path, pos)) \<and> contents (t w) path = Some c) fd c"
    (is "file_content os ?I fd c")
proof -
  have "snd (os_read os (fst (os_lseek os w fd ofs SEEK_SET)) fd n) = Some (take (nat n) (drop (nat ofs) c)) \<and>
      ?I (fst (os_read os (fst (os_lseek os w fd ofs SEEK_SET)) fd n))"
    if I: "?I w" and ofs: "0 \<le> ofs" for w ofs n
  proof -
    define w1 where "w1 = fst (os_lseek os w fd ofs SEEK_SET)"
    have t1: "t w1 = posix_seek fd (nat ofs) (t w)" using assms(1) ofs by (simp add: posix_files_def w1_def)
    obtain pos where pos: "descriptors (t w) fd = Some (path, pos)" "contents (t w) path = Some c" using I by blast
    have op: "descriptors (t w1) fd \<noteq> None" using pos by (simp add: t1 posix_seek_def)
    obtain data t' where rd: "posix_read fd n (posix_seek fd (nat ofs) (t w)) = (data, t')" by fastforce
    have "snd (os_read os w1 fd n) = Some (fst (posix_read fd n (t w1)))" "t (fst (os_read os w1 fd n)) = snd (posix_read fd n (t w1))"
      using assms(1) op unfolding posix_files_def by blast+
    then show ?thesis
      using posix_read_after_seek[OF pos rd] rd by (simp add: t1 flip: w1_def)
  qed
  then show ?thesis using assms(2) by (simp add: file_content_def link_keeps_def)
qed

section \<open>Opening an object\<close>

text \<open>The identity of the storage can be taken on, in every state of the system.\<close>

definition may_switch :: "'w os \<Rightarrow> 'w mtp_ctx \<Rightarrow> u32 \<Rightarrow> bool" where
  "may_switch os ctx sid \<longleftrightarrow> (\<forall>w. snd (set_storage_giduid os (ctx\<lparr>world := w\<rparr>) sid) = 0)"

lemma set_giduid_keeps: "keeps_files os f \<Longrightarrow> f (world (fst (set_giduid os ctx u g))) = f (world ctx)"
  by (auto simp: set_giduid_def Let_def keeps_files_def split: prod.splits) (metis fst_conv)+

lemma giduid_keeps:
  assumes "keeps_files os f"
  shows "f (world (fst (set_storage_giduid os ctx sid))) = f (world ctx)" "f (world (fst (restore_giduid os ctx))) = f (world ctx)"
  using set_giduid_keeps[OF assms] by (auto simp: set_storage_giduid_def restore_giduid_def Let_def)

text \<open>
  A closed object whose file is \<open>path\<close> in every state of the system: the path resolves to itself, or to nothing
  yet, and the kernel opens it when it is there or is to be created.
\<close>

definition object_file :: "'w os \<Rightarrow> ('w \<Rightarrow> file_table) \<Rightarrow> 'w mtp_ctx \<Rightarrow> ptr \<Rightarrow> cstr \<Rightarrow> bool" where
  "object_file os t ctx p path \<longleftrightarrow>
     p \<in> ptrs (the_db ctx) \<and> e_fd (entry_at (the_db ctx) p) \<le> 0 \<and>
     (\<forall>w. build_full_path os w (storages ctx) (the_db ctx)
        (mtp_get_storage_root (storages ctx) (e_storage (entry_at (the_db ctx) p))) (Some p) = Some path) \<and>
     may_switch os ctx (e_storage (entry_at (the_db ctx) p)) \<and>
     (\<forall>w fl. O_CREAT \<in> set fl \<or> contents (t w) path \<noteq> None \<longrightarrow> 0 < snd (os_open os w path fl))"

lemma entry_open_ok:
  assumes obj: "object_file os t ctx p path" and fsys: "posix_files os t" "keeps_files os t"
    and fl: "O_CREAT \<in> set fl \<or> contents (t (world ctx)) path \<noteq> None"
    and sup: "keeps_files os supply" "\<And>w path fl. supply (fst (os_open os w path fl)) = supply w"
  shows "\<exists>w fd. entry_open os ctx p fl =
      (ctx\<lparr>world := w, fs_db := Some (upd_entry p (\<lambda>e. e\<lparr>e_fd := fd\<rparr>) (the_db ctx))\<rparr>, fd) \<and> 0 < fd \<and>
      t w = posix_open path fl fd (t (world ctx)) \<and> supply w = supply (world ctx)"
proof -
  let ?db = "the_db ctx"
  let ?sid = "e_storage (entry_at ?db p)"
  have p: "p \<in> ptrs ?db" "\<not> e_fd (entry_at ?db p) > 0" using obj by (simp_all add: object_file_def)
  have path: "path_of os ctx p = Some path" using obj unfolding object_file_def by blast
  obtain w1 where c1: "fst (set_storage_giduid os ctx ?sid) = ctx\<lparr>world := w1\<rparr>" using set_storage_giduid_world[of os ctx ?sid] by blast
  have "snd (set_storage_giduid os (ctx\<lparr>world := world ctx\<rparr>) ?sid) = 0"
    using obj unfolding object_file_def may_switch_def by blast
  then have s1: "set_storage_giduid os ctx ?sid = (ctx\<lparr>world := w1\<rparr>, 0)" using c1 by (simp add: prod_eq_iff)
  have w1: "t w1 = t (world ctx)" "supply w1 = supply (world ctx)"
    using giduid_keeps(1)[OF fsys(2), of ctx ?sid] giduid_keeps(1)[OF sup(1), of ctx ?sid] by (simp_all add: c1)
  obtain w2 fd where o: "os_open os w1 path fl = (w2, fd)" by fastforce
  have fd: "0 < fd" using obj fl w1(1) o unfolding object_file_def by (metis snd_conv)
  have w2: "t w2 = posix_open path fl fd (t w1)" "supply w2 = supply w1"
    using fsys(1) o fd sup(2)[of w1 path fl] unfolding posix_files_def by (metis fst_conv snd_conv)+
  let ?c2 = "ctx\<lparr>world := w2, fs_db := Some (upd_entry p (\<lambda>e. e\<lparr>e_fd := fd\<rparr>) ?db)\<rparr>"
  obtain w3 where c3: "fst (restore_giduid os ?c2) = ?c2\<lparr>world := w3\<rparr>" using restore_giduid_world[of os ?c2] by blast
  have w3: "t w3 = t w2" "supply w3 = supply w2"
    using giduid_keeps(2)[OF fsys(2), of ?c2] giduid_keeps(2)[OF sup(1), of ?c2] by (simp_all add: c3)
  have "entry_open os ctx p fl = (?c2\<lparr>world := w3\<rparr>, fd)"
    unfolding entry_open_def if_not_P[OF p(2)] path option.case s1 Let_def prod.case
    using p(1) c3 by (simp add: o set_db_def entry_at_upd)
  then show ?thesis using fd w1 w2 w3 by (intro exI[of _ w3] exI[of _ fd]) simp
qed

section \<open>What a change of size and descriptor leaves alone\<close>

definition same_names :: "fs_handles_db \<Rightarrow> fs_handles_db \<Rightarrow> bool" where
  "same_names db db' \<longleftrightarrow> length (pool db') = length (pool db) \<and> by_handle db' = by_handle db \<and> ptrs db' = ptrs db \<and>
     (\<forall>q. e_name (entry_at db' q) = e_name (entry_at db q) \<and> e_handle (entry_at db' q) = e_handle (entry_at db q) \<and>
          e_parent (entry_at db' q) = e_parent (entry_at db q) \<and> e_storage (entry_at db' q) = e_storage (entry_at db q) \<and>
          e_flags (entry_at db' q) = e_flags (entry_at db q))"

lemma same_names_refl [simp]: "same_names db db"
  by (simp add: same_names_def)

lemma same_names_lookup: "same_names db db' \<Longrightarrow> get_entry_by_handle sts db' h = get_entry_by_handle sts db h"
  by (simp add: same_names_def get_entry_by_handle_def deleted_def)

lemma same_names_chain: "same_names db db' \<Longrightarrow> parent_chain n sts db' p = parent_chain n sts db p"
proof (induction n arbitrary: p)
  case (Suc n)
  moreover have "e_parent (entry_at db' p) = e_parent (entry_at db p)" using Suc.prems by (simp add: same_names_def)
  ultimately show ?case by (simp add: parent_chain.simps(2) Let_def same_names_lookup split: option.split)
qed simp

lemma same_names_path: "same_names db db' \<Longrightarrow> build_full_path os w sts db' root (Some p) = build_full_path os w sts db root (Some p)"
proof -
  assume sn: "same_names db db'"
  then have "length (pool db') = length (pool db)" "\<And>q. e_name (entry_at db' q) = e_name (entry_at db q)"
    by (simp_all add: same_names_def)
  moreover from this have "full_path_of sts db' p = full_path_of sts db p"
    by (simp add: full_path_of_def same_names_chain[OF sn])
  ultimately have "full_path_of sts db' p = full_path_of sts db p" "e_name (entry_at db' p) = e_name (entry_at db p)" by simp_all
  then show ?thesis unfolding build_full_path_def option.case by (simp only:)
qed

lemma same_names_access: "same_names db db' \<Longrightarrow>
  check_handle_access sts db' (Some p) h wr = check_handle_access sts db (Some p) h wr"
  by (simp add: check_handle_access_def same_names_def)

lemma same_names_upd:
  "same_names db (upd_entry p (\<lambda>e. e\<lparr>e_size := n, e_fd := fd\<rparr>) db)" "same_names db (upd_entry p (\<lambda>e. e\<lparr>e_fd := fd\<rparr>) db)"
  by (simp_all add: same_names_def entry_at_upd)

text \<open>What \<open>object_file\<close> reads of a context.\<close>

lemma set_storage_giduid_cong:
  "storages c' = storages c \<Longrightarrow> default_uid c' = default_uid c \<Longrightarrow> default_gid c' = default_gid c \<Longrightarrow> world c' = world c \<Longrightarrow>
   snd (set_storage_giduid os c' sid) = snd (set_storage_giduid os c sid)"
  by (auto simp: set_storage_giduid_def set_giduid_def Let_def split: prod.splits)

lemma object_file_cong:
  assumes "object_file os t c p path" "storages c' = storages c" "default_uid c' = default_uid c" "default_gid c' = default_gid c"
    "same_names (the_db c) (the_db c')" "e_fd (entry_at (the_db c') p) \<le> 0"
  shows "object_file os t c' p path"
proof -
  have "e_storage (entry_at (the_db c') p) = e_storage (entry_at (the_db c) p)" "ptrs (the_db c') = ptrs (the_db c)"
    using assms(5) by (simp_all add: same_names_def)
  moreover have "snd (set_storage_giduid os (c'\<lparr>world := w\<rparr>) sid) = snd (set_storage_giduid os (c\<lparr>world := w\<rparr>) sid)" for w sid
    using assms(2-4) by (intro set_storage_giduid_cong) simp_all
  ultimately show ?thesis
    using assms(1,2,6) by (simp add: object_file_def may_switch_def same_names_path[OF assms(5)])
qed

lemma check_read_access: "check_handle_access sts db e h True = None \<Longrightarrow> check_handle_access sts db e h False = None"
  by (auto simp: check_handle_access_def Let_def split: option.splits if_splits)

lemma check_entry_any: "check_handle_access sts db (Some p) h wr = check_handle_access sts db (Some p) k wr"
  by (simp add: check_handle_access_def)

section \<open>Upload\<close>

text \<open>The payload of the data phase: the first packet without its header, and the packets behind it.\<close>

definition upload_data :: "buffer \<Rightarrow> int \<Rightarrow> byte list list \<Rightarrow> byte list" where
  "upload_data packet rawsize ps = take (nat (rawsize - 12)) (drop 12 packet) @ concat ps"

lemma posix_host_sends:
  assumes "posix_files os t" "link_keeps os t" "host_queue os n supply" "\<forall>w. \<not> os_cancel os w"
  shows "host_sends os (\<lambda>w. descriptors (t w) fd = Some (path, length (content_at (t w) path)) \<and> contents (t w) path \<noteq> None) fd n supply
    (\<lambda>w. content_at (t w) path)"
  using assms
  by (auto simp: host_sends_def posix_files_def link_keeps_def host_queue_def posix_write_def content_at_def)

lemma SendObject_stores:
  assumes os: "posix_os os t n supply" and obj: "object_file os t ctx p path"
    and handle: "fs_db ctx \<noteq> None" "SendObjInfoHandle ctx \<noteq> 0xFFFFFFFF"
      "get_entry_by_handle (storages ctx) (the_db ctx) (SendObjInfoHandle ctx) = Some p"
      "check_handle_access (storages ctx) (the_db ctx) (Some p) 0 True = None" "SendObjInfoOffset ctx = 0"
    and packet: "hdr_operation packet = MTP_CONTAINER_TYPE_DATA" "hdr_code packet \<noteq> MTP_OPERATION_SEND_PARTIAL_OBJECT"
    and host: "receiving ctx n" "follow_up n rawsize ps" "supply (world ctx) = ps @ rest"
  shows "\<exists>w b s. mtp_op_SendObject os ctx packet rawsize =
      Some (ctx\<lparr>world := w, rdbuffer2 := b, SendObjInfoSize := s, transferring_file_data := False, inotify_locked := False,
        fs_db := Some (upd_entry p (\<lambda>e. e\<lparr>e_size := int (length (upload_data packet rawsize ps)), e_fd := -1\<rparr>) (the_db ctx))\<rparr>,
        MTP_RESPONSE_OK, []) \<and>
      content_at (t w) path = upload_data packet rawsize ps \<and> contents (t w) path \<noteq> None \<and> supply w = rest"
proof -
  let ?fl = "[O_CREAT, O_WRONLY, O_TRUNC, O_LARGEFILE]"
  let ?c = "lock_inotify ctx"
  have ps: "posix_files os t" "keeps_files os t" "keeps_files os supply" "link_keeps os t" "host_queue os n supply"
    "\<forall>w. \<not> os_cancel os w" "\<forall>w. \<not> os_lock_fails os w" using os by (simp_all add: posix_os_def)
  have db: "the_db ?c = the_db ctx" by (simp add: lock_inotify_def the_db_def)
  have obj': "object_file os t ?c p path"
  proof (rule object_file_cong[OF obj])
    show "same_names (the_db ctx) (the_db ?c)" "e_fd (entry_at (the_db ?c) p) \<le> 0" using obj by (simp_all add: db object_file_def)
  qed (simp_all add: lock_inotify_def)
  obtain w fd where o: "entry_open os ?c p ?fl =
      (?c\<lparr>world := w, fs_db := Some (upd_entry p (\<lambda>e. e\<lparr>e_fd := fd\<rparr>) (the_db ?c))\<rparr>, fd)" "0 < fd"
      "t w = posix_open path ?fl fd (t (world ?c))" "supply w = supply (world ?c)"
    using entry_open_ok[OF obj' ps(1,2) _ ps(3), of ?fl] ps(5) by (auto simp: host_queue_def)
  define c1 where "c1 = ?c\<lparr>world := w, fs_db := Some (upd_entry p (\<lambda>e. e\<lparr>e_fd := fd\<rparr>) (the_db ctx))\<rparr>"
  define w0 where "w0 = fst (os_lseek os (world c1) fd (SendObjInfoOffset c1) SEEK_SET)"
  have w0: "t w0 = posix_seek fd 0 (t w)" "supply w0 = ps @ rest"
    using ps(1,5) handle(5) o(4) host(3) by (simp_all add: w0_def c1_def lock_inotify_def posix_files_def host_queue_def)
  have j: "descriptors (t w0) fd = Some (path, length (content_at (t w0) path)) \<and> contents (t w0) path \<noteq> None" "content_at (t w0) path = []"
    by (simp_all add: w0(1) o(3) posix_seek_def posix_open_def content_at_def)
  have rc: "receiving c1 n" using host(1) by (simp add: receiving_def c1_def lock_inotify_def)
  have seek: "content_at (t (fst (os_lseek os w fd 0 SEEK_END))) path = content_at (t w) path"
    "descriptors (t w) fd = Some (path, length (content_at (t w) path)) \<and> contents (t w) path \<noteq> None \<Longrightarrow>
      snd (os_lseek os w fd 0 SEEK_END) = int (length (content_at (t w) path))"
    "content_at (t (os_close os w k)) path = content_at (t w) path" "content_at (t (os_fsync os w k)) path = content_at (t w) path"
    for w k using ps(1) by (simp_all add: posix_files_def posix_seek_def posix_close_def content_at_def file_of_def)
  let ?K = "\<lambda>w. contents (t w) path \<noteq> None \<and> supply w = rest"
  have keep: "contents (t w) path \<noteq> None \<Longrightarrow> supply w = rest \<Longrightarrow> ?K (fst (os_lseek os w fd 0 SEEK_END))"
    "?K w \<Longrightarrow> ?K (os_close os w k)" "?K w \<Longrightarrow> ?K (os_fsync os w k)" for w k
    using ps(1,5) by (simp_all add: posix_files_def posix_seek_def posix_close_def host_queue_def)
  obtain w' b s where r: "receive_object os c1 p fd packet rawsize False =
       Some (c1\<lparr>world := w', rdbuffer2 := b, SendObjInfoSize := s, transferring_file_data := False,
         fs_db := Some (upd_entry p (\<lambda>e. e\<lparr>e_size := int (length (content_at (t w') path)), e_fd := -1\<rparr>) (the_db c1))\<rparr>, MTP_RESPONSE_OK)"
     "content_at (t w') path = content_at (t w0) path @ take (nat (rawsize - 12)) (drop 12 packet) @ concat ps"
     "contents (t w') path \<noteq> None \<and> supply w' = rest"
    using receive_object_whole[OF posix_host_sends[OF ps(1,4,5,6)] rc host(2) w0_def j(1) w0(2) seek,
        of ?K p packet] keep by auto
  have data: "content_at (t w') path = upload_data packet rawsize ps" using r(2) j(2) by (simp add: upload_data_def)
  have "send_object_data os ?c packet rawsize = Some (c1\<lparr>world := w', rdbuffer2 := b, SendObjInfoSize := s,
      transferring_file_data := False,
      fs_db := Some (upd_entry p (\<lambda>e. e\<lparr>e_size := int (length (upload_data packet rawsize ps)), e_fd := -1\<rparr>) (the_db ctx))\<rparr>, MTP_RESPONSE_OK, [])"
  proof -
    have "upd_entry p (\<lambda>e. e\<lparr>e_size := m, e_fd := -1\<rparr>) (the_db c1) = upd_entry p (\<lambda>e. e\<lparr>e_size := m, e_fd := -1\<rparr>) (the_db ctx)" for m
      by (simp add: c1_def upd_entry_twice comp_def)
    moreover have "SendObjInfoHandle ?c = SendObjInfoHandle ctx" "storages ?c = storages ctx" by (simp_all add: lock_inotify_def)
    moreover have "entry_open os ?c p ?fl = (c1, fd)" using o(1) by (simp add: c1_def db)
    ultimately show ?thesis
      using r(1) handle(3,4) o(2) packet(2) by (simp add: send_object_data_def reply_entry_def db data Let_def)
  qed
  then have run: "mtp_op_SendObject os ctx packet rawsize = Some (unlock_inotify (c1\<lparr>world := w', rdbuffer2 := b, SendObjInfoSize := s,
      transferring_file_data := False,
      fs_db := Some (upd_entry p (\<lambda>e. e\<lparr>e_size := int (length (upload_data packet rawsize ps)), e_fd := -1\<rparr>) (the_db ctx))\<rparr>), MTP_RESPONSE_OK, [])"
    using handle(1,2) packet ps(7)
    by (simp add: mtp_op_SendObject_def in_session_def locked_def partial_command_def Let_def lock_inotify_def)
  have eq: "unlock_inotify (c1\<lparr>world := w', rdbuffer2 := b, SendObjInfoSize := s, transferring_file_data := False, fs_db := d\<rparr>)
      = ctx\<lparr>world := w', rdbuffer2 := b, SendObjInfoSize := s, transferring_file_data := False, inotify_locked := False, fs_db := d\<rparr>" for d
    by (simp add: unlock_inotify_def c1_def lock_inotify_def)
  show ?thesis using run[unfolded eq] data r(3) by blast
qed

section \<open>Download\<close>

lemma build_response_header:
  assumes "12 < maxsize" "maxsize \<le> int (length buf)"
  shows "build_response tx ty code buf maxsize [] = (write_at buf 0 (header_bytes 12 ty code tx), 12)"
  using build_response_fits[of "[]" maxsize buf tx ty code] assms by simp

lemma data_container_header:
  assumes "12 \<le> length (wrbuffer ctx)"
  shows "data_container (ctx\<lparr>wrbuffer := write_at (wrbuffer ctx) 0 (header_bytes l ty code tx)\<rparr>) data
    = header_bytes (container_length (int (length data))) ty code tx @ data"
  using assms by (simp add: data_container_def write_at_def header_bytes_def le32_def le16_def)

lemma GetObject_sends:
  assumes os: "posix_os os t n supply" and obj: "object_file os t ctx p path" and ready: "link_ready os ctx k"
    and handle: "fs_db ctx \<noteq> None" "get_entry_by_handle (storages ctx) (the_db ctx) (param packet 0) = Some p"
      "check_handle_access (storages ctx) (the_db ctx) (Some p) (param packet 0) False = None"
    and data: "contents (t (world ctx)) path = Some data" "e_size (entry_at (the_db ctx) p) = int (length data)"
  shows "\<exists>ctx'. mtp_op_GetObject os ctx packet = Some (ctx', MTP_RESPONSE_OK, []) \<and>
    usb_out ctx' = usb_out ctx @ map (Pair 0)
      (chunks (nat (usb_wr_buffer_max_size ctx))
         (header_bytes (container_length (int (length data))) MTP_CONTAINER_TYPE_DATA (hdr_code packet) (hdr_tx_id packet) @ data)
       @ zlp ctx (12 + int (length data))) \<and> response_ready os ctx'"
proof -
  have ps: "posix_files os t" "keeps_files os t" "link_keeps os t" "\<forall>w. \<not> os_lock_fails os w"
    using os by (simp_all add: posix_os_def)
  have wr: "12 < usb_wr_buffer_max_size ctx" "usb_wr_buffer_max_size ctx \<le> int (length (wrbuffer ctx))" "12 \<le> length (wrbuffer ctx)"
    using ready by (auto simp: link_ready_def)
  define buf where "buf = write_at (wrbuffer ctx) 0 (header_bytes 12 MTP_CONTAINER_TYPE_DATA (hdr_code packet) (hdr_tx_id packet))"
  define c where "c = ctx\<lparr>inotify_locked := True, wrbuffer := buf\<rparr>"
  have len: "length buf = length (wrbuffer ctx)" using wr(3) by (simp add: buf_def)
  have c: "the_db c = the_db ctx" "storages c = storages ctx" "world c = world ctx" "usb_out c = usb_out ctx"
    "usb_wr_buffer_max_size c = usb_wr_buffer_max_size ctx" "max_packet_size c = max_packet_size ctx"
    by (simp_all add: c_def the_db_def)
  have rc: "link_ready os c k" using ready len by (simp add: link_ready_def c_def)
  have dc: "data_container c data = header_bytes (container_length (int (length data))) MTP_CONTAINER_TYPE_DATA
      (hdr_code packet) (hdr_tx_id packet) @ data"
    using data_container_header[of "ctx\<lparr>inotify_locked := True\<rparr>"] wr(3) by (simp add: c_def buf_def)
  let ?n = "int (length data)"
  let ?h = "send_header c (actual_size ?n 0 ?n)"
  have "default_uid ?h = default_uid ctx" "default_gid ?h = default_gid ctx" by (simp_all add: send_header_def Let_def c_def)
  then have oh: "object_file os t ?h p path"
    using obj by (intro object_file_cong[OF obj]) (simp_all add: c object_file_def)
  obtain w fd where o: "entry_open os ?h p [O_RDONLY, O_LARGEFILE] =
      (?h\<lparr>world := w, fs_db := Some (upd_entry p (\<lambda>e. e\<lparr>e_fd := fd\<rparr>) (the_db ?h))\<rparr>, fd)" "0 < fd"
      "t w = posix_open path [O_RDONLY, O_LARGEFILE] fd (t (world ?h))"
    using entry_open_ok[OF oh ps(1,2), of "[O_RDONLY, O_LARGEFILE]" "\<lambda>_. []"] data(1) by (auto simp: c keeps_files_def)
  have fc: "file_content os (\<lambda>w. (\<exists>pos. descriptors (t w) fd = Some (path, pos)) \<and> contents (t w) path = Some data) fd data"
    by (rule posix_file_content[OF ps(1,3)])
  have I: "(\<exists>pos. descriptors (t w) fd = Some (path, pos)) \<and> contents (t w) path = Some data"
    using o(3) data(1) by (simp add: c posix_open_def content_at_def)
  have sz: "e_size (entry_at (the_db c) p) = ?n" by (simp add: c data(2))
  obtain ctx' where s: "send_file_data os c p 0 ?n = Some (ctx', ?n)"
     "usb_out ctx' = usb_out c @ map (Pair 0) (chunks (nat (usb_wr_buffer_max_size c)) (data_container c data) @ zlp c (12 + ?n))" "response_ready os ctx'"
    using send_file_data_sent[OF rc sz _ _ _ o(1) _ fc] I o(2) by auto
  have "zlp c = zlp ctx" by (simp add: zlp_def c fun_eq_iff)
  moreover have "mtp_op_GetObject os ctx packet = Some (unlock_inotify ctx', MTP_RESPONSE_OK, [])"
  proof -
    have l: "lock_inotify ctx\<lparr>wrbuffer := buf\<rparr> = c" "the_db (lock_inotify ctx) = the_db ctx"
      "storages (lock_inotify ctx) = storages ctx" "wrbuffer (lock_inotify ctx) = wrbuffer ctx"
      "usb_wr_buffer_max_size (lock_inotify ctx) = usb_wr_buffer_max_size ctx"
      by (simp_all add: c_def lock_inotify_def the_db_def)
    have "build_response (hdr_tx_id packet) MTP_CONTAINER_TYPE_DATA (hdr_code packet) (wrbuffer ctx) (usb_wr_buffer_max_size ctx) [] = (buf, 12)"
      unfolding buf_def by (rule build_response_header[OF wr(1,2)])
    then show ?thesis
      using handle ps(4) s(1) by (simp add: mtp_op_GetObject_def in_session_def locked_def Let_def reply_entry_def l data(2))
  qed
  moreover have "response_ready os (unlock_inotify ctx')" using s(3) by (simp add: response_ready_def link_up_def unlock_inotify_def)
  ultimately show ?thesis using s(2) by (simp add: c dc unlock_inotify_def)
qed

section \<open>Upload, then download\<close>

lemma upload_download_ok:
  assumes os: "posix_os os t n supply" and obj: "object_file os t ctx p path" and ready: "link_ready os ctx k"
    and handle: "fs_db ctx \<noteq> None" "SendObjInfoHandle ctx = h" "h \<noteq> 0xFFFFFFFF"
      "get_entry_by_handle (storages ctx) (the_db ctx) h = Some p"
      "check_handle_access (storages ctx) (the_db ctx) (Some p) h True = None" "SendObjInfoOffset ctx = 0"
    and packet: "hdr_operation packet = MTP_CONTAINER_TYPE_DATA" "hdr_code packet \<noteq> MTP_OPERATION_SEND_PARTIAL_OBJECT"
    and host: "receiving ctx n" "follow_up n rawsize ps" "supply (world ctx) = ps @ rest"
    and request: "param request 0 = h"
    and data: "data = upload_data packet rawsize ps"
  shows "\<exists>ctx1 ctx2. mtp_op_SendObject os ctx packet rawsize = Some (ctx1, MTP_RESPONSE_OK, []) \<and>
    mtp_op_GetObject os ctx1 request = Some (ctx2, MTP_RESPONSE_OK, []) \<and>
    usb_out ctx2 = usb_out ctx @ map (Pair 0)
      (chunks (nat (usb_wr_buffer_max_size ctx))
         (header_bytes (container_length (int (length data))) MTP_CONTAINER_TYPE_DATA (hdr_code request) (hdr_tx_id request) @ data)
       @ zlp ctx (12 + int (length data)))"
proof -
  let ?f = "\<lambda>e. e\<lparr>e_size := int (length data), e_fd := -1\<rparr>"
  have acc: "check_handle_access (storages ctx) (the_db ctx) (Some p) 0 True = None"
    using handle(5) check_entry_any[of _ _ p 0 True h] by simp
  obtain w b s where up: "mtp_op_SendObject os ctx packet rawsize =
      Some (ctx\<lparr>world := w, rdbuffer2 := b, SendObjInfoSize := s, transferring_file_data := False, inotify_locked := False,
        fs_db := Some (upd_entry p ?f (the_db ctx))\<rparr>, MTP_RESPONSE_OK, [])"
      "content_at (t w) path = data" "contents (t w) path \<noteq> None"
    using SendObject_stores[OF os obj handle(1) _ _ acc handle(6) packet host] handle(2-4) unfolding data by auto
  define c where "c = ctx\<lparr>world := w, rdbuffer2 := b, SendObjInfoSize := s, transferring_file_data := False,
    inotify_locked := False, fs_db := Some (upd_entry p ?f (the_db ctx))\<rparr>"
  have c: "the_db c = upd_entry p ?f (the_db ctx)" "storages c = storages ctx" "world c = w" "usb_out c = usb_out ctx"
    "usb_wr_buffer_max_size c = usb_wr_buffer_max_size ctx" "max_packet_size c = max_packet_size ctx"
    "default_uid c = default_uid ctx" "default_gid c = default_gid ctx" "fs_db c \<noteq> None"
    by (simp_all add: c_def)
  have p: "p \<in> ptrs (the_db ctx)" using obj by (simp add: object_file_def)
  have sn: "same_names (the_db ctx) (the_db c)" by (simp add: c(1) same_names_upd)
  have oc: "object_file os t c p path"
    by (rule object_file_cong[OF obj c(2,7,8) sn]) (use p in \<open>simp add: c(1) entry_at_upd\<close>)
  have rc: "link_ready os c k" using ready by (simp add: link_ready_def c_def)
  have lk: "get_entry_by_handle (storages c) (the_db c) (param request 0) = Some p"
    by (simp only: same_names_lookup[OF sn] c(2) handle(4) request)
  have ac: "check_handle_access (storages c) (the_db c) (Some p) (param request 0) False = None"
    unfolding same_names_access[OF sn] c(2) request by (rule check_read_access[OF handle(5)])
  have dt: "contents (t (world c)) path = Some data" "e_size (entry_at (the_db c) p) = int (length data)"
    using up(2,3) p by (auto simp: c content_at_def entry_at_upd)
  have z: "zlp c = zlp ctx" by (simp add: zlp_def c fun_eq_iff)
  show ?thesis
    using GetObject_sends[OF os oc rc c(9) lk ac dt] up(1) unfolding c_def[symmetric] c(4,5) z by blast
qed

text \<open>A disk in memory, a host whose packets are the second half of the world.\<close>

definition disk_os :: "(file_table \<times> byte list list) os" where
  "disk_os = \<lparr>
     os_realpath = (\<lambda>w path. Inr path), os_stat = (\<lambda>w path. None), os_lstat = (\<lambda>w path. None),
     os_readdir = (\<lambda>w path. None), os_remove = (\<lambda>w path. (w, 0)), os_mkdir = (\<lambda>w path. (w, 0)),
     os_open = (\<lambda>w path fl. if O_CREAT \<in> set fl \<or> contents (fst w) path \<noteq> None then (apfst (posix_open path fl 5) w, 5) else (w, -1)),
     os_close = (\<lambda>w fd. apfst (posix_close fd) w), os_fsync = (\<lambda>w fd. w),
     os_lseek = (\<lambda>w fd ofs wh. if wh = SEEK_SET then (if 0 \<le> ofs then (apfst (posix_seek fd (nat ofs)) w, ofs) else (w, -1))
       else (apfst (posix_seek fd (length (file_of (fst w) fd))) w, int (length (file_of (fst w) fd)))),
     os_read = (\<lambda>w fd n. (apfst (\<lambda>t. snd (posix_read fd n t)) w, Some (fst (posix_read fd n (fst w))))),
     os_write = (\<lambda>w fd bs. (apfst (posix_write fd bs) w, int (length bs))), os_truncate = (\<lambda>w path n. (w, None)),
     os_rename = (\<lambda>w a b. (w, 0)), os_setfsuid = (\<lambda>w u. (w, 0)), os_setfsgid = (\<lambda>w g. (w, 0)),
     os_add_watch = (\<lambda>w path. (w, 1)), os_rm_watch = (\<lambda>w wd. w),
     os_statvfs = (\<lambda>w path. None), os_localtime = (\<lambda>t. \<lparr>tm_year = 70, tm_mon = 0, tm_mday = 1,
       tm_hour = 0, tm_min = 0, tm_sec = 0\<rparr>),
     os_battery = (\<lambda>w path. None), os_ep_write = (\<lambda>w ep bs. (w, int (length bs))),
     os_ep_read = (\<lambda>w n. case snd w of [] \<Rightarrow> (w, None) | p # ps \<Rightarrow> ((fst w, ps), Some p)),
     os_thread_create = (\<lambda>w. (w, 0)), os_thread_stop = (\<lambda>w. w), os_clear_halt = (\<lambda>w fd. w), os_cancel = (\<lambda>w. False), os_lock_fails = (\<lambda>w. False)\<rparr>"

definition empty_disk :: file_table where
  "empty_disk = \<lparr>contents = (\<lambda>path. None), descriptors = (\<lambda>fd. None)\<rparr>"

lemma disk_os_posix: "posix_os disk_os fst n snd"
  by (auto simp: posix_os_def posix_files_def keeps_files_def link_keeps_def host_queue_def disk_os_def split: list.split)

definition disk_ctx :: "byte list list \<Rightarrow> (file_table \<times> byte list list) mtp_ctx" where
  "disk_ctx ps = \<lparr>session_id = 1, usb_cfg = sample_cfg, usb_ctx = sample_gadget,
     wrbuffer = replicate 64 0, usb_wr_buffer_max_size = 64, rdbuffer = replicate 14 0,
     rdbuffer2 = replicate 14 0, usb_rd_buffer_max_size = 14, read_file_buffer = None,
     read_file_buffer_size = 64, temp_array = [], fs_db = Some sample_db, SendObjInfoHandle = 1,
     SendObjInfoSize = 17, SendObjInfoOffset = 0, SetObjectPropValue_Handle = 0xFFFFFFFF,
     SetObjectPropValue_PropCode = 0, max_packet_size = 512, storages = sample_storages, inotify_fd = -1,
     no_inotify = 0, sync_when_close = 0, ctx_uid = -1, ctx_gid = -1, default_uid = -1, default_gid = -1,
     cancel_req = 0, transferring_file_data = False, inotify_locked = False, usb_out = [],
     world = (empty_disk, ps)\<rparr>"

lemma disk_object: "object_file disk_os fst (disk_ctx ps) (Suc 0) [0x2F, 0x72, 0x2F, 0x61]"
proof -
  have "os_realpath disk_os = os_realpath (disk_os :: (file_table \<times> byte list list) os)" ..
  have db: "the_db (disk_ctx ps) = sample_db" "storages (disk_ctx ps) = sample_storages" by (simp_all add: disk_ctx_def the_db_def)
  have "build_full_path disk_os w sample_storages sample_db (Some [0x2F, 0x72]) (Some (Suc 0)) = Some [0x2F, 0x72, 0x2F, 0x61]" for w
    by (simp add: build_full_path_def full_path_of_def parent_chain_end chain_end_def sample_pool disk_os_def)
  moreover have "snd (set_storage_giduid disk_os (disk_ctx ps\<lparr>world := w\<rparr>) 0xFFFF0001) = 0" for w
    by (subst unset_giduid(2)) (simp_all add: disk_ctx_def)
  moreover have "0 < snd (os_open disk_os w path fl)" if "O_CREAT \<in> set fl \<or> contents (fst w) path \<noteq> None" for w path fl
    using that by (auto simp: disk_os_def)
  ultimately show ?thesis
    by (simp add: object_file_def may_switch_def db sample_pool ptrs_def)
qed

text \<open>C9. What a host uploads it gets back: after \<open>SendObject\<close> has taken the packets of a data phase for the
  announced object, \<open>GetObject\<close> of its handle answers OK and puts on the link, cut at the size of the write
  buffer, a container whose payload is exactly the bytes sent, and the empty packet that ends it when
  the length asks for one. The file system may do anything POSIX allows it.\<close>

theorem upload_download:
  assumes "posix_os os t n supply" "object_file os t ctx p path" "link_ready os ctx k"
    "fs_db ctx \<noteq> None" "SendObjInfoHandle ctx = h" "h \<noteq> 0xFFFFFFFF"
    "get_entry_by_handle (storages ctx) (the_db ctx) h = Some p"
    "check_handle_access (storages ctx) (the_db ctx) (Some p) h True = None" "SendObjInfoOffset ctx = 0"
    "hdr_operation packet = MTP_CONTAINER_TYPE_DATA" "hdr_code packet \<noteq> MTP_OPERATION_SEND_PARTIAL_OBJECT"
    "receiving ctx n" "follow_up n rawsize ps" "supply (world ctx) = ps @ rest" "param request 0 = h"
    "data = upload_data packet rawsize ps"
  shows "\<exists>ctx1 ctx2. mtp_op_SendObject os ctx packet rawsize = Some (ctx1, MTP_RESPONSE_OK, []) \<and>
    mtp_op_GetObject os ctx1 request = Some (ctx2, MTP_RESPONSE_OK, []) \<and>
    usb_out ctx2 = usb_out ctx @ map (Pair 0)
      (chunks (nat (usb_wr_buffer_max_size ctx))
         (header_bytes (container_length (int (length data))) MTP_CONTAINER_TYPE_DATA (hdr_code request) (hdr_tx_id request) @ data)
       @ zlp ctx (12 + int (length data)))"
  using assms by (rule upload_download_ok)

text \<open>Seventeen bytes in three packets of at most fourteen, back in one.\<close>

theorem upload_download_witness:
  "\<exists>ctx1 ctx2. mtp_op_SendObject disk_os (disk_ctx [replicate 14 7, [8]])
       (header_bytes 29 MTP_CONTAINER_TYPE_DATA 0x100D 9 @ [1, 2]) 14 = Some (ctx1, MTP_RESPONSE_OK, []) \<and>
    mtp_op_GetObject disk_os ctx1 (header_bytes 16 1 0x1009 10 @ le32 1) = Some (ctx2, MTP_RESPONSE_OK, []) \<and>
    usb_out ctx2 = [(0, header_bytes 29 MTP_CONTAINER_TYPE_DATA 0x1009 10 @ [1, 2] @ replicate 14 7 @ [8])]"
proof -
  let ?ps = "[replicate 14 7, [8 :: byte]]"
  let ?c = "disk_ctx ?ps"
  let ?pk = "header_bytes 29 MTP_CONTAINER_TYPE_DATA 0x100D 9 @ [1, 2]"
  let ?rq = "header_bytes 16 1 0x1009 10 @ le32 1"
  have up: "upload_data ?pk 14 ?ps = [1, 2] @ replicate 14 7 @ [8]"
    by (simp add: upload_data_def header_bytes_def le32_def le16_def)
  have hdr: "hdr_operation ?pk = MTP_CONTAINER_TYPE_DATA" "hdr_code ?pk \<noteq> MTP_OPERATION_SEND_PARTIAL_OBJECT"
    "hdr_code ?rq = 0x1009" "hdr_tx_id ?rq = 10" "param ?rq 0 = 1"
    by code_simp+
  have ready: "link_ready disk_os ?c 6" by (simp add: link_ready_def disk_ctx_def disk_os_def)
  have db: "the_db ?c = sample_db" "storages ?c = sample_storages" by (simp_all add: disk_ctx_def the_db_def)
  have acc: "check_handle_access (storages ?c) (the_db ?c) (Some (Suc 0)) 1 True = None"
    by (simp add: check_handle_access_def db sample_pool has_flag_def)
  have look: "get_entry_by_handle (storages ?c) (the_db ?c) 1 = Some (Suc 0)" by (simp add: db sample_entry)
  have cl: "container_length 17 = 29" by code_simp
  have host: "receiving ?c 14" "follow_up 14 14 ?ps" "snd (world ?c) = ?ps @ []" "fs_db ?c \<noteq> None" "SendObjInfoHandle ?c = 1"
    "SendObjInfoOffset ?c = 0" "(1 :: u32) \<noteq> 0xFFFFFFFF"
    by (simp_all add: receiving_def disk_ctx_def follow_up_def transfer_of_def)
  have z: "zlp ?c (12 + 17) = []" "usb_wr_buffer_max_size ?c = 64" "usb_out ?c = []" by (simp_all add: zlp_def disk_ctx_def)
  have len: "int (length ([1, 2] @ replicate 14 7 @ [8 :: byte])) = 17" by simp
  have one: "chunks (nat 64) (header_bytes 29 MTP_CONTAINER_TYPE_DATA 0x1009 10 @ [1, 2] @ replicate 14 7 @ [8])
      = [header_bytes 29 MTP_CONTAINER_TYPE_DATA 0x1009 10 @ [1, 2] @ replicate 14 7 @ [8]]"
    by (rule chunks_short) simp
  show ?thesis
    using upload_download[OF disk_os_posix disk_object ready host(4,5,7) look acc host(6) hdr(1,2) host(1-3) hdr(5) up[symmetric]]
    unfolding hdr(3,4) len cl z one by simp
qed

section \<open>Announcement\<close>

lemma incoming_name_safe:
  "incoming_name dataset = Some nm \<Longrightarrow> nm \<noteq> [] \<and> SLASH \<notin> set nm \<and> \<not> strstr_dotdot nm"
proof -
  assume "incoming_name dataset = Some nm"
  then obtain s where "sanitize_name (Some s) 257 = (Some nm, 1)"
    by (auto simp: incoming_name_def Let_def split: option.splits prod.splits if_splits)
  moreover have "is_forbidden_ascii 0x2F" by (simp add: is_forbidden_ascii_def)
  ultimately show ?thesis using sanitize_name_post by (force simp: list_all_iff)
qed

text \<open>A data set that asks for a file: its name and the folder it goes into.\<close>

definition announces :: "'w mtp_ctx \<Rightarrow> buffer \<Rightarrow> u32 \<Rightarrow> u32 \<Rightarrow> cstr \<Rightarrow> ptr \<Rightarrow> bool" where
  "announces ctx datain parent sid nm d \<longleftrightarrow>
     hdr_code datain = MTP_OPERATION_SEND_OBJECT_INFO \<and> incoming_name (drop 12 datain) = Some nm \<and>
     peek (drop 12 datain) 4 2 \<noteq> MTP_FORMAT_ASSOCIATION \<and>
     mtp_get_storage_root (storages ctx) sid \<noteq> None \<and> mtp_get_storage_flags (storages ctx) sid \<noteq> 0xFFFFFFFF \<and>
     \<not> has_flag (mtp_get_storage_flags (storages ctx) sid) UMTP_STORAGE_READONLY \<and>
     get_entry_by_handle_and_storageid (the_db ctx) parent sid = Some d \<and>
     has_flag (e_flags (entry_at (the_db ctx) d)) ENTRY_IS_DIR"

lemma posix_files_open:
  assumes "posix_files os t" "os_open os w path fl = (w', fd)" "0 < fd"
  shows "t w' = posix_open path fl fd (t w)"
proof -
  have "\<forall>w path fl. 0 < snd (os_open os w path fl) \<longrightarrow>
      t (fst (os_open os w path fl)) = posix_open path fl (snd (os_open os w path fl)) (t w)"
    using assms(1) unfolding posix_files_def by (rule conjunct1)
  from this[rule_format, of w path fl] show ?thesis using assms(2,3) by simp
qed

lemma create_file_ok:
  assumes ps: "posix_files os t" "keeps_files os t" and path: "path_of os ctx p = Some folder" and sw: "may_switch os ctx sid"
    and op: "\<And>w fl. O_CREAT \<in> set fl \<Longrightarrow> 0 < snd (os_open os w (folder @ SLASH # nm) fl)"
    and new: "\<And>q. \<not> named (the_db ctx) nm parent sid q" and inv: "db_inv (the_db ctx)"
    and sup: "keeps_files os supply" "host_queue os n supply"
  shows "\<exists>w. create_file os ctx p nm sz parent sid =
      (ctx\<lparr>world := w, fs_db := Some (fst (alloc_entry (the_db ctx) \<lparr>isdirectory = False, filename = nm, fsize = uint sz\<rparr> parent sid)),
         SendObjInfoHandle := next_handle (the_db ctx), SendObjInfoSize := uint sz, SendObjInfoOffset := 0\<rparr>,
       MTP_RESPONSE_OK, next_handle (the_db ctx)) \<and> contents (t w) (folder @ SLASH # nm) = Some [] \<and> supply w = supply (world ctx)"
proof -
  let ?fl = "[O_WRONLY, O_CREAT, O_TRUNC, O_LARGEFILE]"
  let ?fi = "\<lparr>isdirectory = False, filename = nm, fsize = uint sz\<rparr>"
  obtain w1 where c1: "fst (set_storage_giduid os ctx sid) = ctx\<lparr>world := w1\<rparr>" using set_storage_giduid_world[of os ctx sid] by blast
  have "snd (set_storage_giduid os (ctx\<lparr>world := world ctx\<rparr>) sid) = 0" using sw unfolding may_switch_def by blast
  then have s1: "set_storage_giduid os ctx sid = (ctx\<lparr>world := w1\<rparr>, 0)" using c1 by (simp add: prod_eq_iff)
  obtain w2 fd where o: "os_open os w1 (folder @ SLASH # nm) ?fl = (w2, fd)" by fastforce
  have fd: "0 < fd" using op[of ?fl w1] o by simp
  have w2: "contents (t w2) (folder @ SLASH # nm) = Some []"
    unfolding posix_files_open[OF ps(1) o fd] by (simp add: posix_open_def)
  obtain w3 where c3: "fst (restore_giduid os (ctx\<lparr>world := w2\<rparr>)) = ctx\<lparr>world := w3\<rparr>"
    using restore_giduid_world[of os "ctx\<lparr>world := w2\<rparr>"] by auto
  have w3: "t w3 = t w2" using giduid_keeps(2)[OF ps(2), of "ctx\<lparr>world := w2\<rparr>"] by (simp add: c3)
  have none: "find_entry (the_db ctx) nm parent sid = None" using find_entry_iff(1)[OF inv] new by blast
  have ne: "e_handle (entry_at (fst (alloc_entry (the_db ctx) ?fi parent sid)) (length (pool (the_db ctx)))) = next_handle (the_db ctx)"
    by (simp add: alloc_entry_push new_entry_def)
  have "create_file os ctx p nm sz parent sid =
      (ctx\<lparr>world := os_close os w3 fd, fs_db := Some (fst (alloc_entry (the_db ctx) ?fi parent sid)),
         SendObjInfoHandle := next_handle (the_db ctx), SendObjInfoSize := uint sz, SendObjInfoOffset := 0\<rparr>,
       MTP_RESPONSE_OK, next_handle (the_db ctx))"
    unfolding create_file_def path option.case s1 Let_def prod.case
    using fd c3 ne by (simp add: o set_db_def add_entry_def search_entry_def none alloc_entry_push)
  moreover have "contents (t (os_close os w3 fd)) (folder @ SLASH # nm) = Some []"
    using ps(1) w2 w3 by (simp add: posix_files_def posix_close_def)
  moreover have "supply (os_close os w3 fd) = supply (world ctx)"
  proof -
    have "supply w2 = supply w1" using sup(2) o unfolding host_queue_def by (metis fst_conv)
    moreover have "supply w1 = supply (world ctx)" "supply w3 = supply w2"
      using giduid_keeps(1)[OF sup(1), of ctx sid] giduid_keeps(2)[OF sup(1), of "ctx\<lparr>world := w2\<rparr>"] by (simp_all add: c1 c3)
    ultimately show ?thesis using sup(2) by (simp add: host_queue_def)
  qed
  ultimately show ?thesis by blast
qed

lemma parse_announced:
  assumes "announces ctx datain (if parent = 0xFFFFFFFF then 0 else parent) sid nm d"
  shows "parse_incoming_dataset os ctx datain parent sid =
    create_file os ctx d nm (peek (drop 12 datain) 8 4) (if parent = 0xFFFFFFFF then 0 else parent) sid"
  using assms unfolding parse_incoming_dataset_def announces_def Let_def by simp

lemma SendObjectInfo_creates:
  assumes os: "posix_files os t" "keeps_files os t" "\<not> os_lock_fails os (world ctx)" "keeps_files os supply" "host_queue os n supply"
    and db: "fs_db ctx = Some db" "db_inv db"
    and rd: "read_block os (lock_inotify ctx) = (lock_inotify ctx\<lparr>world := w1, rdbuffer2 := datain\<rparr>, got)"
    and pk: "sid = param packet 0" "parent = (if param packet 1 = 0xFFFFFFFF then 0 else param packet 1)"
    and an: "announces ctx datain parent sid nm d" "\<And>q. \<not> named db nm parent sid q"
    and path: "path_of os (ctx\<lparr>world := w1\<rparr>) d = Some folder" and sw: "may_switch os ctx sid"
    and op: "\<And>w fl. O_CREAT \<in> set fl \<Longrightarrow> 0 < snd (os_open os w (folder @ SLASH # nm) fl)"
  shows "\<exists>w sz. mtp_op_SendObjectInfo os ctx packet =
      Some (ctx\<lparr>world := w, rdbuffer2 := datain, inotify_locked := False,
         fs_db := Some (fst (alloc_entry db \<lparr>isdirectory = False, filename = nm, fsize = sz\<rparr> parent sid)),
         SendObjInfoHandle := next_handle db, SendObjInfoSize := sz, SendObjInfoOffset := 0\<rparr>,
       MTP_RESPONSE_OK, [param packet 0, param packet 1, next_handle db]) \<and>
    contents (t w) (folder @ SLASH # nm) = Some [] \<and> supply w = supply w1"
proof -
  let ?sz = "uint (peek (drop 12 datain) 8 4)"
  let ?db = "fst (alloc_entry db \<lparr>isdirectory = False, filename = nm, fsize = ?sz\<rparr> parent sid)"
  let ?c1 = "lock_inotify ctx\<lparr>world := w1, rdbuffer2 := datain\<rparr>"
  have dbc: "the_db ctx = db" using db(1) by (simp add: the_db_def)
  have c1: "storages ?c1 = storages ctx" "the_db ?c1 = db" "world ?c1 = w1" "rdbuffer2 ?c1 = datain"
    using dbc by (simp_all add: lock_inotify_def the_db_def)
  have an1: "announces ?c1 datain parent sid nm d" using an(1) unfolding announces_def c1 dbc .
  have path1: "path_of os ?c1 d = Some folder" using path unfolding c1 by (simp add: dbc)
  have sw1: "may_switch os ?c1 sid"
  proof -
    have "snd (set_storage_giduid os (?c1\<lparr>world := w\<rparr>) sid) = snd (set_storage_giduid os (ctx\<lparr>world := w\<rparr>) sid)" for w
      by (rule set_storage_giduid_cong) (simp_all add: lock_inotify_def)
    then show ?thesis using sw by (simp add: may_switch_def)
  qed
  have new: "\<not> named (the_db ?c1) nm parent sid q" "db_inv (the_db ?c1)" for q using db(2) an(2) unfolding c1 by simp_all
  obtain w where cf: "create_file os ?c1 d nm (peek (drop 12 datain) 8 4) parent sid =
      (?c1\<lparr>world := w, fs_db := Some ?db, SendObjInfoHandle := next_handle db,
         SendObjInfoSize := ?sz, SendObjInfoOffset := 0\<rparr>, MTP_RESPONSE_OK, next_handle db)"
      "contents (t w) (folder @ SLASH # nm) = Some []" "supply w = supply w1"
    using create_file_ok[OF os(1,2) path1 sw1 op new os(4,5)] unfolding c1 by blast
  have "parse_incoming_dataset os ?c1 datain (param packet 1) sid =
      create_file os ?c1 d nm (peek (drop 12 datain) 8 4) parent sid"
    using parse_announced[of ?c1 datain "param packet 1" sid nm d os] an1 unfolding pk(2) by blast
  then have "mtp_op_SendObjectInfo os ctx packet =
      Some (unlock_inotify (?c1\<lparr>world := w, fs_db := Some ?db, SendObjInfoHandle := next_handle db,
         SendObjInfoSize := ?sz, SendObjInfoOffset := 0\<rparr>), MTP_RESPONSE_OK, [param packet 0, param packet 1, next_handle db])"
    using os(3) db(1) rd pk(1) cf(1) by (simp add: mtp_op_SendObjectInfo_def in_session_def locked_def Let_def c1)
  moreover have "unlock_inotify (?c1\<lparr>world := w, fs_db := Some ?db, SendObjInfoHandle := next_handle db,
         SendObjInfoSize := ?sz, SendObjInfoOffset := 0\<rparr>) =
      ctx\<lparr>world := w, rdbuffer2 := datain, inotify_locked := False, fs_db := Some ?db, SendObjInfoHandle := next_handle db,
         SendObjInfoSize := ?sz, SendObjInfoOffset := 0\<rparr>"
    by (cases ctx) (simp add: unlock_inotify_def lock_inotify_def)
  ultimately show ?thesis using cf(2,3) by (intro exI[of _ w] exI[of _ ?sz]) simp
qed

text \<open>The new entry is found under its handle.\<close>

lemma new_entry_found:
  assumes "db_inv db" "db_room db" "\<And>q. \<not> named db nm parent sid q" "mtp_get_storage_root sts sid \<noteq> None"
    and db'_def: "db' = fst (alloc_entry db \<lparr>isdirectory = False, filename = nm, fsize = sz\<rparr> parent sid)"
  shows "db_inv db' \<and> named db' nm parent sid (length (pool db)) \<and>
    get_entry_by_handle sts db' (next_handle db) = Some (length (pool db)) \<and> length (pool db) \<in> ptrs db' \<and>
    entry_at db' (length (pool db)) = new_entry db \<lparr>isdirectory = False, filename = nm, fsize = sz\<rparr> parent sid"
proof -
  let ?q = "length (pool db)"
  have inv: "db_inv db'" unfolding db'_def by (rule db_inv_alloc_entry[OF assms(1,2)])
  have nm: "named db' nm parent sid ?q"
    using named_alloc_entry[of db "\<lparr>isdirectory = False, filename = nm, fsize = sz\<rparr>" parent sid nm parent sid ?q] assms(3)
    by (simp add: db'_def)
  have e: "entry_at db' ?q = new_entry db \<lparr>isdirectory = False, filename = nm, fsize = sz\<rparr> parent sid"
    by (simp add: db'_def alloc_entry_push)
  have "next_handle db \<noteq> 0" using assms(1) by (simp add: db_inv_def handles_ok_def word_neq_0_conv)
  then have "get_entry_by_handle sts db' (next_handle db) = Some ?q"
    using get_entry_by_handle_eq[OF inv] nm assms(4) e by (simp add: named_def new_entry_def)
  then show ?thesis using inv nm e by (simp add: named_def live_def)
qed

text \<open>C12. A new object. \<open>SendObjectInfo\<close> for a file in a folder of a storage the host may write to creates an empty
  file of the cleaned name in that folder and nowhere else, gives the object the next handle, under which it
  is found from then on, tells the host this handle, and has the next \<open>SendObject\<close> write to it from its start. The
  name has no slash and no two dots.\<close>

theorem new_object_announced:
  assumes "posix_files os t" "keeps_files os t" "\<not> os_lock_fails os (world ctx)"
    "fs_db ctx = Some db" "db_inv db" "db_room db"
    "read_block os (lock_inotify ctx) = (lock_inotify ctx\<lparr>world := w1, rdbuffer2 := datain\<rparr>, got)"
    "sid = param packet 0" "parent = (if param packet 1 = 0xFFFFFFFF then 0 else param packet 1)"
    "announces ctx datain parent sid nm d" "\<And>q. \<not> named db nm parent sid q"
    "path_of os (ctx\<lparr>world := w1\<rparr>) d = Some folder" "may_switch os ctx sid"
    "\<And>w fl. O_CREAT \<in> set fl \<Longrightarrow> 0 < snd (os_open os w (folder @ SLASH # nm) fl)"
  shows "\<exists>ctx' q. mtp_op_SendObjectInfo os ctx packet =
      Some (ctx', MTP_RESPONSE_OK, [param packet 0, param packet 1, next_handle db]) \<and>
    contents (t (world ctx')) (folder @ SLASH # nm) = Some [] \<and>
    nm \<noteq> [] \<and> SLASH \<notin> set nm \<and> \<not> strstr_dotdot nm \<and>
    db_inv (the_db ctx') \<and> named (the_db ctx') nm parent sid q \<and>
    get_entry_by_handle (storages ctx') (the_db ctx') (next_handle db) = Some q \<and>
    SendObjInfoHandle ctx' = next_handle db \<and> SendObjInfoOffset ctx' = 0 \<and> \<not> inotify_locked ctx'"
proof -
  have triv: "keeps_files os (\<lambda>_. [])" "host_queue os 0 (\<lambda>_. [])" by (simp_all add: keeps_files_def host_queue_def)
  obtain w sz where run: "mtp_op_SendObjectInfo os ctx packet =
      Some (ctx\<lparr>world := w, rdbuffer2 := datain, inotify_locked := False,
         fs_db := Some (fst (alloc_entry db \<lparr>isdirectory = False, filename = nm, fsize = sz\<rparr> parent sid)),
         SendObjInfoHandle := next_handle db, SendObjInfoSize := sz, SendObjInfoOffset := 0\<rparr>,
       MTP_RESPONSE_OK, [param packet 0, param packet 1, next_handle db])"
    "contents (t w) (folder @ SLASH # nm) = Some []"
    using SendObjectInfo_creates[OF assms(1-3) triv assms(4,5,7-14)] by blast
  have "mtp_get_storage_root (storages ctx) sid \<noteq> None" using assms(10) by (simp add: announces_def)
  note found = new_entry_found[OF assms(5,6,11) this refl, of sz]
  have "nm \<noteq> [] \<and> SLASH \<notin> set nm \<and> \<not> strstr_dotdot nm"
    using incoming_name_safe[of "drop 12 datain" nm] assms(10) by (simp add: announces_def)
  with run found show ?thesis by (simp add: the_db_def)
qed

text \<open>The data set of an empty file \<open>b\<close>, 73 bytes with the header.\<close>

definition sample_dataset :: buffer where
  "sample_dataset = header_bytes 73 MTP_CONTAINER_TYPE_DATA MTP_OPERATION_SEND_OBJECT_INFO 7 @ replicate 52 0 @ [2] @ le16 0x62 @ le16 0
     @ [0, 0, 0, 0]"

lemma sample_dataset_name: "incoming_name (drop 12 sample_dataset) = Some [0x62]"
  by code_simp

lemma sample_dataset_fields:
  "hdr_code sample_dataset = MTP_OPERATION_SEND_OBJECT_INFO" "peek (drop 12 sample_dataset) 4 2 = 0" "peek (drop 12 sample_dataset) 8 4 = 0"
  by code_simp+
definition announce_ctx :: "(file_table \<times> byte list list) mtp_ctx" where
  "announce_ctx = (disk_ctx [sample_dataset])\<lparr>usb_rd_buffer_max_size := 128, rdbuffer2 := []\<rparr>"

theorem new_object_announced_witness:
  "\<exists>ctx' q. mtp_op_SendObjectInfo disk_os announce_ctx (header_bytes 20 1 0x100C 7 @ le32 0xFFFF0001 @ le32 0xFFFFFFFF) =
      Some (ctx', MTP_RESPONSE_OK, [0xFFFF0001, 0xFFFFFFFF, 2]) \<and>
    contents (fst (world ctx')) [0x2F, 0x72, 0x2F, 0x2F, 0x2F, 0x62] = Some [] \<and>
    get_entry_by_handle (storages ctx') (the_db ctx') 2 = Some q \<and> SendObjInfoHandle ctx' = 2"
proof -
  let ?pk = "header_bytes 20 1 0x100C 7 @ le32 0xFFFF0001 @ le32 0xFFFFFFFF"
  let ?c = "lock_inotify announce_ctx"
  have pk: "param ?pk 0 = 0xFFFF0001" "param ?pk 1 = 0xFFFFFFFF" by code_simp+
  have ps: "posix_files disk_os fst" "keeps_files disk_os fst" using disk_os_posix[of 0] by (simp_all add: posix_os_def)
  have db: "fs_db announce_ctx = Some sample_db" "storages announce_ctx = sample_storages"
    by (simp_all add: announce_ctx_def disk_ctx_def)
  have room: "db_room sample_db" by (simp add: db_room_def sample_pool)
  have nx: "next_handle sample_db = 2" by (simp add: sample_db_def alloc_entry_push alloc_root_entry_push) (simp add: init_fs_db_def)
  have rd: "read_block disk_os ?c = (?c\<lparr>world := (empty_disk, []), rdbuffer2 := sample_dataset\<rparr>, Some sample_dataset)"
    by (simp add: read_block_def read_usb_def after_transfer_def announce_ctx_def disk_ctx_def lock_inotify_def disk_os_def)
  have root: "get_entry_by_handle_and_storageid sample_db 0 0xFFFF0001 = Some 0"
    by (simp add: get_entry_by_handle_and_storageid_def sample_list sample_pool deleted_def has_flag_def root_entry_def)
  have an: "announces announce_ctx sample_dataset 0 0xFFFF0001 [0x62] 0"
    by (simp add: announces_def sample_dataset_name sample_dataset_fields db the_db_def root sample_pool root_entry_def has_flag_def)
  have new: "\<not> named sample_db [0x62] 0 0xFFFF0001 q" for q
    by (cases "q = 0"; cases "q = Suc 0") (auto simp: named_def live_def ptrs_def sample_pool root_entry_def)
  have path: "path_of disk_os (announce_ctx\<lparr>world := w\<rparr>) 0 = Some [0x2F, 0x72, 0x2F, 0x2F]" for w
    by (simp add: build_full_path_def full_path_of_def parent_chain_end chain_end_def sample_pool disk_os_def db the_db_def root_entry_def)
  have sw: "may_switch disk_os announce_ctx 0xFFFF0001"
    unfolding may_switch_def by (intro allI, subst unset_giduid(2)) (simp_all add: announce_ctx_def disk_ctx_def)
  have op: "O_CREAT \<in> set fl \<Longrightarrow> 0 < snd (os_open disk_os w ([0x2F, 0x72, 0x2F, 0x2F] @ SLASH # [0x62]) fl)" for w fl
    by (simp add: disk_os_def)
  have nl: "\<not> os_lock_fails disk_os (world announce_ctx)" by (simp add: disk_os_def)
  show ?thesis
    using new_object_announced[OF ps nl db(1) sample_db_inv room rd pk(1)[symmetric] _ an new path sw op]
    unfolding pk nx by (simp add: announce_ctx_def) blast
qed

end
