(* ===== verification/Conversation.thy ===== *)
theory Conversation
  imports Daemon RoundTrip
begin

text \<open>
  A conversation with a host, packet by packet: it announces a file, sends it and asks for it back. The rounds are
  those of the io thread of \<open>src/umtprd.c\<close>, the answers everything the responder puts on the link.
\<close>

section \<open>One packet\<close>

lemma peek_append: "i + k \<le> length pk \<Longrightarrow> peek (pk @ r) i k = peek pk i k"
proof -
  have "i + k \<le> length pk \<Longrightarrow> peek_loop (pk @ r) i k s d = peek_loop pk i k s d" for s d
    by (induction k arbitrary: i s d) (simp_all add: nth_append)
  then show "i + k \<le> length pk \<Longrightarrow> ?thesis" by (simp add: peek_def)
qed

lemma header_append:
  "12 \<le> length pk \<Longrightarrow> hdr_code (pk @ r) = hdr_code pk" "12 \<le> length pk \<Longrightarrow> hdr_operation (pk @ r) = hdr_operation pk"
  "12 \<le> length pk \<Longrightarrow> hdr_tx_id (pk @ r) = hdr_tx_id pk" "16 + 4 * k \<le> length pk \<Longrightarrow> param (pk @ r) k = param pk k"
  by (simp_all add: hdr_code_def hdr_operation_def hdr_tx_id_def param_def peek_append)

text \<open>The link and the buffers of a session, and what no operation of a conversation changes.\<close>

definition conversing :: "'w os \<Rightarrow> int \<Rightarrow> nat \<Rightarrow> 'w mtp_ctx \<Rightarrow> bool" where
  "conversing os n k ctx \<longleftrightarrow> link_ready os ctx k \<and> receiving ctx n \<and> 24 < usb_wr_buffer_max_size ctx"

definition same_session :: "'w mtp_ctx \<Rightarrow> 'w mtp_ctx \<Rightarrow> bool" where
  "same_session c c' \<longleftrightarrow> usb_ctx c' = usb_ctx c \<and> cancel_req c' = cancel_req c \<and>
     usb_wr_buffer_max_size c' = usb_wr_buffer_max_size c \<and> usb_rd_buffer_max_size c' = usb_rd_buffer_max_size c \<and>
     length (wrbuffer c') = length (wrbuffer c) \<and> read_file_buffer c' = read_file_buffer c \<and>
     read_file_buffer_size c' = read_file_buffer_size c \<and> storages c' = storages c \<and> max_packet_size c' = max_packet_size c \<and>
     default_uid c' = default_uid c \<and> default_gid c' = default_gid c"

lemma same_session_refl [simp]: "same_session c c"
  by (simp add: same_session_def)

lemma same_session_trans [trans]: "same_session a b \<Longrightarrow> same_session b c \<Longrightarrow> same_session a c"
  by (simp add: same_session_def)

lemma conversing_same: "same_session c c' \<Longrightarrow> conversing os n k c' = conversing os n k c"
  by (simp add: same_session_def conversing_def link_ready_def receiving_def)

text \<open>A round takes the next packet of the host and processes it.\<close>

lemma io_round_packet:
  assumes os: "posix_os os t n supply" and cv: "conversing os n k c" and pk: "supply (world c) = pk # rest" "pk \<noteq> []"
  shows "\<exists>w. supply w = rest \<and> t w = t (world c) \<and> io_round os c = process_in_packet os
    (c\<lparr>world := w, rdbuffer := pk @ drop (length pk) (rdbuffer c)\<rparr>) (pk @ drop (length pk) (rdbuffer c)) (int (length pk))"
proof -
  define w where "w = fst (os_ep_read os (world c) n)"
  have w: "os_ep_read os (world c) n = (w, Some pk)" "supply w = rest" "t w = t (world c)" "\<not> os_cancel os w"
    using os pk(1) by (simp_all add: posix_os_def host_queue_def link_keeps_def w_def prod_eq_iff)
  let ?c = "c\<lparr>world := w, rdbuffer := pk @ drop (length pk) (rdbuffer c)\<rparr>"
  have "read_usb os c n = (c\<lparr>world := w\<rparr>, Some pk)"
    using cv w by (simp add: conversing_def receiving_def read_usb_def after_transfer_def)
  then have "io_round os c = process_in_packet os ?c (pk @ drop (length pk) (rdbuffer c)) (int (length pk))"
    using cv pk(2) by (simp add: io_round_def mtp_incoming_packet_def Let_def conversing_def receiving_def split: option.split)
  then show ?thesis using w(2,3) by blast
qed

lemma send_status_keeps:
  assumes "\<And>w ep bs. f (fst (os_ep_write os w ep bs)) = f w"
  shows "f (world (send_status os c tx code ps)) = f (world c)"
proof -
  have "f (world (fst (write_usb os d ch bs))) = f (world d)" for d ch bs
    using assms by (auto simp: write_usb_def after_transfer_def split: prod.splits) (metis fst_conv)
  then show ?thesis by (simp add: send_status_def Let_def split: prod.split)
qed

text \<open>The packet of a response.\<close>

definition response_packet :: "u16 \<Rightarrow> u32 \<Rightarrow> u32 list \<Rightarrow> byte list" where
  "response_packet code tx ps =
    header_bytes (12 + 4 * word_of_nat (length ps)) MTP_CONTAINER_TYPE_RESPONSE code tx @ concat (map le32 ps)"

lemma respond:
  assumes os: "posix_os os t n supply" and cv: "conversing os n k c" and ps: "length ps \<le> 3" "code \<noteq> MTP_RESPONSE_NO_RESPONSE"
  shows "\<exists>b w. send_status os c tx code ps = c\<lparr>wrbuffer := b, world := w, usb_out := usb_out c @ [(0, response_packet code tx ps)]\<rparr> \<and>
    length b = length (wrbuffer c) \<and> supply w = supply (world c) \<and> t w = t (world c)"
proof -
  have up: "link_up os c" "12 + 4 * int (length ps) < usb_wr_buffer_max_size c" "usb_wr_buffer_max_size c \<le> int (length (wrbuffer c))"
    using cv ps(1) by (auto simp: conversing_def link_ready_def link_up_def)
  let ?b = "write_at (wrbuffer c) 0 (response_packet code tx ps)"
  obtain w where w: "send_status os c tx code ps = c\<lparr>wrbuffer := ?b, world := w, usb_out := usb_out c @ [(0, response_packet code tx ps)]\<rparr>"
    using send_status_up[OF up ps(2), of tx] unfolding response_packet_def by blast
  have len: "length (concat (map le32 xs)) = 4 * length xs" for xs by (induction xs) simp_all
  then have "length ?b = length (wrbuffer c)" using up(2,3) by (simp add: response_packet_def)
  moreover have "supply (world (send_status os c tx code ps)) = supply (world c)" "t (world (send_status os c tx code ps)) = t (world c)"
    using os by (intro send_status_keeps; simp add: posix_os_def link_keeps_def host_queue_def)+
  ultimately show ?thesis using w by (intro exI[of _ ?b] exI[of _ w]) simp
qed


lemma round_answers:
  assumes "dispatch os d pk sz = Some (c, code, ps)" "io_round os ctx = process_in_packet os d pk sz"
  shows "io_round os ctx = Some (send_status os c (hdr_tx_id pk) code ps)"
  using assms by (simp add: process_in_packet_def)

lemma read_block_packet:
  assumes os: "posix_os os t n supply" and cv: "conversing os n k c" and pk: "supply (world c) = pk # rest"
  shows "\<exists>w. read_block os c = (c\<lparr>world := w, rdbuffer2 := pk @ drop (length pk) (rdbuffer2 c)\<rparr>, Some pk) \<and> supply w = rest"
proof -
  define w where "w = fst (os_ep_read os (world c) n)"
  have w: "os_ep_read os (world c) n = (w, Some pk)" "supply w = rest" "\<not> os_cancel os w"
    using os pk(1) by (simp_all add: posix_os_def host_queue_def link_keeps_def w_def prod_eq_iff)
  have "read_usb os c n = (c\<lparr>world := w\<rparr>, Some pk)"
    using cv w by (simp add: conversing_def receiving_def read_usb_def after_transfer_def)
  then have "read_block os c = (c\<lparr>world := w, rdbuffer2 := pk @ drop (length pk) (rdbuffer2 c)\<rparr>, Some pk)"
    using cv by (simp add: read_block_def conversing_def receiving_def)
  then show ?thesis using w(2) by blast
qed

lemma dispatched:
  "hdr_code pk = MTP_OPERATION_SEND_OBJECT_INFO \<Longrightarrow> dispatch os c pk sz = mtp_op_SendObjectInfo os c pk"
  "hdr_code pk = MTP_OPERATION_SEND_OBJECT \<Longrightarrow> dispatch os c pk sz = mtp_op_SendObject os c pk sz"
  "hdr_code pk = MTP_OPERATION_GET_OBJECT \<Longrightarrow> dispatch os c pk sz = mtp_op_GetObject os c pk"
  by (simp_all add: dispatch_def Let_def)

section \<open>The four rounds\<close>

text \<open>The database once a file is announced under the next handle.\<close>

definition new_file :: "fs_handles_db \<Rightarrow> u32 \<Rightarrow> u32 \<Rightarrow> cstr \<Rightarrow> int \<Rightarrow> fs_handles_db" where
  "new_file db parent sid nm sz = fst (alloc_entry db \<lparr>isdirectory = False, filename = nm, fsize = sz\<rparr> parent sid)"

lemma round_announce:
  assumes os: "posix_os os t n supply" and cv: "conversing os n k ctx"
    and db: "fs_db ctx = Some db" "db_inv db"
    and host: "supply (world ctx) = info # ds # rest" "20 \<le> length info" "hdr_code info = MTP_OPERATION_SEND_OBJECT_INFO"
    and pk: "sid = param info 0" "parent = (if param info 1 = 0xFFFFFFFF then 0 else param info 1)"
    and an: "announces ctx (ds @ drop (length ds) (rdbuffer2 ctx)) parent sid nm d" "\<And>q. \<not> named db nm parent sid q"
    and path: "\<And>w. path_of os (ctx\<lparr>world := w\<rparr>) d = Some folder" and sw: "may_switch os ctx sid"
    and op: "\<And>w fl. O_CREAT \<in> set fl \<Longrightarrow> 0 < snd (os_open os w (folder @ SLASH # nm) fl)"
  shows "\<exists>c sz. io_round os ctx = Some c \<and> same_session ctx c \<and> supply (world c) = rest \<and>
    usb_out c = usb_out ctx @ [(0, response_packet MTP_RESPONSE_OK (hdr_tx_id info) [param info 0, param info 1, next_handle db])] \<and>
    fs_db c = Some (new_file db parent sid nm sz) \<and> SendObjInfoHandle c = next_handle db \<and> SendObjInfoOffset c = 0"
proof -
  let ?pk = "info @ drop (length info) (rdbuffer ctx)" and ?ds = "ds @ drop (length ds) (rdbuffer2 ctx)"
  have hd: "hdr_code ?pk = hdr_code info" "hdr_tx_id ?pk = hdr_tx_id info" "param ?pk 0 = param info 0" "param ?pk 1 = param info 1"
    using host(2) by (simp_all add: header_append)
  have ne: "info \<noteq> []" using host(2) by auto
  obtain w0 where w0: "supply w0 = ds # rest"
    "io_round os ctx = process_in_packet os (ctx\<lparr>world := w0, rdbuffer := ?pk\<rparr>) ?pk (int (length info))"
    using io_round_packet[OF os cv host(1) ne] by blast
  define c0 where "c0 = ctx\<lparr>world := w0, rdbuffer := ?pk\<rparr>"
  have ss: "same_session ctx c0" "same_session ctx (lock_inotify c0)" by (simp_all add: same_session_def c0_def lock_inotify_def)
  have cvl: "conversing os n k (lock_inotify c0)" unfolding conversing_same[OF ss(2)] by (rule cv)
  have c0: "fs_db c0 = Some db" "the_db c0 = the_db ctx" "storages c0 = storages ctx" "usb_out c0 = usb_out ctx"
    "supply (world (lock_inotify c0)) = ds # rest" "rdbuffer2 (lock_inotify c0) = rdbuffer2 ctx"
    using db(1) w0(1) by (simp_all add: c0_def the_db_def lock_inotify_def)
  obtain w1 where rd: "read_block os (lock_inotify c0) = (lock_inotify c0\<lparr>world := w1, rdbuffer2 := ?ds\<rparr>, Some ds)" "supply w1 = rest"
    using read_block_packet[OF os cvl c0(5)] unfolding c0(6) by blast
  have an0: "announces c0 ?ds parent sid nm d" using an(1) unfolding announces_def c0(2,3) .
  have path0: "path_of os (c0\<lparr>world := w1\<rparr>) d = Some folder" using path[of w1] by (simp add: c0_def the_db_def)
  have sw0: "may_switch os c0 sid"
  proof -
    have "snd (set_storage_giduid os (c0\<lparr>world := w\<rparr>) sid) = snd (set_storage_giduid os (ctx\<lparr>world := w\<rparr>) sid)" for w
      by (rule set_storage_giduid_cong) (simp_all add: c0_def)
    then show ?thesis using sw by (simp add: may_switch_def)
  qed
  have oss: "posix_files os t" "keeps_files os t" "\<not> os_lock_fails os (world c0)" "keeps_files os supply" "host_queue os n supply"
    using os by (simp_all add: posix_os_def)
  obtain w sz where run: "mtp_op_SendObjectInfo os c0 ?pk =
      Some (c0\<lparr>world := w, rdbuffer2 := ?ds, inotify_locked := False, fs_db := Some (new_file db parent sid nm sz),
         SendObjInfoHandle := next_handle db, SendObjInfoSize := sz, SendObjInfoOffset := 0\<rparr>,
       MTP_RESPONSE_OK, [param info 0, param info 1, next_handle db])" "supply w = supply w1"
    using SendObjectInfo_creates[OF oss c0(1) db(2) rd(1) _ _ an0 an(2) path0 sw0 op, of ?pk] pk unfolding hd new_file_def by blast
  define c1 where "c1 = c0\<lparr>world := w, rdbuffer2 := ?ds, inotify_locked := False, fs_db := Some (new_file db parent sid nm sz),
         SendObjInfoHandle := next_handle db, SendObjInfoSize := sz, SendObjInfoOffset := 0\<rparr>"
  have s1: "same_session ctx c1" by (simp add: same_session_def c1_def c0_def)
  have cv1: "conversing os n k c1" unfolding conversing_same[OF s1] by (rule cv)
  have "dispatch os c0 ?pk (int (length info)) = Some (c1, MTP_RESPONSE_OK, [param info 0, param info 1, next_handle db])"
    using run(1) host(3) hd(1) by (simp add: dispatched c1_def)
  note io = round_answers[OF this w0(2)[folded c0_def], unfolded hd]
  obtain b w2 where st: "send_status os c1 (hdr_tx_id info) MTP_RESPONSE_OK [param info 0, param info 1, next_handle db] =
      c1\<lparr>wrbuffer := b, world := w2, usb_out := usb_out c1 @
        [(0, response_packet MTP_RESPONSE_OK (hdr_tx_id info) [param info 0, param info 1, next_handle db])]\<rparr>"
     "length b = length (wrbuffer c1)" "supply w2 = supply (world c1)"
    using respond[OF os cv1, of "[param info 0, param info 1, next_handle db]" MTP_RESPONSE_OK "hdr_tx_id info"] by auto
  let ?c2 = "c1\<lparr>wrbuffer := b, world := w2, usb_out := usb_out c1 @
    [(0, response_packet MTP_RESPONSE_OK (hdr_tx_id info) [param info 0, param info 1, next_handle db])]\<rparr>"
  have "same_session ctx ?c2 \<and> supply (world ?c2) = rest \<and>
    usb_out ?c2 = usb_out ctx @ [(0, response_packet MTP_RESPONSE_OK (hdr_tx_id info) [param info 0, param info 1, next_handle db])] \<and>
    fs_db ?c2 = Some (new_file db parent sid nm sz) \<and> SendObjInfoHandle ?c2 = next_handle db \<and> SendObjInfoOffset ?c2 = 0"
    using st(2,3) rd(2) run(2) by (simp add: same_session_def c1_def c0_def)
  then show ?thesis unfolding io st(1) by blast
qed


text \<open>The command of the second transaction is taken without an answer: the data phase follows.\<close>

lemma round_command:
  assumes os: "posix_os os t n supply" and cv: "conversing os n k ctx"
    and host: "supply (world ctx) = cmd # rest" "12 \<le> length cmd" "hdr_code cmd = MTP_OPERATION_SEND_OBJECT"
      "hdr_operation cmd = MTP_CONTAINER_TYPE_COMMAND"
    and handle: "fs_db ctx = Some db" "SendObjInfoHandle ctx = h" "h \<noteq> 0xFFFFFFFF"
      "check_handle_access (storages ctx) db None h True = None"
  shows "\<exists>c. io_round os ctx = Some c \<and> same_session ctx c \<and> supply (world c) = rest \<and> usb_out c = usb_out ctx \<and>
    fs_db c = Some db \<and> SendObjInfoHandle c = h \<and> SendObjInfoOffset c = SendObjInfoOffset ctx"
proof -
  let ?pk = "cmd @ drop (length cmd) (rdbuffer ctx)"
  have hd: "hdr_code ?pk = MTP_OPERATION_SEND_OBJECT" "hdr_operation ?pk = MTP_CONTAINER_TYPE_COMMAND"
    using host(2-4) by (simp_all add: header_append)
  have ne: "cmd \<noteq> []" using host(2) by auto
  obtain w where w: "supply w = rest"
    "io_round os ctx = process_in_packet os (ctx\<lparr>world := w, rdbuffer := ?pk\<rparr>) ?pk (int (length cmd))"
    using io_round_packet[OF os cv host(1) ne] by blast
  define c where "c = ctx\<lparr>world := w, rdbuffer := ?pk, inotify_locked := False\<rparr>"
  have "\<not> os_lock_fails os w" using os by (simp add: posix_os_def)
  then have "mtp_op_SendObject os (ctx\<lparr>world := w, rdbuffer := ?pk\<rparr>) ?pk (int (length cmd)) = Some (c, MTP_RESPONSE_NO_RESPONSE, [])"
    using handle hd by (simp add: mtp_op_SendObject_def in_session_def locked_def partial_command_def Let_def
      lock_inotify_def unlock_inotify_def the_db_def c_def)
  then have "io_round os ctx = Some (send_status os c (hdr_tx_id ?pk) MTP_RESPONSE_NO_RESPONSE [])"
    using round_answers[OF _ w(2)] by (simp only: dispatched(2)[OF hd(1)])
  then have "io_round os ctx = Some c" by (simp add: send_status_def)
  moreover have "same_session ctx c \<and> supply (world c) = rest \<and> usb_out c = usb_out ctx \<and>
    fs_db c = Some db \<and> SendObjInfoHandle c = h \<and> SendObjInfoOffset c = SendObjInfoOffset ctx"
    using handle w(1) by (simp add: c_def same_session_def)
  ultimately show ?thesis by blast
qed

lemma round_data:
  assumes os: "posix_os os t n supply" and cv: "conversing os n k ctx" and obj: "object_file os t ctx p path"
    and host: "supply (world ctx) = dat # ps @ rest" "hdr_code dat = MTP_OPERATION_SEND_OBJECT"
      "hdr_operation dat = MTP_CONTAINER_TYPE_DATA" "follow_up n (int (length dat)) ps"
    and handle: "fs_db ctx \<noteq> None" "SendObjInfoHandle ctx \<noteq> 0xFFFFFFFF"
      "get_entry_by_handle (storages ctx) (the_db ctx) (SendObjInfoHandle ctx) = Some p"
      "check_handle_access (storages ctx) (the_db ctx) (Some p) 0 True = None" "SendObjInfoOffset ctx = 0"
    and data: "data = drop 12 dat @ concat ps"
  shows "\<exists>c. io_round os ctx = Some c \<and> same_session ctx c \<and> supply (world c) = rest \<and>
    usb_out c = usb_out ctx @ [(0, response_packet MTP_RESPONSE_OK (hdr_tx_id dat) [])] \<and>
    fs_db c = Some (upd_entry p (\<lambda>e. e\<lparr>e_size := int (length data), e_fd := -1\<rparr>) (the_db ctx)) \<and>
    contents (t (world c)) path = Some data"
proof -
  let ?pk = "dat @ drop (length dat) (rdbuffer ctx)"
  have len: "12 \<le> length dat" using host(4) cv by (auto simp: follow_up_def conversing_def receiving_def)
  have hd: "hdr_code ?pk = MTP_OPERATION_SEND_OBJECT" "hdr_operation ?pk = MTP_CONTAINER_TYPE_DATA" "hdr_tx_id ?pk = hdr_tx_id dat"
    "hdr_code ?pk \<noteq> MTP_OPERATION_SEND_PARTIAL_OBJECT"
    using len host(2,3) by (simp_all add: header_append)
  have ne: "dat \<noteq> []" using len by auto
  have up: "upload_data ?pk (int (length dat)) ps = data" using len by (simp add: upload_data_def data)
  obtain w where w: "supply w = ps @ rest"
    "io_round os ctx = process_in_packet os (ctx\<lparr>world := w, rdbuffer := ?pk\<rparr>) ?pk (int (length dat))"
    using io_round_packet[OF os cv host(1) ne] by blast
  define c where "c = ctx\<lparr>world := w, rdbuffer := ?pk\<rparr>"
  have c: "fs_db c = fs_db ctx" "the_db c = the_db ctx" "storages c = storages ctx" "SendObjInfoHandle c = SendObjInfoHandle ctx"
    "SendObjInfoOffset c = SendObjInfoOffset ctx" "supply (world c) = ps @ rest"
    using w(1) by (simp_all add: c_def the_db_def)
  have rc: "receiving c n" using cv by (simp add: conversing_def receiving_def c_def)
  have oc: "object_file os t c p path"
    using obj by (intro object_file_cong[OF obj]) (simp_all add: c_def the_db_def object_file_def)
  obtain w' b s where run: "mtp_op_SendObject os c ?pk (int (length dat)) =
      Some (c\<lparr>world := w', rdbuffer2 := b, SendObjInfoSize := s, transferring_file_data := False, inotify_locked := False,
        fs_db := Some (upd_entry p (\<lambda>e. e\<lparr>e_size := int (length data), e_fd := -1\<rparr>) (the_db c))\<rparr>, MTP_RESPONSE_OK, [])"
      "content_at (t w') path = data" "contents (t w') path \<noteq> None" "supply w' = rest"
    using SendObject_stores[OF os oc _ _ _ _ _ hd(2,4) rc host(4) c(6)] handle unfolding c up by blast
  define c1 where "c1 = c\<lparr>world := w', rdbuffer2 := b, SendObjInfoSize := s, transferring_file_data := False, inotify_locked := False,
        fs_db := Some (upd_entry p (\<lambda>e. e\<lparr>e_size := int (length data), e_fd := -1\<rparr>) (the_db ctx))\<rparr>"
  have s1: "same_session ctx c1" by (simp add: same_session_def c1_def c_def)
  have cv1: "conversing os n k c1" unfolding conversing_same[OF s1] by (rule cv)
  have "dispatch os c ?pk (int (length dat)) = Some (c1, MTP_RESPONSE_OK, [])"
    using run(1) unfolding dispatched(2)[OF hd(1)] c1_def c(2) .
  note io = round_answers[OF this w(2)[folded c_def], unfolded hd]
  obtain b2 w2 where st: "send_status os c1 (hdr_tx_id dat) MTP_RESPONSE_OK [] =
      c1\<lparr>wrbuffer := b2, world := w2, usb_out := usb_out c1 @ [(0, response_packet MTP_RESPONSE_OK (hdr_tx_id dat) [])]\<rparr>"
     "length b2 = length (wrbuffer c1)" "supply w2 = supply (world c1)" "t w2 = t (world c1)"
    using respond[OF os cv1, of "[]" MTP_RESPONSE_OK "hdr_tx_id dat"] by auto
  let ?c2 = "c1\<lparr>wrbuffer := b2, world := w2, usb_out := usb_out c1 @ [(0, response_packet MTP_RESPONSE_OK (hdr_tx_id dat) [])]\<rparr>"
  have "contents (t w2) path = Some data" using st(4) run(2,3) by (auto simp: c1_def content_at_def)
  then have "same_session ctx ?c2 \<and> supply (world ?c2) = rest \<and>
    usb_out ?c2 = usb_out ctx @ [(0, response_packet MTP_RESPONSE_OK (hdr_tx_id dat) [])] \<and>
    fs_db ?c2 = Some (upd_entry p (\<lambda>e. e\<lparr>e_size := int (length data), e_fd := -1\<rparr>) (the_db ctx)) \<and>
    contents (t (world ?c2)) path = Some data"
    using st(2,3) run(4) by (simp add: same_session_def c1_def c_def)
  then show ?thesis unfolding io st(1) by blast
qed

lemma round_get:
  assumes os: "posix_os os t n supply" and cv: "conversing os n k ctx" and obj: "object_file os t ctx p path"
    and host: "supply (world ctx) = rq # rest" "16 \<le> length rq" "hdr_code rq = MTP_OPERATION_GET_OBJECT"
    and handle: "fs_db ctx \<noteq> None" "get_entry_by_handle (storages ctx) (the_db ctx) (param rq 0) = Some p"
      "check_handle_access (storages ctx) (the_db ctx) (Some p) (param rq 0) False = None"
    and data: "contents (t (world ctx)) path = Some data" "e_size (entry_at (the_db ctx) p) = int (length data)"
  shows "\<exists>c. io_round os ctx = Some c \<and> usb_out c = usb_out ctx @ map (Pair 0)
      (chunks (nat (usb_wr_buffer_max_size ctx))
         (header_bytes (container_length (int (length data))) MTP_CONTAINER_TYPE_DATA MTP_OPERATION_GET_OBJECT (hdr_tx_id rq) @ data)
       @ zlp ctx (12 + int (length data))) @ [(0, response_packet MTP_RESPONSE_OK (hdr_tx_id rq) [])]"
proof -
  let ?pk = "rq @ drop (length rq) (rdbuffer ctx)"
  have hd: "hdr_code ?pk = MTP_OPERATION_GET_OBJECT" "hdr_tx_id ?pk = hdr_tx_id rq" "param ?pk 0 = param rq 0"
    using host(2,3) by (simp_all add: header_append)
  have ne: "rq \<noteq> []" using host(2) by auto
  obtain w where w: "supply w = rest" "t w = t (world ctx)"
    "io_round os ctx = process_in_packet os (ctx\<lparr>world := w, rdbuffer := ?pk\<rparr>) ?pk (int (length rq))"
    using io_round_packet[OF os cv host(1) ne] by blast
  define c where "c = ctx\<lparr>world := w, rdbuffer := ?pk\<rparr>"
  have c: "fs_db c = fs_db ctx" "the_db c = the_db ctx" "storages c = storages ctx" "usb_out c = usb_out ctx"
    "usb_wr_buffer_max_size c = usb_wr_buffer_max_size ctx" "zlp c = zlp ctx" "t (world c) = t (world ctx)"
    using w(2) by (simp_all add: c_def the_db_def zlp_def fun_eq_iff)
  have rc: "link_ready os c k" using cv by (simp add: conversing_def link_ready_def c_def)
  have oc: "object_file os t c p path"
    using obj by (intro object_file_cong[OF obj]) (simp_all add: c_def the_db_def object_file_def)
  obtain c1 where run: "mtp_op_GetObject os c ?pk = Some (c1, MTP_RESPONSE_OK, [])"
    "usb_out c1 = usb_out ctx @ map (Pair 0) (chunks (nat (usb_wr_buffer_max_size ctx))
         (header_bytes (container_length (int (length data))) MTP_CONTAINER_TYPE_DATA MTP_OPERATION_GET_OBJECT (hdr_tx_id rq) @ data)
       @ zlp ctx (12 + int (length data)))" "response_ready os c1"
    using GetObject_sends[OF os oc rc, of ?pk data] handle data unfolding c hd by blast
  have "dispatch os c ?pk (int (length rq)) = Some (c1, MTP_RESPONSE_OK, [])" using run(1) by (simp only: dispatched(3)[OF hd(1)])
  note io = round_answers[OF this w(3)[folded c_def], unfolded hd]
  have "usb_out (send_status os c1 (hdr_tx_id rq) MTP_RESPONSE_OK []) =
      usb_out c1 @ [(0, response_packet MTP_RESPONSE_OK (hdr_tx_id rq) [])]"
    using send_status_up[of os c1 "[]" MTP_RESPONSE_OK "hdr_tx_id rq"] run(3) by (auto simp: response_ready_def response_packet_def)
  then show ?thesis unfolding io by (simp add: run(2))
qed


section \<open>The conversation\<close>

text \<open>The packets of the host: the announcement (its data set is apart), the command and the data phase of the
  upload, the request of what was uploaded.\<close>

definition host_packets :: "int \<Rightarrow> u32 \<Rightarrow> byte list \<Rightarrow> byte list \<Rightarrow> byte list \<Rightarrow> byte list list \<Rightarrow> byte list \<Rightarrow> bool" where
  "host_packets n h info cmd dat ps rq \<longleftrightarrow>
     20 \<le> length info \<and> hdr_code info = MTP_OPERATION_SEND_OBJECT_INFO \<and>
     12 \<le> length cmd \<and> hdr_code cmd = MTP_OPERATION_SEND_OBJECT \<and> hdr_operation cmd = MTP_CONTAINER_TYPE_COMMAND \<and>
     hdr_code dat = MTP_OPERATION_SEND_OBJECT \<and> hdr_operation dat = MTP_CONTAINER_TYPE_DATA \<and>
     follow_up n (int (length dat)) ps \<and>
     16 \<le> length rq \<and> hdr_code rq = MTP_OPERATION_GET_OBJECT \<and> param rq 0 = h"

text \<open>What the responder puts on the link, transfer by transfer: two responses, the container, the last response.\<close>

definition answers :: "'w mtp_ctx \<Rightarrow> u32 \<Rightarrow> byte list \<Rightarrow> byte list \<Rightarrow> byte list \<Rightarrow> byte list \<Rightarrow> byte list list" where
  "answers ctx h info dat rq data =
     [response_packet MTP_RESPONSE_OK (hdr_tx_id info) [param info 0, param info 1, h],
      response_packet MTP_RESPONSE_OK (hdr_tx_id dat) []] @
     chunks (nat (usb_wr_buffer_max_size ctx))
       (header_bytes (container_length (int (length data))) MTP_CONTAINER_TYPE_DATA MTP_OPERATION_GET_OBJECT (hdr_tx_id rq) @ data) @
     zlp ctx (12 + int (length data)) @ [response_packet MTP_RESPONSE_OK (hdr_tx_id rq) []]"

lemma fresh_handle: "db_inv db \<Longrightarrow> db_room db \<Longrightarrow> next_handle db \<noteq> 0xFFFFFFFF"
proof
  assume "db_inv db" "db_room db" "next_handle db = 0xFFFFFFFF"
  then have "unat (0xFFFFFFFF :: u32) \<le> 0x10000000" by (simp add: db_inv_def handles_ok_def db_room_def)
  then show False by simp
qed

lemma new_file_writable:
  assumes "announces ctx datain parent sid nm d" "\<not> has_flag (mtp_get_storage_flags (storages ctx) sid) UMTP_STORAGE_LOCKED"
    "db_inv db" "db_room db" "\<And>q. \<not> named db nm parent sid q"
  shows "get_entry_by_handle (storages ctx) (new_file db parent sid nm sz) (next_handle db) = Some (length (pool db))"
    "length (pool db) \<in> ptrs (new_file db parent sid nm sz)"
    "e_storage (entry_at (new_file db parent sid nm sz) (length (pool db))) = sid"
    "check_handle_access (storages ctx) (new_file db parent sid nm sz) (Some (length (pool db))) h wr = None"
    "check_handle_access (storages ctx) (new_file db parent sid nm sz) None (next_handle db) wr = None"
proof -
  have "mtp_get_storage_root (storages ctx) sid \<noteq> None" using assms(1) by (simp add: announces_def)
  note f = new_entry_found[OF assms(3-5) this new_file_def, of sz]
  show 1: "get_entry_by_handle (storages ctx) (new_file db parent sid nm sz) (next_handle db) = Some (length (pool db))"
    "length (pool db) \<in> ptrs (new_file db parent sid nm sz)" using f by blast+
  show 2: "e_storage (entry_at (new_file db parent sid nm sz) (length (pool db))) = sid" using f by (simp add: new_entry_def)
  show "check_handle_access (storages ctx) (new_file db parent sid nm sz) (Some (length (pool db))) h wr = None"
    "check_handle_access (storages ctx) (new_file db parent sid nm sz) None (next_handle db) wr = None"
    using assms(1,2) 1 2 by (simp_all add: check_handle_access_def announces_def)
qed

lemma host_conversation_ok:
  assumes os: "posix_os os t n supply" and cv: "conversing os n k ctx"
    and db: "fs_db ctx = Some db" "db_inv db" "db_room db"
    and host: "supply (world ctx) = [info, ds, cmd, dat] @ ps @ rq # rest" "host_packets n (next_handle db) info cmd dat ps rq"
    and pk: "sid = param info 0" "parent = (if param info 1 = 0xFFFFFFFF then 0 else param info 1)"
    and an: "announces ctx (ds @ drop (length ds) (rdbuffer2 ctx)) parent sid nm d" "\<And>q. \<not> named db nm parent sid q"
    and open_store: "\<not> has_flag (mtp_get_storage_flags (storages ctx) sid) UMTP_STORAGE_LOCKED" "may_switch os ctx sid"
    and folder: "\<And>w. path_of os (ctx\<lparr>world := w\<rparr>) d = Some folder"
      "\<And>w fl. O_CREAT \<in> set fl \<Longrightarrow> 0 < snd (os_open os w (folder @ SLASH # nm) fl)"
    and obj: "\<And>sz. object_file os t (ctx\<lparr>fs_db := Some (new_file db parent sid nm sz)\<rparr>) (length (pool db)) path"
    and data: "data = drop 12 dat @ concat ps"
  shows "\<exists>c. io_rounds os 4 ctx = Some c \<and> usb_out c = usb_out ctx @ map (Pair 0) (answers ctx (next_handle db) info dat rq data)"
proof -
  let ?h = "next_handle db" and ?q = "length (pool db)"
  have hp: "20 \<le> length info" "hdr_code info = MTP_OPERATION_SEND_OBJECT_INFO" "12 \<le> length cmd"
    "hdr_code cmd = MTP_OPERATION_SEND_OBJECT" "hdr_operation cmd = MTP_CONTAINER_TYPE_COMMAND"
    "hdr_code dat = MTP_OPERATION_SEND_OBJECT" "hdr_operation dat = MTP_CONTAINER_TYPE_DATA" "follow_up n (int (length dat)) ps"
    "16 \<le> length rq" "hdr_code rq = MTP_OPERATION_GET_OBJECT" "param rq 0 = ?h"
    using host(2) by (simp_all add: host_packets_def)
  have s0: "supply (world ctx) = info # ds # cmd # dat # ps @ rq # rest" using host(1) by simp
  obtain c1 sz where r1: "io_round os ctx = Some c1" "same_session ctx c1" "supply (world c1) = cmd # dat # ps @ rq # rest"
    "usb_out c1 = usb_out ctx @ [(0, response_packet MTP_RESPONSE_OK (hdr_tx_id info) [param info 0, param info 1, ?h])]"
    "fs_db c1 = Some (new_file db parent sid nm sz)" "SendObjInfoHandle c1 = ?h" "SendObjInfoOffset c1 = 0"
    using round_announce[OF os cv db(1,2) s0 hp(1,2) pk an folder(1) open_store(2) folder(2)] by blast
  let ?db = "new_file db parent sid nm sz"
  note new = new_file_writable[OF an(1) open_store(1) db(2,3) an(2), of sz]
  have st: "storages c1 = storages ctx" using r1(2) by (simp add: same_session_def)
  have cv1: "conversing os n k c1" unfolding conversing_same[OF r1(2)] by (rule cv)
  obtain c2 where r2: "io_round os c1 = Some c2" "same_session c1 c2" "supply (world c2) = dat # ps @ rq # rest" "usb_out c2 = usb_out c1"
    "fs_db c2 = Some ?db" "SendObjInfoHandle c2 = ?h" "SendObjInfoOffset c2 = 0"
    using round_command[OF os cv1 r1(3) hp(3-5) r1(5,6) fresh_handle[OF db(2,3)], unfolded st r1(7), OF new(5)] by blast
  have ss2: "same_session ctx c2" using r1(2) r2(2) by (rule same_session_trans)
  then have st2: "storages c2 = storages ctx" "default_uid c2 = default_uid ctx" "default_gid c2 = default_gid ctx"
    by (simp_all add: same_session_def)
  have db2: "the_db c2 = ?db" "fs_db c2 \<noteq> None" by (simp_all add: the_db_def r2(5))
  have cv2: "conversing os n k c2" unfolding conversing_same[OF ss2] by (rule cv)
  have o2: "object_file os t c2 ?q path"
    by (rule object_file_cong[OF obj[of sz]]) (use obj[of sz] st2 db2 in \<open>simp_all add: the_db_def object_file_def\<close>)
  have h2: "SendObjInfoHandle c2 \<noteq> 0xFFFFFFFF" using r2(6) fresh_handle[OF db(2,3)] by simp
  have l2: "get_entry_by_handle (storages c2) (the_db c2) (SendObjInfoHandle c2) = Some ?q"
    "check_handle_access (storages c2) (the_db c2) (Some ?q) 0 True = None"
    using new(1,4) by (simp_all add: st2 db2 r2(6))
  let ?f = "\<lambda>e. e\<lparr>e_size := int (length data), e_fd := -1\<rparr>"
  obtain c3 where r3: "io_round os c2 = Some c3" "same_session c2 c3" "supply (world c3) = rq # rest"
    "usb_out c3 = usb_out c2 @ [(0, response_packet MTP_RESPONSE_OK (hdr_tx_id dat) [])]"
    "fs_db c3 = Some (upd_entry ?q ?f ?db)" "contents (t (world c3)) path = Some data"
    using round_data[OF os cv2 o2 r2(3) hp(6-8) db2(2) h2 l2 r2(7) data] unfolding db2(1) by blast
  have ss3: "same_session ctx c3" using ss2 r3(2) by (rule same_session_trans)
  then have st3: "storages c3 = storages ctx" "default_uid c3 = default_uid c2" "default_gid c3 = default_gid c2" "storages c3 = storages c2"
    "usb_wr_buffer_max_size c3 = usb_wr_buffer_max_size ctx" "zlp c3 = zlp ctx"
    using st2 by (simp_all add: same_session_def zlp_def fun_eq_iff)
  have db3: "the_db c3 = upd_entry ?q ?f ?db" "fs_db c3 \<noteq> None" by (simp_all add: the_db_def r3(5))
  have sn: "same_names (the_db c2) (the_db c3)" "same_names ?db (the_db c3)" by (simp_all add: db2(1) db3(1) same_names_upd)
  have cv3: "conversing os n k c3" unfolding conversing_same[OF ss3] by (rule cv)
  have e3: "entry_at (the_db c3) ?q = ?f (entry_at ?db ?q)" using new(2) by (simp add: db3(1) entry_at_upd)
  have o3: "object_file os t c3 ?q path" by (rule object_file_cong[OF o2 st3(4,2,3) sn(1)]) (simp add: e3)
  have l3: "get_entry_by_handle (storages c3) (the_db c3) (param rq 0) = Some ?q"
    unfolding same_names_lookup[OF sn(2)] st3(1) hp(11) by (rule new(1))
  have a3: "check_handle_access (storages c3) (the_db c3) (Some ?q) (param rq 0) False = None"
    unfolding same_names_access[OF sn(2)] st3(1) by (rule new(4))
  have d3: "e_size (entry_at (the_db c3) ?q) = int (length data)" by (simp add: e3)
  obtain c4 where r4: "io_round os c3 = Some c4" "usb_out c4 = usb_out c3 @ map (Pair 0)
      (chunks (nat (usb_wr_buffer_max_size c3))
         (header_bytes (container_length (int (length data))) MTP_CONTAINER_TYPE_DATA MTP_OPERATION_GET_OBJECT (hdr_tx_id rq) @ data)
       @ zlp c3 (12 + int (length data))) @ [(0, response_packet MTP_RESPONSE_OK (hdr_tx_id rq) [])]"
    using round_get[OF os cv3 o3 r3(3) hp(9,10) db3(2) l3 a3 r3(6) d3] by blast
  have "\<not> stop (usb_ctx ctx)" "\<not> stop (usb_ctx c1)" "\<not> stop (usb_ctx c2)" "\<not> stop (usb_ctx c3)"
    using cv cv1 cv2 cv3 by (simp_all add: conversing_def link_ready_def)
  then have "io_rounds os 4 ctx = Some c4" by (simp add: eval_nat_numeral r1(1) r2(1) r3(1) r4(1))
  then show ?thesis using r4(2) r3(4) r2(4) r1(4) st3(5,6) by (auto simp: answers_def)
qed


text \<open>C8. A whole conversation. Over a link that is up and a file system with the calls of POSIX, a host announces
  a file in a folder of a storage it may write to, uploads it in as many packets as it takes, and asks for the object
  under the handle it was told. Four rounds of the io thread later the responder has put on the link, after what was
  there before, exactly this: the response OK with the new handle, the response OK of the upload, a container
  whose payload is byte for byte what was uploaded (and the empty packet when its length asks for one), the
  last response OK.\<close>

theorem host_conversation:
  assumes "posix_os os t n supply" "conversing os n k ctx"
    "fs_db ctx = Some db" "db_inv db" "db_room db"
    "supply (world ctx) = [info, ds, cmd, dat] @ ps @ rq # rest" "host_packets n (next_handle db) info cmd dat ps rq"
    "sid = param info 0" "parent = (if param info 1 = 0xFFFFFFFF then 0 else param info 1)"
    "announces ctx (ds @ drop (length ds) (rdbuffer2 ctx)) parent sid nm d" "\<And>q. \<not> named db nm parent sid q"
    "\<not> has_flag (mtp_get_storage_flags (storages ctx) sid) UMTP_STORAGE_LOCKED" "may_switch os ctx sid"
    "\<And>w. path_of os (ctx\<lparr>world := w\<rparr>) d = Some folder"
    "\<And>w fl. O_CREAT \<in> set fl \<Longrightarrow> 0 < snd (os_open os w (folder @ SLASH # nm) fl)"
    "\<And>sz. object_file os t (ctx\<lparr>fs_db := Some (new_file db parent sid nm sz)\<rparr>) (length (pool db)) path"
    "data = drop 12 dat @ concat ps"
  shows "\<exists>c. io_rounds os 4 ctx = Some c \<and> usb_out c = usb_out ctx @ map (Pair 0) (answers ctx (next_handle db) info dat rq data)"
  using assms by (rule host_conversation_ok)

text \<open>The file \<open>b\<close> of five bytes, in a storage that has a file already: its handle is 2.\<close>

theorem host_conversation_witness:
  "\<exists>c. io_rounds disk_os 4 (announce_ctx\<lparr>world := (empty_disk,
      [header_bytes 20 1 0x100C 7 @ le32 0xFFFF0001 @ le32 0xFFFFFFFF, sample_dataset, header_bytes 12 1 0x100D 8,
       header_bytes 17 2 0x100D 8 @ [1, 2, 3, 4, 5], header_bytes 16 1 0x1009 9 @ le32 2])\<rparr>) = Some c \<and>
    usb_out c = map (Pair 0)
      [response_packet MTP_RESPONSE_OK 7 [0xFFFF0001, 0xFFFFFFFF, 2], response_packet MTP_RESPONSE_OK 8 [],
       header_bytes 17 2 0x1009 9 @ [1, 2, 3, 4, 5], response_packet MTP_RESPONSE_OK 9 []]"
proof -
  let ?info = "header_bytes 20 1 0x100C 7 @ le32 0xFFFF0001 @ le32 0xFFFFFFFF" and ?cmd = "header_bytes 12 1 0x100D 8"
  let ?dat = "header_bytes 17 2 0x100D 8 @ [1, 2, 3, 4, 5]" and ?rq = "header_bytes 16 1 0x1009 9 @ le32 2"
  let ?c = "announce_ctx\<lparr>world := (empty_disk, [?info, sample_dataset, ?cmd, ?dat, ?rq])\<rparr>"
  have hd: "param ?info 0 = 0xFFFF0001" "param ?info 1 = 0xFFFFFFFF" "hdr_tx_id ?info = 7" "hdr_tx_id ?dat = 8" "hdr_tx_id ?rq = 9"
    by code_simp+
  have hp: "host_packets 128 2 ?info ?cmd ?dat [] ?rq" by code_simp
  have db: "fs_db ?c = Some sample_db" "storages ?c = sample_storages" "the_db ?c = sample_db"
    by (simp_all add: announce_ctx_def disk_ctx_def the_db_def)
  have st: "storages announce_ctx = sample_storages" and wr: "usb_wr_buffer_max_size announce_ctx = 64" by (simp_all add: announce_ctx_def disk_ctx_def)
  have cv: "conversing disk_os 128 6 ?c"
    by (simp add: conversing_def link_ready_def receiving_def announce_ctx_def disk_ctx_def disk_os_def)
  have room: "db_room sample_db" by (simp add: db_room_def sample_pool)
  have nx: "next_handle sample_db = 2" "length (pool sample_db) = 2"
    by (simp add: sample_db_def alloc_entry_push alloc_root_entry_push, simp add: init_fs_db_def) (simp add: sample_pool)
  have root: "get_entry_by_handle_and_storageid sample_db 0 0xFFFF0001 = Some 0"
    by (simp add: get_entry_by_handle_and_storageid_def sample_list sample_pool deleted_def has_flag_def root_entry_def)
  have an: "announces ?c (sample_dataset @ drop (length sample_dataset) (rdbuffer2 ?c)) 0 0xFFFF0001 [0x62] 0"
    by (simp add: announces_def sample_dataset_name sample_dataset_fields db root sample_pool root_entry_def has_flag_def
      announce_ctx_def disk_ctx_def the_db_def)
  have new: "\<not> named sample_db [0x62] 0 0xFFFF0001 q" for q
    by (cases "q = 0"; cases "q = Suc 0") (auto simp: named_def live_def ptrs_def sample_pool root_entry_def)
  have unlocked: "\<not> has_flag (mtp_get_storage_flags (storages ?c) 0xFFFF0001) UMTP_STORAGE_LOCKED"
    by (simp add: db has_flag_def)
  have sw: "may_switch disk_os c 0xFFFF0001" if "storages c = sample_storages" "ctx_uid c = -1" "ctx_gid c = -1" "default_uid c = -1" "default_gid c = -1" for c
    using that unfolding may_switch_def by (intro allI, subst unset_giduid(2)) simp_all
  have path: "path_of disk_os (?c\<lparr>world := w\<rparr>) 0 = Some [0x2F, 0x72, 0x2F, 0x2F]" for w
    by (simp add: build_full_path_def full_path_of_def parent_chain_end chain_end_def sample_pool disk_os_def db root_entry_def
      announce_ctx_def disk_ctx_def the_db_def)
  have op: "0 < snd (os_open disk_os w p fl)" if "O_CREAT \<in> set fl \<or> contents (fst w) p \<noteq> None" for w fl p
    using that by (auto simp: disk_os_def)
  have obj: "object_file disk_os fst (?c\<lparr>fs_db := Some (new_file sample_db 0 0xFFFF0001 [0x62] sz)\<rparr>) 2 [0x2F, 0x72, 0x2F, 0x62]" for sz
  proof -
    let ?db = "new_file sample_db 0 0xFFFF0001 [0x62] sz"
    have e: "length (pool ?db) = 3" "entry_at ?db 2 = new_entry sample_db \<lparr>isdirectory = False, filename = [0x62], fsize = sz\<rparr> 0 0xFFFF0001"
      by (simp_all add: new_file_def alloc_entry_push sample_pool)
    have "build_full_path disk_os w sample_storages ?db (Some [0x2F, 0x72]) (Some 2) = Some [0x2F, 0x72, 0x2F, 0x62]" for w
      by (simp add: build_full_path_def full_path_of_def parent_chain_end chain_end_def e new_entry_def disk_os_def)
    moreover have "may_switch disk_os (?c\<lparr>fs_db := Some ?db\<rparr>) 0xFFFF0001"
      by (rule sw) (simp_all add: announce_ctx_def disk_ctx_def)
    ultimately show ?thesis
      using op by (simp add: object_file_def db(2) the_db_def ptrs_def e(1)) (simp add: e(2) new_entry_def st)
  qed
  have z: "zlp ?c (12 + 5) = []" "nat (usb_wr_buffer_max_size ?c) = 64" "usb_out ?c = []"
    by (simp_all add: zlp_def announce_ctx_def disk_ctx_def)
  have cl: "container_length 5 = 17" by code_simp
  have one: "chunks 64 (header_bytes 17 2 0x1009 9 @ [1, 2, 3, 4, 5]) = [header_bytes 17 2 0x1009 9 @ [1, 2, 3, 4, 5]]"
    by (rule chunks_short) simp
  have dt: "[1, 2, 3, 4, 5] = drop 12 ?dat @ concat []" by code_simp
  have sup: "snd (world ?c) = [?info, sample_dataset, ?cmd, ?dat] @ [] @ ?rq # []" by simp
  have par: "(0 :: u32) = (if param ?info 1 = 0xFFFFFFFF then 0 else param ?info 1)" unfolding hd by simp
  have ans: "answers ?c 2 ?info ?dat ?rq [1, 2, 3, 4, 5] =
      [response_packet MTP_RESPONSE_OK 7 [0xFFFF0001, 0xFFFFFFFF, 2], response_packet MTP_RESPONSE_OK 8 [],
       header_bytes 17 2 0x1009 9 @ [1, 2, 3, 4, 5], response_packet MTP_RESPONSE_OK 9 []]"
    using z(1) hd(2) cl one by (simp add: answers_def hd wr)
  have op1: "0 < snd (os_open disk_os w ([0x2F, 0x72, 0x2F, 0x2F] @ SLASH # [0x62]) fl)" if "O_CREAT \<in> set fl" for w fl
    using op that by blast
  have sw1: "may_switch disk_os ?c 0xFFFF0001" by (rule sw) (simp_all add: announce_ctx_def disk_ctx_def)
  show ?thesis
    using host_conversation[OF disk_os_posix cv db(1) sample_db_inv room sup, unfolded nx,
      OF hp hd(1)[symmetric] par an new unlocked sw1 path op1 obj dt]
    unfolding ans z(3) by simp
qed

end
