(* ===== verification/Logs.thy ===== *)
theory Logs
  imports Properties
begin

text \<open>
  Log output: \<open>src/logs_out.c\<close> and the \<open>PRINT_\<close> macros of \<open>inc/logs_out.h\<close>. A line is what a macro hands
  to \<open>syslog\<close> or to a stream, after its format has been expanded; no other part of the model depends on it.
  The last sections give the dump of a buffer a layout and read it back.
\<close>

section \<open>Time stamps\<close>

text \<open>\<open>snprintf\<close> into a buffer of \<open>maxsize\<close> bytes, the zero included; the time is what \<open>localtime\<close> gave.\<close>

definition snprintf :: "int \<Rightarrow> cstr \<Rightarrow> cstr" where
  "snprintf maxsize s = take (nat (maxsize - 1)) s"

definition timestamp :: "tm_info option \<Rightarrow> int \<Rightarrow> cstr" where
  "timestamp local_time maxsize =
    (case local_time of
       Some lt \<Rightarrow> snprintf maxsize (print_d 2 (tm_hour lt) @ [0x3A] @ print_d 2 (tm_min lt) @ [0x3A] @ print_d 2 (tm_sec lt))
     | None \<Rightarrow> snprintf maxsize (bytes_of ''??:??:??''))"

section \<open>The macros\<close>

datatype log_level = Info | Error | Warning | Debug

datatype log_sink = Stdout | Stderr | LOG_NOTICE | LOG_ERR | LOG_WARNING | LOG_DEBUG

text \<open>The build: \<open>USE_SYSLOG\<close> and \<open>DEBUG\<close>.\<close>

record log_build =
  use_syslog :: bool
  debug :: bool

definition level_name :: "log_level \<Rightarrow> cstr" where
  "level_name l =
    (case l of Info \<Rightarrow> bytes_of ''Info'' | Error \<Rightarrow> bytes_of ''Error'' | Warning \<Rightarrow> bytes_of ''Warning''
     | Debug \<Rightarrow> bytes_of ''Debug'')"

definition syslog_priority :: "log_level \<Rightarrow> log_sink" where
  "syslog_priority l =
    (case l of Info \<Rightarrow> LOG_NOTICE | Error \<Rightarrow> LOG_ERR | Warning \<Rightarrow> LOG_WARNING | Debug \<Rightarrow> LOG_DEBUG)"

text \<open>A macro with the text its format and arguments make: where the line goes, and the line.\<close>

definition print_log :: "log_build \<Rightarrow> tm_info option \<Rightarrow> log_level \<Rightarrow> cstr \<Rightarrow> (log_sink \<times> cstr) list" where
  "print_log build now l message =
    (if l = Debug \<and> \<not> debug build then []
     else if use_syslog build
     then [(syslog_priority l, bytes_of ''[uMTPrd - '' @ level_name l @ bytes_of ''] '' @ message @ [0x0A])]
     else [(if l = Error then Stderr else Stdout,
            bytes_of ''[uMTPrd - '' @ timestamp now 32 @ bytes_of '' - '' @ level_name l @ bytes_of ''] '' @ message @ [0x0A])])"

section \<open>The dump of a buffer\<close>

definition specialchar :: cstr where
  "specialchar = bytes_of ''&#{}()|_@=$!?;+*-''"

fun specialchar_loop :: "cstr \<Rightarrow> byte \<Rightarrow> bool" where
  "specialchar_loop [] c = False"
| "specialchar_loop (s # ss) c = (if s = c then True else specialchar_loop ss c)"

definition is_printable_char :: "byte \<Rightarrow> bool" where
  "is_printable_char c =
    (if (0x41 \<le> c \<and> c \<le> 0x5A) \<or> (0x61 \<le> c \<and> c \<le> 0x7A) \<or> (0x30 \<le> c \<and> c \<le> 0x39) then True
     else specialchar_loop specialchar c)"

definition print_02X :: "byte \<Rightarrow> cstr" where
  "print_02X b = [hex_digit (drop_bit 4 (ucast b)), hex_digit (ucast b AND 0xF)]"

definition PRINTBUF_HEXPERLINE :: nat where "PRINTBUF_HEXPERLINE = 16"
definition PRINTBUF_MAXLINE_SIZE :: nat where
  "PRINTBUF_MAXLINE_SIZE = (3 * PRINTBUF_HEXPERLINE) + 1 + PRINTBUF_HEXPERLINE + 2"

definition blank_str :: buffer where
  "blank_str = (replicate PRINTBUF_MAXLINE_SIZE 0x20)[PRINTBUF_MAXLINE_SIZE - 1 := 0]"

text \<open>What \<open>%s\<close> prints of the array.\<close>

definition printed :: "buffer \<Rightarrow> cstr" where
  "printed str = takeWhile (\<lambda>b. b \<noteq> 0) str"

definition put_byte :: "buffer \<Rightarrow> nat \<Rightarrow> byte \<Rightarrow> buffer" where
  "put_byte str j b =
    (write_at str (j * 3) (print_02X b))
      [3 * PRINTBUF_HEXPERLINE + 1 + j := if is_printable_char b then b else 0x2E]"

text \<open>The loop over the bytes from the \<open>i\<close>-th on: the messages of its \<open>PRINT_DEBUG\<close> calls.\<close>

fun printbuf_loop :: "byte list \<Rightarrow> nat \<Rightarrow> nat \<Rightarrow> buffer \<Rightarrow> cstr list" where
  "printbuf_loop [] i j str = [printed str]"
| "printbuf_loop (b # ptr) i j str =
    (let (lines, str', j') = (if i AND (PRINTBUF_HEXPERLINE - 1) = 0 \<and> i \<noteq> 0 then ([printed str], blank_str, 0)
                              else ([], str, j))
     in lines @ printbuf_loop ptr (i + 1) (j' + 1) (put_byte str' j' b))"

definition printbuf :: "buffer \<Rightarrow> int \<Rightarrow> cstr list" where
  "printbuf buf sz = printbuf_loop (take (nat sz) buf) 0 0 blank_str"

definition PRINT_DEBUG_BUF :: "log_build \<Rightarrow> tm_info option \<Rightarrow> buffer \<Rightarrow> int \<Rightarrow> (log_sink \<times> cstr) list" where
  "PRINT_DEBUG_BUF build now buf sz =
    (if debug build then concat (map (print_log build now Debug) (printbuf buf sz)) else [])"

section \<open>The layout of a dump\<close>

definition shown :: "byte \<Rightarrow> byte" where
  "shown b = (if is_printable_char b then b else 0x2E)"

definition hex_column :: "byte list \<Rightarrow> cstr" where
  "hex_column bs = concat (map (\<lambda>b. print_02X b @ [0x20]) bs)"

definition dump_line :: "byte list \<Rightarrow> cstr" where
  "dump_line bs = (hex_column bs @ replicate (3 * (16 - length bs)) 0x20) @ [0x20] @
     (map shown bs @ replicate (16 - length bs) 0x20) @ [0x20]"

lemma length_hex_column [simp]: "length (hex_column bs) = 3 * length bs"
  by (induction bs) (simp_all add: hex_column_def print_02X_def)

lemma hex_column_append [simp]: "hex_column (as @ bs) = hex_column as @ hex_column bs"
  by (simp add: hex_column_def)

lemma blank_str_line: "blank_str = dump_line [] @ [0]"
  by (simp add: blank_str_def dump_line_def hex_column_def PRINTBUF_MAXLINE_SIZE_def PRINTBUF_HEXPERLINE_def numeral_eq_Suc)

lemma hex_column_single: "hex_column [b] = print_02X b @ [0x20]"
  by (simp add: hex_column_def)

lemma put_byte_line:
  assumes "length bs < 16"
  shows "put_byte (dump_line bs @ [0]) (length bs) b = dump_line (bs @ [b]) @ [0]"
proof -
  obtain m where m: "16 - length bs = Suc m" using assms by (cases "16 - length bs") auto
  then have n: "16 - Suc (length bs) = m" "3 * (16 - length bs) = Suc (Suc (Suc (3 * m)))" by simp_all
  define h where "h = hex_column bs"
  have h: "length h = 3 * length bs" by (simp add: h_def)
  have hex: "write_at (dump_line bs @ [0]) (length bs * 3) (print_02X b)
      = (h @ hex_column [b] @ replicate (3 * m) 0x20) @ [0x20] @ (map shown bs @ replicate (Suc m) 0x20) @ [0x20] @ [0]"
    unfolding write_at_def dump_line_def n h_def[symmetric]
    by (simp add: h hex_column_single print_02X_def m mult.commute)
  have len: "length (h @ hex_column [b] @ replicate (3 * m) (0x20 :: byte)) = 48" using m assms h by simp
  have k: "3 * PRINTBUF_HEXPERLINE + 1 + length bs
      = length (h @ hex_column [b] @ replicate (3 * m) (0x20 :: byte)) + (1 + length (map shown bs))"
    unfolding len by (simp add: PRINTBUF_HEXPERLINE_def)
  have upd: "(A @ [x] @ (M @ y # R) @ S)[length A + (1 + length M) := z] = A @ [x] @ (M @ z # R) @ S"
    for A M R S :: "byte list" and x y z by (simp add: list_update_append)
  have "put_byte (dump_line bs @ [0]) (length bs) b =
    (h @ hex_column [b] @ replicate (3 * m) 0x20) @ [0x20] @ (map shown bs @ shown b # replicate m 0x20) @ [0x20] @ [0]"
    unfolding put_byte_def hex k replicate_Suc upd by (simp add: shown_def)
  moreover have "3 * (16 - length (bs @ [b])) = 3 * m" "16 - length (bs @ [b]) = m" using n(1) by simp_all
  ultimately show ?thesis unfolding dump_line_def h_def by (simp only: hex_column_append append_assoc) simp
qed

lemma is_printable_range: "is_printable_char c \<Longrightarrow> 0x21 \<le> c \<and> c < 0x7F"
  by (auto simp: is_printable_char_def specialchar_def word_le_nat_alt word_less_nat_alt split: if_splits)

lemma nibble_cases:
  assumes "d < (16 :: u32)"
  shows "d \<in> {0, 1, 2, 3, 4, 5, 6, 7, 8, 9, 10, 11, 12, 13, 14, 15}"
proof -
  have "unat d < 16" using assms by (simp add: word_less_nat_alt)
  then have "unat d \<in> {0, 1, 2, 3, 4, 5, 6, 7, 8, 9, 10, 11, 12, 13, 14, 15}"
    by (simp only: insert_iff empty_iff) presburger
  then show ?thesis by (auto dest: arg_cong[where f = "word_of_nat :: nat \<Rightarrow> u32"])
qed

lemma nibbles [simp]: "drop_bit 4 (ucast (b :: byte)) < (16 :: u32)" "ucast b AND 0xF < (16 :: u32)"
proof -
  have "unat (ucast b :: u32) < 256" using unsigned_less[of b, where 'a = nat] by (simp add: unsigned_ucast_eq take_bit_nat_eq_self)
  then show "drop_bit 4 (ucast (b :: byte)) < (16 :: u32)"
    by (simp add: word_less_nat_alt drop_bit_eq_div unat_div)
  show "ucast b AND 0xF < (16 :: u32)" by (rule le_less_trans[OF word_and_le1]) simp
qed

lemma hex_digit_range:
  assumes "d < 16" shows "0x30 \<le> hex_digit d" "hex_digit d < 0x7F"
  using nibble_cases[OF assms] by (auto simp: hex_digit_def)

text \<open>Nothing that a terminal could take for a control character, and no end of string.\<close>

definition graphic :: "byte \<Rightarrow> bool" where
  "graphic c \<longleftrightarrow> 0x20 \<le> c \<and> c < 0x7F"

lemma dump_line_graphic: "list_all graphic (dump_line bs)"
proof -
  have p: "list_all graphic (print_02X b @ [0x20])" for b
    using hex_digit_range[of "drop_bit 4 (ucast b)"] hex_digit_range[of "ucast b AND 0xF"]
    by (auto simp: print_02X_def graphic_def intro: order.trans[of "0x20" "0x30"])
  have h: "list_all graphic (hex_column bs)"
    by (induction bs) (use p in \<open>simp_all add: hex_column_def\<close>)
  have s: "graphic (shown b)" for b
    using is_printable_range[of b] by (auto simp: shown_def graphic_def intro: order.trans[of "0x20" "0x21"])
  have t: "graphic 0x20" by (simp add: graphic_def)
  show ?thesis using h s t by (auto simp: dump_line_def list_all_iff)
qed

lemma printed_line [simp]: "printed (dump_line bs @ [0]) = dump_line bs"
proof -
  have "b \<noteq> 0" if "b \<in> set (dump_line bs)" for b
    using dump_line_graphic[of bs] that by (auto simp: list_all_iff graphic_def)
  then show ?thesis by (simp add: printed_def takeWhile_append)
qed

lemma and_15_mod: "x AND 15 = x mod 16" for x :: nat
  using take_bit_eq_mask[of 4 x] by (simp add: mask_eq_exp_minus_1 take_bit_eq_mod)

lemma new_line_iff: "length bs \<le> 16 \<Longrightarrow> bs \<noteq> [] \<Longrightarrow> (16 * k + length bs) AND 15 = 0 \<longleftrightarrow> length bs = 16"
proof -
  assume "length bs \<le> 16" "bs \<noteq> []"
  moreover have "(16 * k + length bs) AND 15 = (16 * k + length bs) mod 16"
    by (rule and_15_mod)
  moreover have "0 < length bs" using \<open>bs \<noteq> []\<close> by simp
  ultimately show ?thesis by (cases "length bs = 16") simp_all
qed

lemma printbuf_loop_lines:
  assumes "length bs \<le> 16" "bs = [] \<Longrightarrow> k = 0"
  shows "printbuf_loop ptr (16 * k + length bs) (length bs) (dump_line bs @ [0]) = map dump_line (chunks 16 (bs @ ptr))"
  using assms
proof (induction ptr arbitrary: bs k)
  case Nil then show ?case by (simp add: chunks_short)
next
  case (Cons b ptr)
  show ?case
  proof (cases "length bs = 16")
    case True
    then have "(16 * k + length bs) AND (PRINTBUF_HEXPERLINE - 1) = 0 \<and> 16 * k + length bs \<noteq> 0"
      using new_line_iff[of bs k] by (cases "bs = []") (simp_all add: PRINTBUF_HEXPERLINE_def)
    moreover have "put_byte blank_str 0 b = dump_line [b] @ [0]"
      using put_byte_line[of "[]" b] by (simp add: blank_str_line)
    moreover have "printbuf_loop ptr (16 * Suc k + 1) 1 (dump_line [b] @ [0]) = map dump_line (chunks 16 (b # ptr))"
      using Cons.IH[of "[b]" "Suc k"] by simp
    ultimately show ?thesis
      using True chunks_Cons[of bs 16 "b # ptr"] by (simp only: printbuf_loop.simps if_P) (simp add: add.commute)
  next
    case False
    then have "\<not> ((16 * k + length bs) AND (PRINTBUF_HEXPERLINE - 1) = 0 \<and> 16 * k + length bs \<noteq> 0)"
      using new_line_iff[of bs k] Cons.prems by (cases "bs = []") (auto simp: PRINTBUF_HEXPERLINE_def)
    moreover have "put_byte (dump_line bs @ [0]) (length bs) b = dump_line (bs @ [b]) @ [0]"
      using put_byte_line False Cons.prems(1) by simp
    moreover have "printbuf_loop ptr (16 * k + Suc (length bs)) (Suc (length bs)) (dump_line (bs @ [b]) @ [0])
        = map dump_line (chunks 16 (bs @ b # ptr))"
      using Cons.IH[of "bs @ [b]" k] Cons.prems(1) False by simp
    ultimately show ?thesis by (simp only: printbuf_loop.simps if_not_P) simp
  qed
qed

section \<open>Reading a dump\<close>

definition unhex :: "byte \<Rightarrow> byte" where
  "unhex c = (if c < 0x3A then c - 0x30 else c - 0x37)"

fun read_hex :: "cstr \<Rightarrow> byte list" where
  "read_hex (h # l # s # r) = (if h = 0x20 then [] else (unhex h * 16 + unhex l) # read_hex r)"
| "read_hex _ = []"

lemma unhex_hex_digit: "d < 16 \<Longrightarrow> unhex (hex_digit d) = ucast d"
  using nibble_cases[of d] by (auto simp: hex_digit_def unhex_def)

lemma nibbles_of_byte: "ucast (drop_bit 4 (ucast b :: u32)) * 16 + ucast ((ucast b :: u32) AND 0xF) = (b :: byte)"
proof -
  have "ucast (drop_bit 4 (ucast b :: u32)) = drop_bit 4 b" "ucast ((ucast b :: u32) AND 0xF) = b AND 0xF"
    by (rule bit_word_eqI; auto simp: bit_simps)+
  moreover have "drop_bit 4 b * 16 + (b AND 0xF) = b"
    using bits_ident[of 4 b] by (simp add: push_bit_eq_mult take_bit_eq_mask mask_eq_exp_minus_1)
  ultimately show ?thesis by simp
qed

lemma read_hex_column: "read_hex (hex_column bs @ 0x20 # x # y # r) = bs"
proof (induction bs)
  case Nil then show ?case by (simp add: hex_column_def)
next
  case (Cons b bs)
  have "hex_digit (drop_bit 4 (ucast b)) \<noteq> 0x20" using hex_digit_range(1)[of "drop_bit 4 (ucast b)"] by auto
  moreover have "hex_column (b # bs) = print_02X b @ [0x20] @ hex_column bs" by (simp add: hex_column_def)
  ultimately show ?case using Cons by (simp add: print_02X_def unhex_hex_digit nibbles_of_byte)
qed

lemma dump_line_read: "length bs \<le> 16 \<Longrightarrow> length (dump_line bs) = 66 \<and> read_hex (dump_line bs) = bs"
proof -
  assume len: "length bs \<le> 16"
  have "\<exists>x y r. dump_line bs = hex_column bs @ 0x20 # x # y # r"
  proof (cases "length bs = 16")
    case True
    then have "bs \<noteq> []" by auto
    then obtain b bs' where "bs = b # bs'" by (cases bs) auto
    then show ?thesis using True by (cases bs') (simp_all add: dump_line_def)
  next
    case False
    then obtain m where "16 - length bs = Suc m" using len by (cases "16 - length bs") auto
    then have "3 * (16 - length bs) = Suc (Suc (Suc (3 * m)))" by simp
    then show ?thesis by (simp only: dump_line_def) simp
  qed
  then show ?thesis using len read_hex_column[of bs] by (auto simp: dump_line_def)
qed

lemma chunks_all: "0 < n \<Longrightarrow> list_all (\<lambda>c. length c \<le> n) (chunks n xs) \<and> concat (chunks n xs) = xs"
  by (induction n xs rule: chunks.induct) (subst (1 2) chunks.simps; simp)

lemma printbuf_lines: "printbuf buf n = map dump_line (chunks 16 (take (nat n) buf))"
  using printbuf_loop_lines[of "[]" 0 "take (nat n) buf"] by (simp add: printbuf_def blank_str_line)

text \<open>C40. The dump of a buffer loses nothing and is safe to print: the two-digit columns of its lines, read
  back in order, are the first \<open>n\<close> bytes of the buffer, and every line has 66 characters, all of them
  graphic ASCII or spaces, whatever the bytes are.\<close>

theorem printbuf_reads_back:
  "concat (map read_hex (printbuf buf n)) = take (nat n) buf
   \<and> list_all (\<lambda>line. length line = 66 \<and> list_all graphic line) (printbuf buf n)"
proof -
  have "map read_hex (map dump_line cs) = cs" "list_all (\<lambda>line. length line = 66 \<and> list_all graphic line) (map dump_line cs)"
    if "list_all (\<lambda>c. length c \<le> 16) cs" for cs
    using that dump_line_read dump_line_graphic by (induction cs) simp_all
  then show ?thesis using chunks_all[of 16 "take (nat n) buf"] by (simp only: printbuf_lines)
qed

text \<open>A line of the program names its sender and its level and ends with a new line, in both builds; without
  \<open>DEBUG\<close> the debug macros print nothing.\<close>

lemma print_log_line:
  "(s, line) \<in> set (print_log build now l message) \<Longrightarrow>
     (\<exists>r. line = bytes_of ''[uMTPrd - '' @ r @ bytes_of ''] '' @ message @ [0x0A])
     \<and> (s = Stderr \<longrightarrow> l = Error) \<and> (l = Debug \<longrightarrow> debug build)"
  by (auto simp: print_log_def syslog_priority_def split: if_splits log_level.splits)

end
