(* ===== verification/Spec2Isabelle.thy ===== *)
theory Spec2Isabelle
  imports Responder Conversation Logs
begin

text \<open>
  Verification library of uMTP Responder, a daemon that serves the files of a device to a USB host
  over the Media Transfer Protocol (MTP). The model follows the C code under \<open>src/\<close> function by
  function; names are the names of the source.

  \<^bold>\<open>The program.\<close> One process with four threads around one context, \<open>mtp_ctx\<close> of \<open>inc/mtp.h\<close>.
  The main thread (\<open>umtprd.c\<close>) loads the configuration (\<open>mtp_cfg.c\<close>), opens the gadget and serves
  end point 0 (\<open>usb_gadget.c\<close>). The io thread takes a packet of the host, calls its operation
  (\<open>mtp.c\<close>, \<open>mtp_operations/\<close>) and sends data and response. The inotify thread (\<open>inotify.c\<close>) turns
  changes of watched folders into database changes and MTP events. The queue thread (\<open>msgqueue.c\<close>)
  carries out commands that another instance sends. All of them share the handle database
  (\<open>fs_handles_db.c\<close> over \<open>hash_utils.c\<close>) and the storage table (\<open>mtp.c\<close>) under \<open>inotify_mutex\<close>.

  \<^bold>\<open>Theories, in the order of their imports.\<close>
  \<^item> Prelude: machine types, C strings as byte lists without the closing zero, \<open>write_at\<close>, the
    collections of rewrite rules.
  \<^item> Codec (\<open>mtp_helpers.c\<close>): little-endian readers and writers. Locales \<open>field_writer\<close> (a writer
    fits, refuses or passes a former error on) and \<open>writer_pair\<close> (two in a row are one); all
    writers of the code are interpretations of it, datasets are chains of them.
  \<^item> Unicode (\<open>usbstring.c\<close>, \<open>poke_string\<close>): UTF-8 and UTF-16, MTP strings, USB string descriptors.
  \<^item> Sanitize (\<open>mtp_sanitize.c\<close>): the strict UTF-8 validator, the rewriting of names, \<open>check_realpath\<close>.
  \<^item> Constants (\<open>inc/mtp_constant.h\<close>, \<open>posix_to_mtp_errcode\<close>), Names (\<open>mtp_constant_strings.c\<close>).
  \<^item> Storage (storage table of \<open>mtp.c\<close>): sixteen slots, locale \<open>named_store\<close> for a table with
    lookup by name, addition and removal.
  \<^item> HandleDb (\<open>hash_utils.c\<close>, first half of \<open>fs_handles_db.c\<close>): entries, pointers as indices of the
    pool, the list and the two hash tables, locale \<open>bucket\<close> for a bucket of a table; \<open>db_inv\<close> is
    the invariant, \<open>the_db\<close> the abstract view of a context.
  \<^item> Ctx: the context record, the record \<open>os\<close> of the system calls, USB transfers, identities.
  \<^item> Paths (second half of \<open>fs_handles_db.c\<close>): paths, scans of folders, descriptors, removal.
  \<^item> Properties (\<open>mtp_properties.c\<close>), Datasets (\<open>mtp_datasets.c\<close>, \<open>mtp_support_def.c\<close>).
  \<^item> FileTransfer, TreeOps (\<open>mtp_ops_helpers.c\<close>, \<open>mtp_op_sendobject.c\<close>), Ops (\<open>mtp_operations/\<close>, one
    definition per handler), Dispatch (\<open>mtp.c\<close>: packet, operation, response, events).
  \<^item> Config (\<open>mtp_cfg.c\<close>), Inotify (\<open>inotify.c\<close>), MsgQueue (\<open>msgqueue.c\<close>).
  \<^item> Gadget (\<open>usb_gadget.c\<close>): descriptors, end points, control requests, the events of end point 0 in
    the GadgetFS and the FunctionFS mode, start and end of a gadget.
  \<^item> Daemon (\<open>umtprd.c\<close>, loop and end of the queue thread): the io thread, sessions, command line.
  \<^item> Evolution: what every operation does to the shared context (\<open>evolves\<close>, \<open>moves\<close>), composed the way the
    code composes its calls.
  \<^item> Responder: all of it together, as the inductive relations \<open>responder_step\<close>, \<open>idle_step\<close> (between sessions)
    and \<open>reachable\<close>.
  \<^item> RoundTrip: uploads and downloads over a file system with the calls of POSIX (\<open>file_table\<close>, \<open>posix_os\<close>).
  \<^item> Conversation: the same through the io thread, from the packets of the host to the packets of the responder.
  \<^item> Logs (\<open>logs_out.c\<close>, \<open>inc/logs_out.h\<close>): log lines and the dump of buffers.

  \<^bold>\<open>Conventions.\<close> A handler gives \<open>Some (context, response code, response parameters)\<close>; \<open>None\<close> is a call
  that does not return, or a crash, never an error of the code: errors are codes or negative
  results, as in C. \<open>locked\<close> brackets a body by the mutex, and \<open>inotify_locked\<close> records who holds it.
  Integers keep their width (\<open>u8\<close> to \<open>u64\<close>; \<open>int\<close> where the code has a signed type whose overflow
  cannot happen within the buffer sizes). The kernel is the parameter \<open>os\<close> over a world \<open>'w\<close>;
  theorems name what they ask of it. Between two packets the other threads act on the context: in
  \<open>ep0_loop\<close> the rounds \<open>Others f\<close>, in \<open>reachable\<close> any step.

  \<^bold>\<open>What is shown.\<close>
  \<^item> The whole program: C1 to C5 and C24 hold in every reachable state, over all orders of
    packets, folder events, messages, USB events and sessions: the database is consistent, the mutex
    free, lookups exact, handles stable, and operations return. C2 connects the states of the main loop
    with them.
  \<^item> Safety of names, paths and sessions: C6, C7, C15, C16, C35.
  \<^item> Contents: C8 is a whole conversation, packet by packet: a new file is announced, uploaded and comes back. C9
    is the round trip of any object through \<open>SendObject\<close> and \<open>GetObject\<close>, C10 and C11 are its halves, C12 the
    announcement of a new object; C13 is for lists of handles, C29 to C33 for strings, datasets and fields, C26
    for USB descriptors.
  \<^item> The database: C14, C19 to C23, C34, C38; changes from outside: C16 to C18, C36, C39.
  \<^item> The gadget: C25, C27, C28; the process: C35, C37; the log: C40.
  \<^item> Further theorems of the theories state defects of the code (sibling folders pass the root check, an end point
    that stays closed, a second process that starts), the idempotence of the sanitiser, the round trip of
    configuration parameters, options as lists, storage lines, dates, object and event datasets,
    string requests, the operations announced and dispatched, the end of the io thread and the order of
    commands.

  \<^bold>\<open>Bounds.\<close> \<open>parent_chain\<close> has as many rounds as the database has entries: parents have smaller
  handles (\<open>parent_chain_complete\<close>). \<open>delete_loop\<close> has the 64 levels of the code and a round per
  entry (\<open>delete_loop_returns\<close>). \<open>remove_tree\<close> has 4096 levels, more than a path of the kernel can
  have. \<open>handles_loop\<close> has a round per handle. \<open>io_thread\<close>, \<open>receive_loop\<close> and \<open>check_realpath_loop\<close> are
  partial functions, as the host or the code may keep them going for ever. A bucket of the
  hash tables is bounded by 2 to the 28 entries, where the size in bytes reaches the width of the code's
  counter; the theorems on reachable states carry that bound as a hypothesis.

  \<^bold>\<open>Not modelled.\<close> The calls of the log macros in the code (no function reads what
  they write), failures of \<open>malloc\<close> where the code has no
  other effect than an error return, the build with \<open>CONFIG_USB_SS_SUPPORT\<close> or
  \<open>CONFIG_USB_NON_BLOCKING_WRITE\<close>, \<open>cancel_mutex\<close> around single assignments, the interleaving inside
  a critical section, events pushed before the first session and between two of them (the code then uses a
  gadget that is not there), signal handlers and \<open>sd_notify\<close>, the parts of the headers that no code uses.
\<close>

end
